(* ===== verification/Prelude.thy ===== *)
theory Prelude
  imports
    Main
    "HOL-Library.Word"
    "HOL-Library.Char_ord"
    "HOL-Library.List_Lexorder"
    "HOL-Library.Sublist"
begin

text \<open>
  Shared vocabulary of the development.

  Rust strings are valid UTF-8; a \<open>String\<close> or \<open>&str\<close> of the code is modelled by its bytes, as
  an Isabelle \<open>string\<close> (a list of 8-bit characters).  So \<open>str::len\<close> is \<^const>\<open>length\<close>, the order of
  strings is the lexicographic order of the bytes (theories Char_ord and List_Lexorder), byte
  offsets are list indices, and \<open>str::chars\<close> is the function \<open>utf8_chars\<close> below, which cuts the
  bytes into the encodings of the code points.  Machine integers whose width matters are words.

  The section holds the functions of the standard library that the modelled code calls
  (splitting, trimming, prefix and suffix stripping, decimal printing and parsing, checked and
  saturating arithmetic) and the lemmas about them that several components share.
\<close>

named_theorems utf8_simps \<open>equations of the UTF-8 chunking and its derived predicates\<close>

section \<open>Machine integers\<close>

type_synonym u32 = "32 word"
type_synonym u64 = "64 word"

definition u64_max :: u64 where
  "u64_max = - 1"

definition checked_add1 :: "u64 \<Rightarrow> u64 option" where
  "checked_add1 n = (if n = u64_max then None else Some (n + 1))"

definition saturating_add1 :: "u64 \<Rightarrow> u64" where
  "saturating_add1 n = (if n = u64_max then u64_max else n + 1)"

definition saturating_sub1 :: "u64 \<Rightarrow> u64" where
  "saturating_sub1 n = (if n = 0 then 0 else n - 1)"

lemma unat_u64_max: "unat u64_max = 2 ^ 64 - 1"
  by (simp add: u64_max_def unsigned_minus_1_eq_mask mask_eq_exp_minus_1)

lemma unat_u64_less [simp]: "unat (n :: u64) < 2 ^ 64"
  using unsigned_less [of n, where ?'a = nat] by simp

lemma unat_of_nat_u64 [simp]: "k < 2 ^ 64 \<Longrightarrow> unat (of_nat k :: u64) = k"
  by (simp add: unsigned_of_nat take_bit_nat_eq_self)

lemma of_nat_unat_u64 [simp]: "of_nat (unat n) = (n :: u64)"
  by (simp add: unsigned_word_eqI unsigned_of_nat take_bit_nat_eq_self)

lemma u64_eq_of_nat: "unat (n :: u64) = k \<Longrightarrow> n = of_nat k"
  by auto

lemma unat_plus_one:
  assumes "n \<noteq> u64_max"
  shows "unat (n + 1) = Suc (unat n)"
proof -
  have "unat n \<noteq> 2 ^ 64 - 1"
    using assms unat_u64_max by (metis unsigned_word_eqI)
  moreover have "unat n < 2 ^ 64"
    by (rule unat_u64_less)
  ultimately have "unat n + unat (1 :: u64) < 2 ^ LENGTH(64)"
    by simp
  then have "unat (n + 1) = unat n + unat (1 :: u64)"
    by (rule unat_add_lem [THEN iffD1])
  then show ?thesis by simp
qed

lemma checked_add1_Some:
  "checked_add1 n = Some m \<Longrightarrow> m = n + 1 \<and> unat m = Suc (unat n)"
  by (auto simp: checked_add1_def unat_plus_one split: if_splits)

lemma unat_saturating_add1: "unat (saturating_add1 n) = min (2 ^ 64 - 1) (Suc (unat n))"
proof (cases "n = u64_max")
  case True
  then show ?thesis by (simp add: saturating_add1_def unat_u64_max)
next
  case False
  have "unat n < 2 ^ 64"
    by (rule unat_u64_less)
  moreover have "unat n \<noteq> 2 ^ 64 - 1"
    using False unat_u64_max by (metis unsigned_word_eqI)
  ultimately show ?thesis
    using False by (simp add: saturating_add1_def unat_plus_one)
qed

lemma unat_saturating_sub1: "unat (saturating_sub1 n) = unat n - 1"
  by (auto simp: saturating_sub1_def unat_minus_one)

section \<open>UTF-8\<close>

definition is_cont :: "char \<Rightarrow> bool" where
  "is_cont c = (128 \<le> (of_char c :: nat) \<and> (of_char c :: nat) < 192)"

lemma length_dropWhile_less [termination_simp]: "length (dropWhile p xs) < Suc (length xs)"
  by (simp add: length_dropWhile_le less_Suc_eq_le)

fun utf8_chars :: "string \<Rightarrow> string list" where
  "utf8_chars [] = []"
| "utf8_chars (c # cs) = (c # takeWhile is_cont cs) # utf8_chars (dropWhile is_cont cs)"

lemma concat_utf8_chars [simp]: "concat (utf8_chars s) = s"
  by (induction s rule: utf8_chars.induct) simp_all

lemma utf8_chars_nonempty: "c \<in> set (utf8_chars s) \<Longrightarrow> c \<noteq> []"
  by (induction s rule: utf8_chars.induct) auto

lemma utf8_chars_eq_Nil [simp]: "utf8_chars s = [] \<longleftrightarrow> s = []"
  by (cases s) simp_all

lemma length_utf8_chars_le: "length (utf8_chars s) \<le> length s"
proof (induction s rule: utf8_chars.induct)
  case (2 c cs)
  have "length (dropWhile is_cont cs) \<le> length cs"
    by (simp add: length_dropWhile_le)
  with 2 show ?case by simp
qed simp

text \<open>\<open>char::is_control\<close>: the category Cc, U+0000..U+001F and U+007F..U+009F.\<close>

fun is_control :: "string \<Rightarrow> bool" where
  "is_control [c] = ((of_char c :: nat) < 32 \<or> (of_char c :: nat) = 127)"
| "is_control [c, d] = ((of_char c :: nat) = 194 \<and> 128 \<le> (of_char d :: nat) \<and> (of_char d :: nat) < 160)"
| "is_control _ = False"

text \<open>\<open>char::is_whitespace\<close>: the property White_Space, over the encodings of its code points.\<close>

fun is_whitespace :: "string \<Rightarrow> bool" where
  "is_whitespace [c] = ((9 \<le> (of_char c :: nat) \<and> (of_char c :: nat) \<le> 13) \<or> (of_char c :: nat) = 32)"
| "is_whitespace [c, d] = ((of_char c :: nat) = 194 \<and> ((of_char d :: nat) = 133 \<or> (of_char d :: nat) = 160))"
| "is_whitespace [c, d, e] =
    (let a = (of_char c :: nat); b = (of_char d :: nat); f = (of_char e :: nat) in
      (a = 225 \<and> b = 154 \<and> f = 128)
      \<or> (a = 226 \<and> b = 128 \<and> ((128 \<le> f \<and> f \<le> 138) \<or> f = 168 \<or> f = 169 \<or> f = 175))
      \<or> (a = 226 \<and> b = 129 \<and> f = 159)
      \<or> (a = 227 \<and> b = 128 \<and> f = 128))"
| "is_whitespace _ = False"

definition chars_count :: "string \<Rightarrow> nat" where
  "chars_count s = length (utf8_chars s)"

definition any_control :: "string \<Rightarrow> bool" where
  "any_control s = list_ex is_control (utf8_chars s)"

definition trim_start :: "string \<Rightarrow> string" where
  "trim_start s = concat (dropWhile is_whitespace (utf8_chars s))"

definition trim_end :: "string \<Rightarrow> string" where
  "trim_end s = concat (rev (dropWhile is_whitespace (rev (utf8_chars s))))"

definition trim :: "string \<Rightarrow> string" where
  "trim s = trim_end (trim_start s)"

text \<open>\<open>str::split_whitespace\<close>: the maximal runs of characters that are not white space.\<close>

fun words_of :: "string list \<Rightarrow> string list" where
  "words_of [] = []"
| "words_of (c # cs) =
    (if is_whitespace c then words_of cs
     else concat (c # takeWhile (\<lambda>d. \<not> is_whitespace d) cs)
       # words_of (dropWhile (\<lambda>d. \<not> is_whitespace d) cs))"

definition split_whitespace :: "string \<Rightarrow> string list" where
  "split_whitespace s = words_of (utf8_chars s)"

lemma words_of_nonempty: "[] \<notin> set cs \<Longrightarrow> [] \<notin> set (words_of cs)"
proof (induction cs rule: words_of.induct)
  case (2 c cs)
  have "[] \<notin> set (dropWhile (\<lambda>d. \<not> is_whitespace d) cs)"
    using 2(3) by (auto dest: set_dropWhileD)
  with 2 show ?case by auto
qed simp

section \<open>Searching and splitting strings\<close>

text \<open>\<open>str::split\<close> on a one-byte character: always one piece more than there are separators.\<close>

fun split_on :: "char \<Rightarrow> string \<Rightarrow> string list" where
  "split_on c [] = [[]]"
| "split_on c (x # xs) =
    (if x = c then [] # split_on c xs
     else (case split_on c xs of [] \<Rightarrow> [[x]] | p # ps \<Rightarrow> (x # p) # ps))"

lemma split_on_not_Nil [simp]: "split_on c s \<noteq> []"
  by (induction s) (auto split: list.splits)

lemma split_on_pieces: "p \<in> set (split_on c s) \<Longrightarrow> c \<notin> set p"
proof (induction s arbitrary: p)
  case (Cons x xs)
  show ?case
  proof (cases "split_on c xs")
    case Nil
    then show ?thesis by simp
  next
    case (Cons q qs)
    then have "c \<notin> set q" and "\<And>r. r \<in> set qs \<Longrightarrow> c \<notin> set r"
      using Cons.IH by auto
    with Cons.prems Cons show ?thesis by (auto split: if_splits)
  qed
qed simp

fun join_with :: "string \<Rightarrow> string list \<Rightarrow> string" where
  "join_with sep [] = []"
| "join_with sep [p] = p"
| "join_with sep (p # q # ps) = p @ sep @ join_with sep (q # ps)"

lemma join_with_Cons: "ps \<noteq> [] \<Longrightarrow> join_with sep (p # ps) = p @ sep @ join_with sep ps"
  by (cases ps) simp_all

lemma join_split_on: "join_with [c] (split_on c s) = s"
proof (induction s)
  case (Cons x xs)
  then show ?case
    by (cases "split_on c xs")
       (auto simp: join_with_Cons, metis join_with.simps(2,3) append_Cons neq_Nil_conv)
qed simp

fun strip_prefix :: "string \<Rightarrow> string \<Rightarrow> string option" where
  "strip_prefix [] s = Some s"
| "strip_prefix (p # ps) [] = None"
| "strip_prefix (p # ps) (x # xs) = (if p = x then strip_prefix ps xs else None)"

lemma strip_prefix_iff: "strip_prefix p s = Some r \<longleftrightarrow> s = p @ r"
  by (induction p s rule: strip_prefix.induct) auto

definition strip_suffix :: "string \<Rightarrow> string \<Rightarrow> string option" where
  "strip_suffix p s = map_option rev (strip_prefix (rev p) (rev s))"

lemma strip_suffix_iff: "strip_suffix p s = Some r \<longleftrightarrow> s = r @ p"
  unfolding strip_suffix_def
  by (auto simp: strip_prefix_iff rev_eq_append_conv) (metis rev_append rev_rev_ident)

definition starts_with :: "string \<Rightarrow> string \<Rightarrow> bool" where
  "starts_with p s = (strip_prefix p s \<noteq> None)"

lemma starts_with_iff: "starts_with p s \<longleftrightarrow> (\<exists>r. s = p @ r)"
  unfolding starts_with_def by (auto simp: strip_prefix_iff)

text \<open>\<open>str::find\<close> with a string pattern: the byte offset of the first occurrence.\<close>

fun find_str :: "string \<Rightarrow> string \<Rightarrow> nat option" where
  "find_str pat [] = (if pat = [] then Some 0 else None)"
| "find_str pat (x # xs) =
    (if starts_with pat (x # xs) then Some 0 else map_option Suc (find_str pat xs))"

definition contains_str :: "string \<Rightarrow> string \<Rightarrow> bool" where
  "contains_str pat s = (find_str pat s \<noteq> None)"

lemma find_str_Some:
  "find_str pat s = Some i \<Longrightarrow> i + length pat \<le> length s \<and> take (length pat) (drop i s) = pat"
proof (induction s arbitrary: i)
  case (Cons x xs)
  then show ?case
  proof (cases "starts_with pat (x # xs)")
    case True
    then obtain r where "x # xs = pat @ r" by (auto simp: starts_with_iff)
    moreover have "i = 0" using Cons.prems True by simp
    ultimately show ?thesis
      by (metis add_0 append_eq_conv_conj drop0 le_add1 length_append)
  next
    case False
    with Cons.prems obtain j where "find_str pat xs = Some j" "i = Suc j"
      by auto
    with Cons.IH show ?thesis by simp
  qed
qed (simp split: if_splits)

definition split_once :: "string \<Rightarrow> string \<Rightarrow> (string \<times> string) option" where
  "split_once pat s = (case find_str pat s of
     None \<Rightarrow> None
   | Some i \<Rightarrow> Some (take i s, drop (i + length pat) s))"

lemma split_once_Some: "split_once pat s = Some (a, b) \<Longrightarrow> s = a @ pat @ b"
proof -
  assume "split_once pat s = Some (a, b)"
  then obtain i where i: "find_str pat s = Some i" and ab: "a = take i s" "b = drop (i + length pat) s"
    by (auto simp: split_once_def split: option.splits)
  have "drop i s = take (length pat) (drop i s) @ drop (length pat) (drop i s)"
    by (rule append_take_drop_id [symmetric])
  also have "\<dots> = pat @ b"
    using find_str_Some [OF i] ab by (simp add: add.commute)
  finally show ?thesis
    using ab by (metis append_take_drop_id)
qed

definition is_ascii_lower :: "char \<Rightarrow> bool" where
  "is_ascii_lower c = (97 \<le> (of_char c :: nat) \<and> (of_char c :: nat) \<le> 122)"

definition is_ascii_upper :: "char \<Rightarrow> bool" where
  "is_ascii_upper c = (65 \<le> (of_char c :: nat) \<and> (of_char c :: nat) \<le> 90)"

definition is_ascii_digit :: "char \<Rightarrow> bool" where
  "is_ascii_digit c = (48 \<le> (of_char c :: nat) \<and> (of_char c :: nat) \<le> 57)"

definition is_ascii_alnum :: "char \<Rightarrow> bool" where
  "is_ascii_alnum c = (is_ascii_lower c \<or> is_ascii_upper c \<or> is_ascii_digit c)"

definition to_ascii_lower :: "string \<Rightarrow> string" where
  "to_ascii_lower s = map (\<lambda>c. if is_ascii_upper c then char_of ((of_char c :: nat) + 32) else c) s"

section \<open>Decimal numbers\<close>

definition digit_char :: "nat \<Rightarrow> char" where
  "digit_char d = char_of (48 + d)"

definition digit_value :: "char \<Rightarrow> nat" where
  "digit_value c = (of_char c :: nat) - 48"

fun show_nat :: "nat \<Rightarrow> string" where
  "show_nat n = (if n < 10 then [digit_char n] else show_nat (n div 10) @ [digit_char (n mod 10)])"

declare show_nat.simps [simp del]

definition read_digits :: "string \<Rightarrow> nat" where
  "read_digits s = foldl (\<lambda>acc c. acc * 10 + digit_value c) 0 s"

lemma digit_char_value [simp]: "d < 10 \<Longrightarrow> digit_value (digit_char d) = d"
  by (simp add: digit_char_def digit_value_def)

lemma digit_char_digit [simp]: "d < 10 \<Longrightarrow> is_ascii_digit (digit_char d)"
  by (simp add: digit_char_def is_ascii_digit_def)

lemma read_digits_snoc [simp]: "read_digits (s @ [c]) = read_digits s * 10 + digit_value c"
  by (simp add: read_digits_def)

lemma read_show_nat [simp]: "read_digits (show_nat n) = n"
proof (induction n rule: show_nat.induct)
  case (1 n)
  show ?case
  proof (cases "n < 10")
    case True
    then show ?thesis
      by (subst show_nat.simps) (simp add: read_digits_def)
  next
    case False
    with 1 show ?thesis
      by (subst show_nat.simps) simp
  qed
qed

lemma show_nat_inject [simp]: "show_nat m = show_nat n \<longleftrightarrow> m = n"
  by (metis read_show_nat)

lemma show_nat_digits: "list_all is_ascii_digit (show_nat n)"
proof (induction n rule: show_nat.induct)
  case (1 n)
  then show ?case
    by (cases "n < 10") (subst show_nat.simps, simp)+
qed

lemma show_nat_not_Nil [simp]: "show_nat n \<noteq> []"
  by (subst show_nat.simps) simp

text \<open>\<open>str::parse::<u64>\<close>: an optional plus sign, then digits, refused on overflow.\<close>

definition parse_u64 :: "string \<Rightarrow> u64 option" where
  "parse_u64 s =
    (let ds = (case s of c # cs \<Rightarrow> if c = CHR ''+'' then cs else s | [] \<Rightarrow> s) in
     if ds = [] \<or> \<not> list_all is_ascii_digit ds \<or> read_digits ds \<ge> 2 ^ 64 then None
     else Some (of_nat (read_digits ds)))"

lemma parse_show_u64: "parse_u64 (show_nat (unat n)) = Some n"
proof -
  obtain c cs where s: "show_nat (unat n) = c # cs"
    using show_nat_not_Nil neq_Nil_conv by metis
  then have "is_ascii_digit c"
    using show_nat_digits [of "unat n"] by simp
  then have "c \<noteq> CHR ''+''"
    by (auto simp: is_ascii_digit_def)
  moreover have "read_digits (c # cs) = unat n"
    using s read_show_nat by metis
  moreover have "list_all is_ascii_digit (c # cs)"
    using s show_nat_digits by metis
  moreover have "unat n < 2 ^ 64"
    by (rule unat_u64_less)
  ultimately show ?thesis
    by (simp add: parse_u64_def s Let_def)
qed

section \<open>Lists and options\<close>

text \<open>The length of the longest common prefix: \<open>zip\<close>, \<open>take_while\<close> on equality, \<open>count\<close>.\<close>

fun common_prefix :: "'a list \<Rightarrow> 'a list \<Rightarrow> nat" where
  "common_prefix (x # xs) (y # ys) = (if x = y then Suc (common_prefix xs ys) else 0)"
| "common_prefix _ _ = 0"

lemma common_prefix_le: "common_prefix xs ys \<le> length xs" "common_prefix xs ys \<le> length ys"
  by (induction xs ys rule: common_prefix.induct) auto

lemma common_prefix_take: "take (common_prefix xs ys) xs = take (common_prefix xs ys) ys"
  by (induction xs ys rule: common_prefix.induct) auto

lemma common_prefix_stop:
  "common_prefix xs ys < length xs \<Longrightarrow> common_prefix xs ys < length ys \<Longrightarrow>
   xs ! common_prefix xs ys \<noteq> ys ! common_prefix xs ys"
  by (induction xs ys rule: common_prefix.induct) auto

lemma common_prefix_greatest:
  "take n xs = take n ys \<Longrightarrow> n \<le> length xs \<Longrightarrow> n \<le> length ys \<Longrightarrow> n \<le> common_prefix xs ys"
proof (induction xs ys arbitrary: n rule: common_prefix.induct)
  case (1 x xs y ys)
  then show ?case by (cases n) auto
qed auto

lemma common_prefix_append [simp]:
  "common_prefix (zs @ xs) (zs @ ys) = length zs + common_prefix xs ys"
  by (induction zs) simp_all

lemma common_prefix_takes:
  "common_prefix (take a xs) (take b ys) = min (min a b) (common_prefix xs ys)"
proof (induction xs ys arbitrary: a b rule: common_prefix.induct)
  case (1 x xs y ys)
  then show ?case by (cases a; cases b) auto
qed auto

fun filter_map :: "('a \<Rightarrow> 'b option) \<Rightarrow> 'a list \<Rightarrow> 'b list" where
  "filter_map f [] = []"
| "filter_map f (x # xs) = (case f x of None \<Rightarrow> filter_map f xs | Some y \<Rightarrow> y # filter_map f xs)"

lemma filter_map_cong [fundef_cong]:
  "xs = ys \<Longrightarrow> (\<And>x. x \<in> set ys \<Longrightarrow> f x = g x) \<Longrightarrow> filter_map f xs = filter_map g ys"
proof (induction ys arbitrary: xs)
  case (Cons y ys)
  then have "filter_map f ys = filter_map g ys" by auto
  with Cons.prems show ?case by (auto split: option.splits)
qed simp

lemma set_filter_map: "set (filter_map f xs) = {y. \<exists>x\<in>set xs. f x = Some y}"
  by (induction xs) (auto split: option.splits)

lemma length_filter_map_le: "length (filter_map f xs) \<le> length xs"
  by (induction xs) (auto split: option.splits)

lemma filter_map_append [simp]: "filter_map f (xs @ ys) = filter_map f xs @ filter_map f ys"
  by (induction xs) (auto split: option.splits)

text \<open>\<open>Vec::dedup\<close>: drop every element equal to the one before it.\<close>

fun dedup :: "'a list \<Rightarrow> 'a list" where
  "dedup [] = []"
| "dedup [x] = [x]"
| "dedup (x # y # xs) = (if x = y then dedup (y # xs) else x # dedup (y # xs))"

lemma set_dedup [simp]: "set (dedup xs) = set xs"
  by (induction xs rule: dedup.induct) auto

lemma sorted_distinct_dedup:
  "sorted xs \<Longrightarrow> sorted (dedup xs) \<and> distinct (dedup (xs :: 'a :: linorder list))"
proof (induction xs rule: dedup.induct)
  case (3 x y xs)
  then have IH: "sorted (dedup (y # xs))" "distinct (dedup (y # xs))"
    by (auto split: if_splits)
  show ?case
  proof (cases "x = y")
    case True
    with IH show ?thesis by simp
  next
    case False
    with 3(3) have "\<forall>z\<in>set (y # xs). x \<le> z" "x \<notin> set (y # xs)"
      by auto
    with False IH show ?thesis by simp
  qed
qed auto

definition or_else :: "'a option \<Rightarrow> 'a option \<Rightarrow> 'a option" where
  "or_else a b = (case a of None \<Rightarrow> b | Some _ \<Rightarrow> a)"

definition filter_opt :: "('a \<Rightarrow> bool) \<Rightarrow> 'a option \<Rightarrow> 'a option" where
  "filter_opt p a = (case a of None \<Rightarrow> None | Some x \<Rightarrow> if p x then Some x else None)"

definition unwrap_or :: "'a \<Rightarrow> 'a option \<Rightarrow> 'a" where
  "unwrap_or d a = (case a of None \<Rightarrow> d | Some x \<Rightarrow> x)"

definition some_and :: "('a \<Rightarrow> bool) \<Rightarrow> 'a option \<Rightarrow> bool" where
  "some_and p a = (case a of None \<Rightarrow> False | Some x \<Rightarrow> p x)"

definition is_ok :: "'e + 'a \<Rightarrow> bool" where
  "is_ok r = (case r of Inl _ \<Rightarrow> False | Inr _ \<Rightarrow> True)"

lemma is_ok_simps [simp]: "is_ok (Inl e) = False" "is_ok (Inr x) = True"
  by (simp_all add: is_ok_def)

lemma or_else_simps [simp]: "or_else None b = b" "or_else (Some x) b = Some x"
  by (simp_all add: or_else_def)

lemma filter_opt_simps [simp]:
  "filter_opt p None = None" "filter_opt p (Some x) = (if p x then Some x else None)"
  by (simp_all add: filter_opt_def)

lemma unwrap_or_simps [simp]: "unwrap_or d None = d" "unwrap_or d (Some x) = x"
  by (simp_all add: unwrap_or_def)

lemma some_and_simps [simp]: "some_and p None = False" "some_and p (Some x) = p x"
  by (simp_all add: some_and_def)

lemma filter_opt_Some_iff: "filter_opt p a = Some x \<longleftrightarrow> a = Some x \<and> p x"
  by (cases a) auto

section \<open>Strings of ASCII characters\<close>

definition is_ascii :: "char \<Rightarrow> bool" where
  "is_ascii c = ((of_char c :: nat) < 128)"

lemma ascii_not_cont: "is_ascii c \<Longrightarrow> \<not> is_cont c"
  by (simp add: is_ascii_def is_cont_def)

lemma utf8_chars_ascii_append:
  assumes "list_all is_ascii v" and "rest = [] \<or> \<not> is_cont (hd rest)"
  shows "utf8_chars (v @ rest) = map (\<lambda>c. [c]) v @ utf8_chars rest"
  using assms
proof (induction v)
  case (Cons c cs)
  have "takeWhile is_cont (cs @ rest) = []" "dropWhile is_cont (cs @ rest) = cs @ rest"
  proof -
    have "cs @ rest = [] \<or> \<not> is_cont (hd (cs @ rest))"
      using Cons.prems by (cases cs) (auto dest: ascii_not_cont)
    then show "takeWhile is_cont (cs @ rest) = []" "dropWhile is_cont (cs @ rest) = cs @ rest"
      by (cases "cs @ rest"; simp)+
  qed
  with Cons show ?case by simp
qed simp

lemma concat_singletons [simp]: "concat (map (\<lambda>c. [c]) v) = v"
  by (induction v) simp_all

lemma find_str_char: "c \<notin> set a \<Longrightarrow> find_str [c] (a @ c # b) = Some (length a)"
  by (induction a) (auto simp: starts_with_def)

lemma find_str_char_None: "c \<notin> set a \<Longrightarrow> find_str [c] a = None"
  by (induction a) (auto simp: starts_with_def)

lemma split_once_char: "c \<notin> set a \<Longrightarrow> split_once [c] (a @ c # b) = Some (a, b)"
  by (simp add: split_once_def find_str_char)

lemma split_on_char: "c \<notin> set a \<Longrightarrow> split_on c (a @ c # b) = a # split_on c b"
  by (induction a) auto

lemma split_on_none: "c \<notin> set a \<Longrightarrow> split_on c a = [a]"
  by (induction a) auto

lemma show_nat_is_digit: "c \<in> set (show_nat n) \<Longrightarrow> is_ascii_digit c"
  using show_nat_digits [of n] by (simp add: list_all_iff)

lemma digit_facts:
  "is_ascii_digit c \<Longrightarrow> is_ascii c" "is_ascii_digit c \<Longrightarrow> \<not> is_whitespace [c]"
  "is_ascii_digit c \<Longrightarrow> is_ascii_alnum c"
  by (auto simp: is_ascii_digit_def is_ascii_def is_ascii_alnum_def)

end
