(* ===== verification/Json.thy ===== *)
theory Json
  imports Prelude
begin

text \<open>
  The values of \<open>serde_json\<close> that the broker exchanges, as the code uses them.

  \<open>serde_json::Value\<close> is a documented public enum; its constructors are those of the datatype
  below.  A number is an unsigned 64-bit integer, a negative signed 64-bit integer or a double,
  the double kept as its bit pattern because the code never looks inside one.  An object is the
  crate's default map, a \<open>BTreeMap\<close>: the association list is kept in ascending order of the keys
  with no key twice, which \<open>obj_insert\<close> maintains and \<open>wf_json\<close> states.  Reading (\<open>Value::get\<close>,
  indexing with a missing key, \<open>as_str\<close>, ...) and building (\<open>json!\<close>) follow the crate's
  documentation.  Text encoding and decoding belong to the crate and are parameters elsewhere.

  The last section is what \<open>#[derive(Deserialize)]\<close> with \<open>deny_unknown_fields\<close> does on such a
  value, so that each parameter struct of the code becomes one short parsing function.
\<close>

datatype jnumber = PosInt u64 | NegInt u64 | Float u64

datatype json =
    JNull
  | JBool bool
  | JNum jnumber
  | JString string
  | JArray "json list"
  | JObject "(string \<times> json) list"

section \<open>Objects as ordered maps\<close>

fun obj_insert :: "string \<Rightarrow> 'v \<Rightarrow> (string \<times> 'v) list \<Rightarrow> (string \<times> 'v) list" where
  "obj_insert k v [] = [(k, v)]"
| "obj_insert k v ((k', v') # m) =
    (if k = k' then (k, v) # m
     else if k < k' then (k, v) # (k', v') # m
     else (k', v') # obj_insert k v m)"

definition obj_of :: "(string \<times> 'v) list \<Rightarrow> (string \<times> 'v) list" where
  "obj_of kvs = foldl (\<lambda>m (k, v). obj_insert k v m) [] kvs"

text \<open>The macro \<open>json!({ ... })\<close> inserts its fields one after the other.\<close>

definition jobj :: "(string \<times> json) list \<Rightarrow> json" where
  "jobj kvs = JObject (obj_of kvs)"

definition obj_wf :: "(string \<times> 'v) list \<Rightarrow> bool" where
  "obj_wf m = sorted_wrt (<) (map fst m)"

lemma map_of_obj_insert [simp]: "map_of (obj_insert k v m) = (map_of m)(k \<mapsto> v)"
  by (induction k v m rule: obj_insert.induct) (auto simp: fun_eq_iff)

lemma set_fst_obj_insert [simp]: "fst ` set (obj_insert k v m) = insert k (fst ` set m)"
  by (induction k v m rule: obj_insert.induct) auto

lemma obj_wf_insert: "obj_wf m \<Longrightarrow> obj_wf (obj_insert k v m)"
proof (induction k v m rule: obj_insert.induct)
  case (2 k v k' v' m)
  have tail: "\<forall>x\<in>fst ` set m. k' < x" and wf: "obj_wf m"
    using 2(2) by (auto simp: obj_wf_def)
  show ?case
  proof (cases "k = k' \<or> k < k'")
    case True
    with tail wf show ?thesis
      by (auto simp: obj_wf_def) (metis order.strict_trans)?
  next
    case False
    then have "k' < k" by auto
    moreover have "obj_wf (obj_insert k v m)"
      using 2 False wf by auto
    ultimately show ?thesis
      using False tail by (simp add: obj_wf_def)
  qed
qed (simp add: obj_wf_def)

lemma foldl_obj_insert_map_of:
  "map_of (foldl (\<lambda>m (k, v). obj_insert k v m) m0 kvs) = map_of m0 ++ map_of (rev kvs)"
  by (induction kvs arbitrary: m0) (auto simp: map_add_def fun_eq_iff split: option.splits)

lemma map_of_obj_of: "map_of (obj_of kvs) = map_of (rev kvs)"
  by (simp add: obj_of_def foldl_obj_insert_map_of)

lemma obj_wf_obj_of: "obj_wf (obj_of kvs)"
proof -
  have "obj_wf m \<Longrightarrow> obj_wf (foldl (\<lambda>m (k, v). obj_insert k v m) m kvs)" for m :: "(string \<times> 'a) list"
    by (induction kvs arbitrary: m) (auto intro: obj_wf_insert)
  then show ?thesis
    by (simp add: obj_of_def obj_wf_def)
qed

lemma obj_wf_distinct: "obj_wf m \<Longrightarrow> distinct (map fst m)"
  by (simp add: obj_wf_def strict_sorted_iff)

section \<open>Reading a value\<close>

fun jget :: "string \<Rightarrow> json \<Rightarrow> json option" where
  "jget k (JObject m) = map_of m k"
| "jget k _ = None"

text \<open>Indexing \<open>value["key"]\<close> gives null where the key, or the object, is missing.\<close>

definition jindex :: "json \<Rightarrow> string \<Rightarrow> json" where
  "jindex v k = unwrap_or JNull (jget k v)"

fun as_str :: "json \<Rightarrow> string option" where
  "as_str (JString s) = Some s"
| "as_str _ = None"

fun as_bool :: "json \<Rightarrow> bool option" where
  "as_bool (JBool b) = Some b"
| "as_bool _ = None"

fun as_array :: "json \<Rightarrow> json list option" where
  "as_array (JArray xs) = Some xs"
| "as_array _ = None"

fun as_object :: "json \<Rightarrow> (string \<times> json) list option" where
  "as_object (JObject m) = Some m"
| "as_object _ = None"

fun as_u64 :: "json \<Rightarrow> u64 option" where
  "as_u64 (JNum (PosInt n)) = Some n"
| "as_u64 _ = None"

fun as_i64 :: "json \<Rightarrow> int option" where
  "as_i64 (JNum (PosInt n)) = (if unat n < 2 ^ 63 then Some (int (unat n)) else None)"
| "as_i64 (JNum (NegInt n)) = Some (sint n)"
| "as_i64 _ = None"

definition is_object :: "json \<Rightarrow> bool" where
  "is_object v = (as_object v \<noteq> None)"

definition is_array :: "json \<Rightarrow> bool" where
  "is_array v = (as_array v \<noteq> None)"

definition is_string :: "json \<Rightarrow> bool" where
  "is_string v = (as_str v \<noteq> None)"

definition get_str :: "string \<Rightarrow> json \<Rightarrow> string option" where
  "get_str k v = Option.bind (jget k v) as_str"

lemma jobj_not_leaf [simp]:
  "jobj kvs \<noteq> JString s" "jobj kvs \<noteq> JNull" "jobj kvs \<noteq> JBool b" "jobj kvs \<noteq> JArray xs"
  by (simp_all add: jobj_def)

lemma is_object_jobj [simp]: "is_object (jobj kvs)"
  by (simp add: is_object_def jobj_def)

lemma jget_jobj: "jget k (jobj kvs) = map_of (rev kvs) k"
  by (simp add: jobj_def map_of_obj_of)

lemma jget_Some_JObject: "jget k v = Some w \<Longrightarrow> \<exists>m. v = JObject m \<and> map_of m k = Some w"
  by (cases v) auto

lemma as_str_Some [simp]: "as_str v = Some s \<longleftrightarrow> v = JString s"
  by (cases v) auto

lemma as_array_Some [simp]: "as_array v = Some s \<longleftrightarrow> v = JArray s"
  by (cases v) auto

lemma as_bool_Some [simp]: "as_bool v = Some b \<longleftrightarrow> v = JBool b"
  by (cases v) auto

lemma as_object_Some [simp]: "as_object v = Some s \<longleftrightarrow> v = JObject s"
  by (cases v) auto

section \<open>Building values\<close>

definition jnat :: "nat \<Rightarrow> json" where
  "jnat n = JNum (PosInt (of_nat n))"

definition ju64 :: "u64 \<Rightarrow> json" where
  "ju64 n = JNum (PosInt n)"

definition jint :: "int \<Rightarrow> json" where
  "jint i = (if i < 0 then JNum (NegInt (of_int i)) else JNum (PosInt (of_int i)))"

definition jopt :: "('a \<Rightarrow> json) \<Rightarrow> 'a option \<Rightarrow> json" where
  "jopt f a = (case a of None \<Rightarrow> JNull | Some x \<Rightarrow> f x)"

lemma jopt_simps [simp]: "jopt f None = JNull" "jopt f (Some x) = f x"
  by (simp_all add: jopt_def)

section \<open>Well-formed values\<close>

text \<open>Every object, at any depth, has its keys in strictly ascending order.\<close>

fun wf_json :: "json \<Rightarrow> bool" where
  "wf_json (JArray xs) = (\<forall>x\<in>set xs. wf_json x)"
| "wf_json (JObject m) = (obj_wf m \<and> (\<forall>kv\<in>set m. wf_json (snd kv)))"
| "wf_json _ = True"

lemma wf_json_jget: "wf_json v \<Longrightarrow> jget k v = Some w \<Longrightarrow> wf_json w"
  by (cases v) (fastforce dest: map_of_SomeD)+

lemma set_obj_insert_subset: "set (obj_insert k v m) \<subseteq> insert (k, v) (set m)"
  by (induction k v m rule: obj_insert.induct) auto

lemma set_foldl_obj_insert:
  "set (foldl (\<lambda>m (k, v). obj_insert k v m) m0 kvs) \<subseteq> set m0 \<union> set kvs"
proof (induction kvs arbitrary: m0)
  case (Cons kv kvs)
  obtain k v where kv: "kv = (k, v)" by (cases kv)
  have "set (foldl (\<lambda>m (k, v). obj_insert k v m) (obj_insert k v m0) kvs)
      \<subseteq> set (obj_insert k v m0) \<union> set kvs"
    by (rule Cons.IH)
  then show ?case
    using set_obj_insert_subset [of k v m0] by (auto simp: kv)
qed simp

lemma wf_json_jobj: "(\<And>k v. (k, v) \<in> set kvs \<Longrightarrow> wf_json v) \<Longrightarrow> wf_json (jobj kvs)"
  using set_foldl_obj_insert [of "[]" kvs] obj_wf_obj_of [of kvs]
  by (fastforce simp: jobj_def obj_of_def)

section \<open>Derived deserialisation\<close>

text \<open>
  \<open>serde_json::from_value\<close> into a struct with \<open>deny_unknown_fields\<close>: an object is read by field
  name and may hold no other key; an array is read by position and may not be longer than the
  fields (the visitor that \<open>derive\<close> writes accepts both).  The result lists the raw field values
  in declaration order, \<open>None\<close> where the input has none.
\<close>

definition struct_fields :: "string list \<Rightarrow> json \<Rightarrow> json option list option" where
  "struct_fields names v = (case v of
     JObject m \<Rightarrow>
       if list_all (\<lambda>kv. fst kv \<in> set names) m then Some (map (map_of m) names) else None
   | JArray xs \<Rightarrow>
       if length xs \<le> length names
       then Some (map Some xs @ replicate (length names - length xs) None) else None
   | _ \<Rightarrow> None)"

lemma struct_fields_length: "struct_fields names v = Some fs \<Longrightarrow> length fs = length names"
  by (auto simp: struct_fields_def split: json.splits if_splits)

text \<open>A field without \<open>default\<close> must be present; one with \<open>default\<close> may be missing.\<close>

definition req_field :: "(json \<Rightarrow> 'a option) \<Rightarrow> json option \<Rightarrow> 'a option" where
  "req_field p f = Option.bind f p"

definition def_field :: "'a \<Rightarrow> (json \<Rightarrow> 'a option) \<Rightarrow> json option \<Rightarrow> 'a option" where
  "def_field d p f = (case f of None \<Rightarrow> Some d | Some v \<Rightarrow> p v)"

definition of_option :: "(json \<Rightarrow> 'a option) \<Rightarrow> json \<Rightarrow> 'a option option" where
  "of_option p v = (if v = JNull then Some None else map_option Some (p v))"

definition opt_field :: "(json \<Rightarrow> 'a option) \<Rightarrow> json option \<Rightarrow> 'a option option" where
  "opt_field p f = def_field None (of_option p) f"

definition of_u32 :: "json \<Rightarrow> u32 option" where
  "of_u32 v = (case v of JNum (PosInt n) \<Rightarrow> if unat n < 2 ^ 32 then Some (ucast n) else None
                       | _ \<Rightarrow> None)"

text \<open>A unit-variant enum: the variant's name, or an object mapping only that name to null.\<close>

definition of_enum :: "(string \<rightharpoonup> 'a) \<Rightarrow> json \<Rightarrow> 'a option" where
  "of_enum variants v = (case v of
     JString s \<Rightarrow> variants s
   | JObject [(s, JNull)] \<Rightarrow> variants s
   | _ \<Rightarrow> None)"

text \<open>
  A struct without \<open>deny_unknown_fields\<close>: other keys are ignored.  An \<open>Option\<close> field may be missing.
\<close>

definition loose_fields :: "string list \<Rightarrow> json \<Rightarrow> json option list option" where
  "loose_fields names v = (case v of
     JObject m \<Rightarrow> Some (map (map_of m) names)
   | JArray xs \<Rightarrow>
       if length xs \<le> length names
       then Some (map Some xs @ replicate (length names - length xs) None) else None
   | _ \<Rightarrow> None)"

fun of_list :: "(json \<Rightarrow> 'a option) \<Rightarrow> json list \<Rightarrow> 'a list option" where
  "of_list p [] = Some []"
| "of_list p (v # vs) = (case p v of None \<Rightarrow> None | Some x \<Rightarrow> map_option (\<lambda>xs. x # xs) (of_list p vs))"

definition of_array :: "(json \<Rightarrow> 'a option) \<Rightarrow> json \<Rightarrow> 'a list option" where
  "of_array p v = (case v of JArray xs \<Rightarrow> of_list p xs | _ \<Rightarrow> None)"

lemma set_obj_of_keys: "fst ` set (obj_of kvs) = fst ` set kvs"
proof -
  have "fst ` set (foldl (\<lambda>m (k, v). obj_insert k v m) m0 kvs) = fst ` set m0 \<union> fst ` set kvs" for m0
  proof (induction kvs arbitrary: m0)
    case (Cons kv kvs)
    obtain k v where "kv = (k, v)" by (cases kv)
    then show ?case by (simp add: Cons.IH)
  qed simp
  then show ?thesis by (simp add: obj_of_def)
qed

lemma struct_fields_jobj:
  assumes "list_all (\<lambda>kv. fst kv \<in> set names) kvs"
  shows "struct_fields names (jobj kvs) = Some (map (map_of (rev kvs)) names)"
proof -
  have "list_all (\<lambda>kv. fst kv \<in> set names) (obj_of kvs)"
    using assms set_obj_of_keys [of kvs] by (simp add: list_all_iff) (metis image_iff)
  then show ?thesis by (simp add: struct_fields_def jobj_def map_of_obj_of)
qed

lemma loose_fields_jobj: "loose_fields names (jobj kvs) = Some (map (map_of (rev kvs)) names)"
  by (simp add: loose_fields_def jobj_def map_of_obj_of)

lemma of_list_map: "(\<And>x. x \<in> set xs \<Longrightarrow> p (f x) = Some x) \<Longrightarrow> of_list p (map f xs) = Some xs"
  by (induction xs) simp_all

lemma of_u32_ucast: "of_u32 (JNum (PosInt (ucast n))) = Some n"
proof -
  have n: "unat n < 4294967296"
    using unsigned_less [of n] by simp
  then have "unat (ucast n :: u64) = unat n"
    by (simp add: unsigned_ucast_eq take_bit_nat_eq_self)
  moreover have "(ucast (ucast n :: u64) :: u32) = n"
    by transfer simp
  ultimately show ?thesis
    using n by (simp add: of_u32_def)
qed

lemmas field_defs = req_field_def def_field_def of_option_def opt_field_def

end
