(* ===== verification/Protocol.thy ===== *)
theory Protocol
  imports Json
begin

text \<open>
  The public protocol types of \<open>protocol.rs\<close>: identifiers, providers, agent states,
  capabilities, agent summaries and event envelopes, with the JSON form that
  \<open>#[derive(Serialize)]\<close> gives them and, for the types that reach the broker from a client, the
  form that \<open>#[derive(Deserialize)]\<close> reads.
\<close>

datatype RequestId = Integer int | String string

datatype Provider = Codex | Claude

datatype WorkspaceStrategy = Shared | Worktree

record ProviderOptions =
  po_model :: "string option"
  po_effort :: "string option"

record ManagedWorkspace =
  mw_repository :: string
  mw_task_id :: string
  mw_branch :: string
  mw_base_branch :: string

record ProviderRuntime =
  rt_compatibility_profile :: string
  rt_provider_version :: string
  rt_adapter_version :: "string option"
  rt_executable :: "string option"

datatype AgentState =
    Starting | Idle | Running | WaitingInput | WaitingApproval
  | Completed | Interrupted | Failed | Disconnected

datatype CapabilityName =
    Streaming | MultiTurn | History | Resume | Fork | Interrupt | Steer
  | Approvals | Questions | Usage | FileChanges | Diff | Replay

record Capability =
  cap_name :: CapabilityName
  cap_available :: bool
  cap_reason :: "string option"

record AgentSummary =
  as_id :: string
  as_provider :: Provider
  as_provider_session_id :: "string option"
  as_cwd :: string
  as_workspace_strategy :: WorkspaceStrategy
  as_worktree_path :: "string option"
  as_managed_workspace :: "ManagedWorkspace option"
  as_runtime :: "ProviderRuntime option"
  as_provider_options :: ProviderOptions
  as_title :: string
  as_state :: AgentState
  as_active_turn_id :: "string option"
  as_pending_approvals :: u64
  as_unread_events :: u64
  as_capabilities :: "Capability list"
  as_created_at :: string
  as_updated_at :: string

record EventEnvelope =
  ev_protocol_version :: u32
  ev_sequence :: u64
  ev_timestamp :: string
  ev_agent_id :: string
  ev_provider :: Provider
  ev_type :: string
  ev_payload :: json
  ev_provider_event :: json

definition PROTOCOL_VERSION :: u32 where "PROTOCOL_VERSION = 1"

definition PROTOCOL_REVISION :: u32 where "PROTOCOL_REVISION = 2"

definition new_event :: "string \<Rightarrow> string \<Rightarrow> Provider \<Rightarrow> string \<Rightarrow> json \<Rightarrow> json \<Rightarrow> EventEnvelope" where
  "new_event timestamp agent_id provider event_type payload provider_event =
    \<lparr>ev_protocol_version = PROTOCOL_VERSION, ev_sequence = 0, ev_timestamp = timestamp,
     ev_agent_id = agent_id, ev_provider = provider, ev_type = event_type,
     ev_payload = payload, ev_provider_event = provider_event\<rparr>"

lemma new_event_simps [simp]:
  "ev_sequence (new_event t a p ty pl pe) = 0"
  "ev_agent_id (new_event t a p ty pl pe) = a"
  "ev_provider (new_event t a p ty pl pe) = p"
  "ev_type (new_event t a p ty pl pe) = ty"
  "ev_payload (new_event t a p ty pl pe) = pl"
  "ev_provider_event (new_event t a p ty pl pe) = pe"
  by (simp_all add: new_event_def)

section \<open>Serialisation\<close>

fun show_provider :: "Provider \<Rightarrow> string" where
  "show_provider Codex = ''codex''"
| "show_provider Claude = ''claude''"

fun json_of_request_id :: "RequestId \<Rightarrow> json" where
  "json_of_request_id (Integer i) = jint i"
| "json_of_request_id (String s) = JString s"

fun json_of_strategy :: "WorkspaceStrategy \<Rightarrow> json" where
  "json_of_strategy Shared = JString ''shared''"
| "json_of_strategy Worktree = JString ''worktree''"

definition json_of_provider :: "Provider \<Rightarrow> json" where
  "json_of_provider p = JString (show_provider p)"

definition json_of_options :: "ProviderOptions \<Rightarrow> json" where
  "json_of_options o' = jobj [(''model'', jopt JString (po_model o')), (''effort'', jopt JString (po_effort o'))]"

definition json_of_managed :: "ManagedWorkspace \<Rightarrow> json" where
  "json_of_managed w = jobj [
     (''repository'', JString (mw_repository w)), (''task_id'', JString (mw_task_id w)),
     (''branch'', JString (mw_branch w)), (''base_branch'', JString (mw_base_branch w))]"

definition json_of_runtime :: "ProviderRuntime \<Rightarrow> json" where
  "json_of_runtime r = jobj [
     (''compatibility_profile'', JString (rt_compatibility_profile r)),
     (''provider_version'', JString (rt_provider_version r)),
     (''adapter_version'', jopt JString (rt_adapter_version r)),
     (''executable'', jopt JString (rt_executable r))]"

fun state_name :: "AgentState \<Rightarrow> string" where
  "state_name Starting = ''starting''"
| "state_name Idle = ''idle''"
| "state_name Running = ''running''"
| "state_name WaitingInput = ''waiting_input''"
| "state_name WaitingApproval = ''waiting_approval''"
| "state_name Completed = ''completed''"
| "state_name Interrupted = ''interrupted''"
| "state_name Failed = ''failed''"
| "state_name Disconnected = ''disconnected''"

fun capability_label :: "CapabilityName \<Rightarrow> string" where
  "capability_label Streaming = ''streaming''"
| "capability_label MultiTurn = ''multi_turn''"
| "capability_label History = ''history''"
| "capability_label Resume = ''resume''"
| "capability_label Fork = ''fork''"
| "capability_label Interrupt = ''interrupt''"
| "capability_label Steer = ''steer''"
| "capability_label Approvals = ''approvals''"
| "capability_label Questions = ''questions''"
| "capability_label Usage = ''usage''"
| "capability_label FileChanges = ''file_changes''"
| "capability_label Diff = ''diff''"
| "capability_label Replay = ''replay''"

definition json_of_capability :: "Capability \<Rightarrow> json" where
  "json_of_capability c = jobj [
     (''name'', JString (capability_label (cap_name c))), (''available'', JBool (cap_available c)),
     (''reason'', jopt JString (cap_reason c))]"

definition json_of_summary :: "AgentSummary \<Rightarrow> json" where
  "json_of_summary s = jobj [
     (''id'', JString (as_id s)), (''provider'', json_of_provider (as_provider s)),
     (''provider_session_id'', jopt JString (as_provider_session_id s)),
     (''cwd'', JString (as_cwd s)),
     (''workspace_strategy'', json_of_strategy (as_workspace_strategy s)),
     (''worktree_path'', jopt JString (as_worktree_path s)),
     (''managed_workspace'', jopt json_of_managed (as_managed_workspace s)),
     (''runtime'', jopt json_of_runtime (as_runtime s)),
     (''provider_options'', json_of_options (as_provider_options s)),
     (''title'', JString (as_title s)), (''state'', JString (state_name (as_state s))),
     (''active_turn_id'', jopt JString (as_active_turn_id s)),
     (''pending_approvals'', ju64 (as_pending_approvals s)),
     (''unread_events'', ju64 (as_unread_events s)),
     (''capabilities'', JArray (map json_of_capability (as_capabilities s))),
     (''created_at'', JString (as_created_at s)), (''updated_at'', JString (as_updated_at s))]"

definition json_of_event :: "EventEnvelope \<Rightarrow> json" where
  "json_of_event e = jobj [
     (''protocol_version'', JNum (PosInt (ucast (ev_protocol_version e)))),
     (''sequence'', ju64 (ev_sequence e)), (''timestamp'', JString (ev_timestamp e)),
     (''agent_id'', JString (ev_agent_id e)), (''provider'', json_of_provider (ev_provider e)),
     (''type'', JString (ev_type e)), (''payload'', ev_payload e),
     (''provider_event'', ev_provider_event e)]"

section \<open>Deserialisation\<close>

text \<open>\<open>RequestId\<close> is untagged: an integer that fits \<open>i64\<close>, or else a string.\<close>

definition of_request_id :: "json \<Rightarrow> RequestId option" where
  "of_request_id v = (case as_i64 v of Some i \<Rightarrow> Some (Integer i) | None \<Rightarrow> map_option String (as_str v))"

definition of_provider :: "json \<Rightarrow> Provider option" where
  "of_provider = of_enum (map_of [(''codex'', Codex), (''claude'', Claude)])"

definition of_strategy :: "json \<Rightarrow> WorkspaceStrategy option" where
  "of_strategy = of_enum (map_of [(''shared'', Shared), (''worktree'', Worktree)])"

definition of_options :: "json \<Rightarrow> ProviderOptions option" where
  "of_options v = (case struct_fields [''model'', ''effort''] v of
     Some [m, e] \<Rightarrow> (case (opt_field as_str m, opt_field as_str e) of
         (Some m', Some e') \<Rightarrow> Some \<lparr>po_model = m', po_effort = e'\<rparr>
       | _ \<Rightarrow> None)
   | _ \<Rightarrow> None)"

definition default_options :: ProviderOptions where
  "default_options = \<lparr>po_model = None, po_effort = None\<rparr>"

lemma sint_of_int_i64: "- (2 ^ 63) \<le> i \<Longrightarrow> i < 2 ^ 63 \<Longrightarrow> sint (of_int i :: u64) = i"
  by (simp add: signed_of_int signed_take_bit_int_eq_self)

text \<open>Every identifier a client may send is echoed unchanged.\<close>

definition i64_id :: "RequestId \<Rightarrow> bool" where
  "i64_id r = (case r of Integer i \<Rightarrow> - (2 ^ 63) \<le> i \<and> i < 2 ^ 63 | String _ \<Rightarrow> True)"

lemma as_i64_jint: "- (2 ^ 63) \<le> i \<Longrightarrow> i < 2 ^ 63 \<Longrightarrow> as_i64 (jint i) = Some i"
proof (cases "i < 0")
  case False
  assume b: "i < 2 ^ 63"
  have "unat (of_int i :: u64) = nat i"
    using False b by (simp add: unat_eq_nat_uint uint_word_of_int_eq take_bit_int_eq_self)
  then show ?thesis
    using False b by (simp add: jint_def nat_less_iff)
qed (simp add: jint_def sint_of_int_i64)

lemma request_id_roundtrip: "i64_id r \<Longrightarrow> of_request_id (json_of_request_id r) = Some r"
  by (cases r) (auto simp: of_request_id_def i64_id_def as_i64_jint)

lemma as_i64_bounds: "as_i64 v = Some i \<Longrightarrow> - (2 ^ 63) \<le> i \<and> i < 2 ^ 63"
proof (cases "v" rule: as_i64.cases)
  case (1 n)
  moreover assume "as_i64 v = Some i"
  ultimately have "i = int (unat n)" "unat n < 2 ^ 63"
    by (simp_all split: if_splits)
  then have "i = int (unat n)" "int (unat n) < int (2 ^ 63)"
    by (simp_all only: of_nat_less_iff)
  then show ?thesis
    using uint_ge_0 [of n] by (simp add: order_trans [of _ 0])
next
  case (2 n)
  moreover assume "as_i64 v = Some i"
  ultimately have "i = sint n" by simp
  then show ?thesis
    using sint_greater_eq [of n] sint_less [of n] by simp
qed simp_all

lemma of_request_id_i64: "of_request_id v = Some r \<Longrightarrow> i64_id r"
proof -
  assume r: "of_request_id v = Some r"
  show ?thesis
  proof (cases "as_i64 v")
    case None
    with r show ?thesis by (auto simp: of_request_id_def i64_id_def)
  next
    case (Some i)
    have "- (2 ^ 63) \<le> i \<and> i < 2 ^ 63"
      using Some by (rule as_i64_bounds)
    with r Some show ?thesis by (auto simp: of_request_id_def i64_id_def)
  qed
qed

lemma provider_roundtrip: "of_provider (json_of_provider p) = Some p"
  by (cases p) (simp_all add: of_provider_def json_of_provider_def of_enum_def)

end
