(* ===== verification/Framing.thy ===== *)
theory Framing
  imports Prelude
begin

text \<open>
  Bounded newline framing, \<open>framing.rs\<close>.

  The buffered reader is the list of the buffers that \<open>fill_buf\<close> will show, one after the other:
  the head is what is buffered now, an empty buffer (or no buffer at all) is the end of the stream,
  and \<open>consume\<close> drops bytes from the head, a buffer consumed whole being replaced by the next one.
  The loop of the code is the recursion of \<open>read_loop\<close>; \<open>frame\<close> is the accumulated vector.  I/O
  errors are values of the list's elements: \<open>None\<close> is a \<open>fill_buf\<close> that fails.
\<close>

datatype BoundedFrame = Closed | Data string | TooLarge

type_synonym reader = "string option list"

abbreviation newline :: char where
  "newline \<equiv> CHR 0x0A"

text \<open>\<open>available.iter().position(|byte| *byte == b'\n')\<close>.\<close>

fun position :: "char \<Rightarrow> string \<Rightarrow> nat option" where
  "position c [] = None"
| "position c (x # xs) = (if x = c then Some 0 else map_option Suc (position c xs))"

fun read_loop :: "nat \<Rightarrow> string \<Rightarrow> reader \<Rightarrow> (BoundedFrame \<times> reader) option" where
  "read_loop lim frame [] = Some (if frame = [] then Closed else Data frame, [])"
| "read_loop lim frame (None # rest) = None"
| "read_loop lim frame (Some available # rest) =
    (if available = [] then Some (if frame = [] then Closed else Data frame, Some [] # rest)
     else
       (let nl = position newline available;
            payload_bytes = (case nl of None \<Rightarrow> length available | Some p \<Rightarrow> p) in
        if length frame + payload_bytes > lim then Some (TooLarge, Some available # rest)
        else
          (let consumed = (case nl of None \<Rightarrow> length available | Some p \<Rightarrow> Suc p);
               frame' = frame @ take consumed available in
           case nl of
             Some _ \<Rightarrow>
               Some (Data frame',
                 (if consumed = length available then rest else Some (drop consumed available) # rest))
           | None \<Rightarrow> read_loop lim frame' rest)))"

definition read_bounded_line :: "nat \<Rightarrow> reader \<Rightarrow> (BoundedFrame \<times> reader) option" where
  "read_bounded_line lim r = read_loop lim [] r"

section \<open>The stream a reader stands for\<close>

text \<open>The bytes before the first empty buffer, which is where the reader reports the end.\<close>

fun stream :: "reader \<Rightarrow> string" where
  "stream [] = []"
| "stream (None # rest) = []"
| "stream (Some b # rest) = (if b = [] then [] else b @ stream rest)"

definition healthy :: "reader \<Rightarrow> bool" where
  "healthy r = (None \<notin> set r)"

text \<open>What the function promises, said over the bytes alone.\<close>

definition frame_spec :: "nat \<Rightarrow> string \<Rightarrow> BoundedFrame" where
  "frame_spec lim s =
    (if s = [] then Closed
     else case position newline s of
       None \<Rightarrow> if length s > lim then TooLarge else Data s
     | Some p \<Rightarrow> if p > lim then TooLarge else Data (take (Suc p) s))"

definition rest_spec :: "string \<Rightarrow> string" where
  "rest_spec s = (case position newline s of None \<Rightarrow> [] | Some p \<Rightarrow> drop (Suc p) s)"

lemma position_append:
  "position c (xs @ ys) =
    (case position c xs of Some p \<Rightarrow> Some p | None \<Rightarrow> map_option ((+) (length xs)) (position c ys))"
proof (induction xs)
  case Nil
  show ?case by (cases "position c ys") simp_all
next
  case (Cons x xs)
  then show ?case by (cases "position c xs"; cases "position c ys") simp_all
qed

lemma position_less: "position c xs = Some p \<Longrightarrow> p < length xs"
  by (induction xs arbitrary: p) (auto split: if_splits)

lemma position_None: "position c xs = None \<longleftrightarrow> c \<notin> set xs"
  by (induction xs) auto

lemma position_first: "position c xs = Some p \<Longrightarrow> xs ! p = c \<and> c \<notin> set (take p xs)"
  by (induction xs arbitrary: p) (auto split: if_splits)

text \<open>Whatever the buffer boundaries, the loop computes the frame of the bytes seen and to come.\<close>

lemma read_loop_spec:
  assumes "healthy r" and "newline \<notin> set frame" and "length frame \<le> lim"
  shows "\<exists>r'. read_loop lim frame r = Some (frame_spec lim (frame @ stream r), r')
    \<and> healthy r'
    \<and> (frame_spec lim (frame @ stream r) \<noteq> TooLarge \<longrightarrow> stream r' = rest_spec (frame @ stream r))"
  using assms
proof (induction lim frame r rule: read_loop.induct)
  case (1 lim frame)
  then have "position newline frame = None"
    by (simp add: position_None)
  with 1 show ?case
    by (simp add: frame_spec_def rest_spec_def healthy_def)
next
  case (2 lim frame rest)
  then show ?case by (simp add: healthy_def)
next
  case (3 lim frame available rest)
  have nofr: "position newline frame = None"
    using 3(3) by (simp add: position_None)
  show ?case
  proof (cases "available = []")
    case True
    with 3(2-) nofr show ?thesis
      by (simp add: frame_spec_def rest_spec_def healthy_def)
  next
    case ne: False
    show ?thesis
    proof (cases "position newline available")
      case None
      show ?thesis
      proof (cases "length frame + length available > lim")
        case True
        with None ne nofr 3(2) show ?thesis
          by (auto simp: frame_spec_def position_append healthy_def split: option.splits)
      next
        case False
        have "\<exists>r'. read_loop lim (frame @ available) rest
              = Some (frame_spec lim ((frame @ available) @ stream rest), r')
            \<and> healthy r'
            \<and> (frame_spec lim ((frame @ available) @ stream rest) \<noteq> TooLarge \<longrightarrow>
                 stream r' = rest_spec ((frame @ available) @ stream rest))"
        proof -
          have "healthy rest" "newline \<notin> set (frame @ available)"
            "length (frame @ available) \<le> lim"
            using 3(2,3) None False by (auto simp: healthy_def position_None)
          with 3(1) [OF ne refl refl] None False show ?thesis by auto
        qed
        with None ne False show ?thesis by simp
      qed
    next
      case (Some p)
      then have "p < length available" by (rule position_less)
      with Some ne nofr 3(2) show ?thesis
        by (auto simp: frame_spec_def rest_spec_def position_append healthy_def Let_def
            split: option.splits)
    qed
  qed
qed

lemma read_bounded_line_spec:
  "healthy r \<Longrightarrow> \<exists>r'. read_bounded_line lim r = Some (frame_spec lim (stream r), r') \<and> healthy r'
     \<and> (frame_spec lim (stream r) \<noteq> TooLarge \<longrightarrow> stream r' = rest_spec (stream r))"
  using read_loop_spec [of r "[]" lim] by (simp add: read_bounded_line_def)

text \<open>
  C24.  How the operating system cuts the stream into buffers never changes what the broker reads:
  two readers that hold the same bytes give the same frame, and unless the frame is too large they
  leave the same bytes for the next call.
\<close>

theorem framing_chunk_independent:
  assumes "healthy r1" and "healthy r2" and "stream r1 = stream r2"
  shows "\<exists>f r1' r2'. read_bounded_line lim r1 = Some (f, r1') \<and> read_bounded_line lim r2 = Some (f, r2')
    \<and> (f \<noteq> TooLarge \<longrightarrow> stream r1' = stream r2')"
  using read_bounded_line_spec [OF assms(1), of lim] read_bounded_line_spec [OF assms(2), of lim] assms(3)
  by metis

theorem framing_chunk_independent_witness:
  "\<exists>f r1' r2'. read_bounded_line 9 [Some ''ab'', Some [CHR ''c'', newline, CHR ''d'']] = Some (f, r1')
    \<and> read_bounded_line 9 [Some [CHR ''a'', CHR ''b'', CHR ''c'', newline, CHR ''d'']] = Some (f, r2')
    \<and> (f \<noteq> TooLarge \<longrightarrow> stream r1' = stream r2')"
  by (rule framing_chunk_independent) (simp_all add: healthy_def)



text \<open>
  The adapters strip trailing newlines and carriage returns from a frame before they decode it:
  \<open>while matches!(frame.last(), Some(b'\n' | b'\r'))\<close>.
\<close>

definition strip_line_end :: "string \<Rightarrow> string" where
  "strip_line_end d = rev (dropWhile (\<lambda>c. c = newline \<or> c = CHR 0x0D) (rev d))"

section \<open>Progress and errors\<close>

text \<open>Every frame that is delivered was taken from the reader, so loops over frames end.\<close>

definition reader_weight :: "reader \<Rightarrow> nat" where
  "reader_weight r = sum_list (map (\<lambda>b. Suc (length (unwrap_or [] b))) r)"

lemma read_loop_weight:
  "read_loop lim frame r = Some (Data d, r') \<Longrightarrow>
   reader_weight r' < reader_weight r \<or> (frame \<noteq> [] \<and> r' = r)"
proof (induction lim frame r rule: read_loop.induct)
  case (3 lim frame available rest)
  show ?case
  proof (cases "available = []")
    case True
    with 3(2) show ?thesis by (auto split: if_splits)
  next
    case False
    show ?thesis
    proof (cases "position newline available")
      case None
      with False 3 have "read_loop lim (frame @ available) rest = Some (Data d, r')"
        by (auto simp: Let_def split: if_splits)
      with 3(1) [OF False refl refl _ refl refl] None False 3(2) show ?thesis
        by (auto simp: reader_weight_def split: if_splits)
    next
      case (Some p)
      then have "p < length available"
        by (rule position_less)
      with Some False 3(2) show ?thesis
        by (auto simp: reader_weight_def Let_def split: if_splits)
    qed
  qed
qed (auto split: if_splits)

lemma read_bounded_line_weight:
  "read_bounded_line lim r = Some (Data d, r') \<Longrightarrow> reader_weight r' < reader_weight r"
  using read_loop_weight by (fastforce simp: read_bounded_line_def)

text \<open>
  After an I/O error the buffers before the failing one have been consumed by the loop.
\<close>

definition after_error :: "reader \<Rightarrow> reader" where
  "after_error r = tl (dropWhile (\<lambda>b. b \<noteq> None) r)"

text \<open>
  The future of \<open>read_bounded_line\<close> owns the bytes it has consumed.  A caller that drops the
  future while it waits for more input (the losing branch of a \<open>select!\<close>) therefore loses them:
  the reader is left behind the buffers consumed so far and the next call starts mid-frame.
\<close>

definition cancelled_after :: "nat \<Rightarrow> reader \<Rightarrow> reader" where
  "cancelled_after polled r = drop polled r"

lemma cancelled_read_loses_prefix:
  assumes "position newline a = None" and "a \<noteq> []" and "b \<noteq> []" and "position newline b = None"
    and "length a + length b \<le> lim"
  shows "read_bounded_line lim [Some a, Some (b @ [newline])] = Some (Data (a @ b @ [newline]), [])"
    and "read_bounded_line lim (cancelled_after 1 [Some a, Some (b @ [newline])])
      = Some (Data (b @ [newline]), [])"
  using assms by (simp_all add: read_bounded_line_def cancelled_after_def position_append)

end
