(* ===== verification/ReplayLog.thy ===== *)
theory ReplayLog
  imports Protocol
begin

text \<open>
  The bounded replay of public events, \<open>replay.rs\<close>.

  The buffer is a record with the code's three fields, the deque a list.  A panic of the code
  (\<open>assert!\<close>, \<open>expect\<close>) is the result \<open>None\<close>.  The abstract state is the history: the list of
  every event ever pushed, with the sequence number it was given; \<open>rb_history\<close> relates the two.
  The locale \<open>event_log\<close> is what the broker relies on: events are numbered consecutively, and a
  replay is the exact missing suffix of the history or an honest refusal.
\<close>

record ReplayBuffer =
  rb_capacity :: nat
  rb_next_sequence :: u64
  rb_events :: "EventEnvelope list"

datatype ReplayResult = Events "EventEnvelope list" | ResyncRequired u64 u64

definition rb_new :: "nat \<Rightarrow> ReplayBuffer option" where
  "rb_new capacity =
    (if capacity > 0 then Some \<lparr>rb_capacity = capacity, rb_next_sequence = 1, rb_events = []\<rparr>
     else None)"

definition rb_push :: "ReplayBuffer \<Rightarrow> EventEnvelope \<Rightarrow> (u64 \<times> ReplayBuffer) option" where
  "rb_push b event =
    (let seqno = rb_next_sequence b in
     case checked_add1 (rb_next_sequence b) of
       None \<Rightarrow> None
     | Some nxt \<Rightarrow>
         (let events = rb_events b @ [event\<lparr>ev_sequence := seqno\<rparr>] in
          Some (seqno,
            b\<lparr>rb_next_sequence := nxt,
              rb_events := (if length events > rb_capacity b then tl events else events)\<rparr>)))"

definition rb_bounds :: "ReplayBuffer \<Rightarrow> (u64 \<times> u64) option" where
  "rb_bounds b = (case rb_events b of
     [] \<Rightarrow> None
   | e # es \<Rightarrow> Some (ev_sequence e, ev_sequence (last (e # es))))"

definition rb_replay_after :: "ReplayBuffer \<Rightarrow> u64 \<Rightarrow> ReplayResult" where
  "rb_replay_after b after_sequence = (case rb_bounds b of
     None \<Rightarrow> Events []
   | Some (oldest, latest) \<Rightarrow>
       if saturating_add1 after_sequence < oldest then ResyncRequired oldest latest
       else Events (filter (\<lambda>event. ev_sequence event > after_sequence) (rb_events b)))"

fun rb_push_all :: "ReplayBuffer \<Rightarrow> EventEnvelope list \<Rightarrow> ReplayBuffer option" where
  "rb_push_all b [] = Some b"
| "rb_push_all b (e # es) = (case rb_push b e of None \<Rightarrow> None | Some (_, b') \<Rightarrow> rb_push_all b' es)"

section \<open>The history a buffer stands for\<close>

definition numbered :: "EventEnvelope list \<Rightarrow> bool" where
  "numbered log = (\<forall>i < length log. unat (ev_sequence (log ! i)) = Suc i)"

definition rb_history :: "ReplayBuffer \<Rightarrow> EventEnvelope list \<Rightarrow> bool" where
  "rb_history b log =
    (rb_capacity b > 0 \<and> numbered log \<and> unat (rb_next_sequence b) = Suc (length log)
     \<and> rb_events b = drop (length log - rb_capacity b) log)"

lemma rb_history_new: "rb_new n = Some b \<Longrightarrow> rb_history b []"
  by (auto simp: rb_new_def rb_history_def numbered_def split: if_splits)

lemma numbered_snoc:
  "numbered log \<Longrightarrow> unat (ev_sequence e) = Suc (length log) \<Longrightarrow> numbered (log @ [e])"
  by (auto simp: numbered_def nth_append less_Suc_eq)

lemma rb_history_length: "rb_history b log \<Longrightarrow> length (rb_events b) = min (length log) (rb_capacity b)"
  by (auto simp: rb_history_def)

lemma rb_history_bound: "rb_history b log \<Longrightarrow> Suc (length log) < 2 ^ 64"
proof -
  assume h: "rb_history b log"
  have "unat (rb_next_sequence b) < 2 ^ 64"
    by (rule unat_u64_less)
  with h show ?thesis by (simp add: rb_history_def)
qed

lemma rb_push_history:
  assumes h: "rb_history b log" and p: "rb_push b e = Some (n, b')"
  shows "rb_history b' (log @ [e\<lparr>ev_sequence := n\<rparr>]) \<and> unat n = Suc (length log)
    \<and> rb_capacity b' = rb_capacity b"
proof -
  from p obtain m where m: "checked_add1 (rb_next_sequence b) = Some m"
    and n: "n = rb_next_sequence b"
    and b': "b' = b\<lparr>rb_next_sequence := m,
        rb_events := (let es = rb_events b @ [e\<lparr>ev_sequence := n\<rparr>] in
          if length es > rb_capacity b then tl es else es)\<rparr>"
    by (auto simp: rb_push_def Let_def split: option.splits)
  have nxt: "unat m = Suc (Suc (length log))"
    using checked_add1_Some [OF m] h by (auto simp: rb_history_def)
  have un: "unat n = Suc (length log)"
    using h n by (simp add: rb_history_def)
  have cap: "0 < rb_capacity b" and evs: "rb_events b = drop (length log - rb_capacity b) log"
    using h by (auto simp: rb_history_def)
  have "rb_events b' = drop (Suc (length log) - rb_capacity b) (log @ [e\<lparr>ev_sequence := n\<rparr>])"
  proof (cases "length log < rb_capacity b")
    case True
    then show ?thesis by (simp add: b' evs Let_def)
  next
    case False
    then have "Suc (length log) - rb_capacity b = Suc (length log - rb_capacity b)" by simp
    moreover have "length log - rb_capacity b < length log" using False cap by linarith
    ultimately show ?thesis
      using False by (simp add: b' evs Let_def drop_Suc tl_drop)
  qed
  moreover have "numbered (log @ [e\<lparr>ev_sequence := n\<rparr>])"
    using h un by (intro numbered_snoc) (simp_all add: rb_history_def)
  ultimately show ?thesis
    using un nxt cap by (simp add: rb_history_def b')
qed

lemma filter_numbered:
  assumes "numbered log" and "k \<le> unat c"
  shows "filter (\<lambda>e. ev_sequence e > c) (drop k log) = drop (unat c) log"
proof -
  have gt: "ev_sequence (log ! i) > c \<longleftrightarrow> unat c \<le> i" if "i < length log" for i
    using assms(1) that by (simp add: numbered_def word_less_nat_alt less_Suc_eq_le)
  have "drop k log = take (unat c - k) (drop k log) @ drop (unat c) log"
    using assms(2) by (metis append_take_drop_id drop_drop le_add_diff_inverse2)
  then have "filter (\<lambda>e. ev_sequence e > c) (drop k log)
      = filter (\<lambda>e. ev_sequence e > c) (take (unat c - k) (drop k log))
        @ filter (\<lambda>e. ev_sequence e > c) (drop (unat c) log)"
    by (metis filter_append)
  moreover have "filter (\<lambda>e. ev_sequence e > c) (take (unat c - k) (drop k log)) = []"
    using gt assms(2) by (auto simp: filter_empty_conv in_set_conv_nth)
  moreover have "filter (\<lambda>e. ev_sequence e > c) (drop (unat c) log) = drop (unat c) log"
    using gt by (auto simp: filter_id_conv in_set_conv_nth)
  ultimately show ?thesis by simp
qed

lemma rb_bounds_history:
  assumes "rb_history b log" and "log \<noteq> []"
  shows "\<exists>oldest latest. rb_bounds b = Some (oldest, latest)
    \<and> unat oldest = Suc (length log - rb_capacity b) \<and> unat latest = length log"
proof -
  let ?k = "length log - rb_capacity b"
  have k: "?k < length log"
    using assms by (auto simp: rb_history_def)
  have evs: "rb_events b = log ! ?k # drop (Suc ?k) log"
    using assms(1) k by (simp add: rb_history_def Cons_nth_drop_Suc)
  have "last (rb_events b) = log ! (length log - 1)"
    using assms k by (simp add: rb_history_def last_drop last_conv_nth)
  then have "rb_bounds b = Some (ev_sequence (log ! ?k), ev_sequence (log ! (length log - 1)))"
    unfolding rb_bounds_def evs by simp
  moreover have "unat (ev_sequence (log ! (length log - 1))) = length log"
    using assms k by (simp add: rb_history_def numbered_def)
  moreover have "unat (ev_sequence (log ! ?k)) = Suc ?k"
    using assms k unfolding rb_history_def numbered_def by blast
  ultimately show ?thesis by blast
qed

lemma saturating_add1_less:
  assumes "unat oldest = Suc k" "k \<le> 2 ^ 64 - 2"
  shows "saturating_add1 c < oldest \<longleftrightarrow> unat c < k"
  using assms by (auto simp: word_less_nat_alt unat_saturating_add1 min_less_iff_disj)

lemma rb_replay_after_history:
  assumes h: "rb_history b log"
  shows "rb_replay_after b c =
    (if unat c < length log - rb_capacity b
     then ResyncRequired (of_nat (Suc (length log - rb_capacity b))) (of_nat (length log))
     else Events (drop (unat c) log))"
proof (cases "log = []")
  case True
  with h show ?thesis by (simp add: rb_replay_after_def rb_bounds_def rb_history_def)
next
  case False
  let ?k = "length log - rb_capacity b"
  obtain oldest latest where bd: "rb_bounds b = Some (oldest, latest)"
    and o': "unat oldest = Suc ?k" and l: "unat latest = length log"
    using rb_bounds_history [OF h False] by blast
  have "length log \<le> 2 ^ 64 - 2"
    using rb_history_bound [OF h] by simp
  then have iff: "saturating_add1 c < oldest \<longleftrightarrow> unat c < ?k"
    using o' by (intro saturating_add1_less) auto
  have "oldest = of_nat (Suc ?k)" "latest = of_nat (length log)"
    by (rule u64_eq_of_nat [OF o'], rule u64_eq_of_nat [OF l])
  moreover have "\<not> unat c < ?k \<Longrightarrow> filter (\<lambda>e. ev_sequence e > c) (rb_events b) = drop (unat c) log"
    using h by (simp add: rb_history_def filter_numbered)
  ultimately show ?thesis
    using bd iff by (simp add: rb_replay_after_def)
qed

section \<open>What the broker relies on\<close>

locale event_log =
  fixes push :: "'b \<Rightarrow> EventEnvelope \<Rightarrow> (u64 \<times> 'b) option"
    and replay :: "'b \<Rightarrow> u64 \<Rightarrow> ReplayResult"
    and history :: "'b \<Rightarrow> EventEnvelope list \<Rightarrow> bool"
    and window :: "'b \<Rightarrow> nat"
  assumes push_history: "history b log \<Longrightarrow> push b e = Some (n, b') \<Longrightarrow>
      history b' (log @ [e\<lparr>ev_sequence := n\<rparr>])"
    and push_next: "history b log \<Longrightarrow> push b e = Some (n, b') \<Longrightarrow> unat n = Suc (length log)"
    and push_window: "history b log \<Longrightarrow> push b e = Some (n, b') \<Longrightarrow> window b' = window b"
    and replay_suffix: "history b log \<Longrightarrow> replay b c = Events es \<Longrightarrow> es = drop (unat c) log"
    and replay_refused: "history b log \<Longrightarrow> replay b c = ResyncRequired o' l \<Longrightarrow>
      unat c + window b < length log \<and> unat o' = Suc (length log - window b) \<and> unat l = length log"
begin

text \<open>A client that holds the first \<open>c\<close> events is brought up to date, nothing lost or repeated.\<close>

lemma catch_up:
  "history b log \<Longrightarrow> replay b c = Events es \<Longrightarrow> take (unat c) log @ es = log"
  using replay_suffix by (metis append_take_drop_id)

text \<open>An event is only refused when the window has really dropped an event the client lacks.\<close>

lemma never_refused_within_window:
  "history b log \<Longrightarrow> length log \<le> unat c + window b \<Longrightarrow> \<exists>es. replay b c = Events es"
  using replay_refused by (metis ReplayResult.exhaust leD)

fun push_list :: "'b \<Rightarrow> EventEnvelope list \<Rightarrow> ('b \<times> EventEnvelope list) option" where
  "push_list b [] = Some (b, [])"
| "push_list b (e # es) = (case push b e of None \<Rightarrow> None
    | Some (n, b') \<Rightarrow> map_option (\<lambda>(b'', live). (b'', e\<lparr>ev_sequence := n\<rparr> # live)) (push_list b' es))"

lemma push_list_history:
  "history b log \<Longrightarrow> push_list b es = Some (b', live) \<Longrightarrow> history b' (log @ live)"
proof (induction es arbitrary: b log live)
  case (Cons e es)
  from Cons.prems(2) obtain n b1 live1 where p: "push b e = Some (n, b1)"
    and r: "push_list b1 es = Some (b', live1)" and l: "live = e\<lparr>ev_sequence := n\<rparr> # live1"
    by (auto split: option.splits)
  have "history b' ((log @ [e\<lparr>ev_sequence := n\<rparr>]) @ live1)"
    using Cons.IH [OF push_history [OF Cons.prems(1) p] r] .
  with l show ?case by simp
qed simp

text \<open>Replay first and live events afterwards give the client the whole history.\<close>

lemma replay_then_live:
  "history b log \<Longrightarrow> replay b c = Events es \<Longrightarrow> push_list b new = Some (b', live) \<Longrightarrow>
   history b' (take (unat c) log @ es @ live)"
  using catch_up push_list_history by (metis append_assoc)

end

interpretation rb: event_log rb_push rb_replay_after rb_history rb_capacity
proof unfold_locales
  fix b log e n b' assume "rb_history b log" "rb_push b e = Some (n, b')"
  from rb_push_history [OF this] show "rb_history b' (log @ [e\<lparr>ev_sequence := n\<rparr>])"
    and "unat n = Suc (length log)" and "rb_capacity b' = rb_capacity b" by blast+
next
  fix b log c es assume "rb_history b log" "rb_replay_after b c = Events es"
  then show "es = drop (unat c) log"
    by (simp add: rb_replay_after_history split: if_splits)
next
  fix b log c o' l assume h: "rb_history b log" and r: "rb_replay_after b c = ResyncRequired o' l"
  have len: "Suc (length log) < 2 ^ 64"
    by (rule rb_history_bound [OF h])
  have small: "k < 2 ^ 64 \<Longrightarrow> unat (of_nat k :: u64) = k" for k
    by (rule unat_of_nat_u64)
  show "unat c + rb_capacity b < length log \<and> unat o' = Suc (length log - rb_capacity b)
      \<and> unat l = length log"
    using r h len small [of "length log"] small [of "Suc (length log - rb_capacity b)"]
    by (auto simp: rb_replay_after_history split: if_splits)
qed

text \<open>
  C26.  A replay is exact.  Whatever events were pushed before, asking for what follows cursor
  \<open>c\<close> either returns precisely the events numbered above \<open>c\<close>, all of them and in order, or
  reports the retained bounds, and it does the latter only when an event the caller lacks has been
  evicted by the capacity.
\<close>

theorem replay_after_exact:
  assumes "rb_history b log"
  shows "(\<exists>es. rb_replay_after b c = Events es \<and> take (unat c) log @ es = log
            \<and> length log \<le> unat c + rb_capacity b)
       \<or> (\<exists>oldest latest. rb_replay_after b c = ResyncRequired oldest latest
            \<and> unat c + rb_capacity b < length log
            \<and> unat oldest = Suc (length log - rb_capacity b) \<and> unat latest = length log)"
proof (cases "rb_replay_after b c")
  case (Events es)
  have "\<not> unat c < length log - rb_capacity b"
    using Events rb_replay_after_history [OF assms, of c] by (auto split: if_splits)
  then show ?thesis
    using Events rb.catch_up [OF assms Events] by auto
next
  case (ResyncRequired o' l)
  then show ?thesis using rb.replay_refused [OF assms ResyncRequired] by blast
qed

definition sample_event :: "string \<Rightarrow> EventEnvelope" where
  "sample_event ty = new_event ''t'' ''a'' Codex ty JNull JNull"

definition sample_buffer :: ReplayBuffer where
  "sample_buffer = \<lparr>rb_capacity = 1, rb_next_sequence = 3,
     rb_events = [(sample_event ''y'')\<lparr>ev_sequence := 2\<rparr>]\<rparr>"

definition sample_log :: "EventEnvelope list" where
  "sample_log = [(sample_event ''x'')\<lparr>ev_sequence := 1\<rparr>, (sample_event ''y'')\<lparr>ev_sequence := 2\<rparr>]"

lemma sample_history: "rb_history sample_buffer sample_log"
  by (simp add: rb_history_def sample_buffer_def sample_log_def numbered_def less_Suc_eq)

theorem replay_after_exact_witness:
  "(\<exists>es. rb_replay_after sample_buffer 1 = Events es \<and> take (unat (1 :: u64)) sample_log @ es = sample_log
            \<and> length sample_log \<le> unat (1 :: u64) + rb_capacity sample_buffer)
       \<or> (\<exists>oldest latest. rb_replay_after sample_buffer 1 = ResyncRequired oldest latest
            \<and> unat (1 :: u64) + rb_capacity sample_buffer < length sample_log
            \<and> unat oldest = Suc (length sample_log - rb_capacity sample_buffer)
            \<and> unat latest = length sample_log)"
  by (rule replay_after_exact [OF sample_history])

text \<open>
  C25.  The buffer refines the history: pushing an event appends it to the history under the next
  consecutive number, the buffer keeps exactly the last \<open>capacity\<close> events of it, and the only
  failure is the overflow of the 64-bit counter.
\<close>

theorem push_refines_history:
  assumes "rb_history b log"
  shows "(rb_push b e = None \<and> Suc (length log) = 2 ^ 64 - 1)
       \<or> (\<exists>n b'. rb_push b e = Some (n, b') \<and> unat n = Suc (length log)
            \<and> rb_history b' (log @ [e\<lparr>ev_sequence := n\<rparr>])
            \<and> length (rb_events b') \<le> rb_capacity b)"
proof (cases "rb_push b e")
  case None
  then have "rb_next_sequence b = u64_max"
    by (auto simp: rb_push_def Let_def checked_add1_def split: option.splits if_splits)
  then show ?thesis
    using None assms by (simp add: rb_history_def unat_u64_max)
next
  case (Some p)
  then obtain n b' where p: "rb_push b e = Some (n, b')" by (cases p) simp
  have h: "rb_history b' (log @ [e\<lparr>ev_sequence := n\<rparr>])" "rb_capacity b' = rb_capacity b"
    using rb.push_history [OF assms p] rb.push_window [OF assms p] by simp_all
  then have "length (rb_events b') \<le> rb_capacity b"
    using rb_history_length by (metis min.cobounded2)
  then show ?thesis
    using p h rb.push_next [OF assms p] by blast
qed

theorem push_refines_history_witness:
  "(rb_push sample_buffer (sample_event ''z'') = None \<and> Suc (length sample_log) = 2 ^ 64 - 1)
       \<or> (\<exists>n b'. rb_push sample_buffer (sample_event ''z'') = Some (n, b') \<and> unat n = Suc (length sample_log)
            \<and> rb_history b' (sample_log @ [(sample_event ''z'')\<lparr>ev_sequence := n\<rparr>])
            \<and> length (rb_events b') \<le> rb_capacity sample_buffer)"
  by (rule push_refines_history [OF sample_history])

end
