(* ===== verification/Markdown.thy ===== *)
theory Markdown
  imports Framing
begin

text \<open>
  Line-local Markdown styling: \<open>Style\<close>, \<open>Span\<close>, \<open>Line\<close> and the module \<open>markdown\<close> of
  \<open>transcript.rs\<close>.  Offsets are byte offsets into the line's text.  The Unicode table behind
  \<open>char::is_alphanumeric\<close> is the parameter \<open>alnum\<close>, a predicate on the encoding of one character;
  nothing is assumed about it.  The scanning loops keep their index variables; each index grows by
  at least one byte per round, which is their termination argument.

  The lemmas show that every span lies inside its line, that the spans of an ordinary line are
  ascending and disjoint, that text is never rewritten, and that the style of a line depends on
  the lines before it only.
\<close>

datatype Style =
    LabelAssistant | LabelSystem | MessageUser | StreamingMark | Heading | CodeFence | Code | CodeSpan
  | Strong | Emphasis | ListMarker | Quote | Link | Rule | TableBorder

record Span =
  sp_start :: nat
  sp_end :: nat
  sp_style :: Style

record Line =
  ln_text :: string
  ln_spans :: "Span list"

definition mk_span :: "nat \<Rightarrow> nat \<Rightarrow> Style \<Rightarrow> Span" where
  "mk_span s e st = \<lparr>sp_start = s, sp_end = e, sp_style = st\<rparr>"

lemma mk_span_simps [simp]:
  "sp_start (mk_span s e st) = s" "sp_end (mk_span s e st) = e" "sp_style (mk_span s e st) = st"
  by (simp_all add: mk_span_def)

definition plain_line :: "string \<Rightarrow> Line" where
  "plain_line text = \<lparr>ln_text = text, ln_spans = []\<rparr>"

definition styled_line :: "string \<Rightarrow> Style \<Rightarrow> Line" where
  "styled_line text style =
    \<lparr>ln_text = text, ln_spans = (if text = [] then [] else [mk_span 0 (length text) style])\<rparr>"

lemma line_texts [simp]: "ln_text (plain_line t) = t" "ln_text (styled_line t st) = t"
  by (simp_all add: plain_line_def styled_line_def)

section \<open>Blocks\<close>

definition split_indent :: "string \<Rightarrow> nat \<times> string" where
  "split_indent text =
    (let indent = min (length (takeWhile (\<lambda>b. b = CHR '' '') text)) (length text) in
     (indent, drop indent text))"

definition fence_run :: "string \<Rightarrow> (char \<times> nat) option" where
  "fence_run body = (case body of
     [] \<Rightarrow> None
   | marker # _ \<Rightarrow>
       if marker = CHR ''`'' \<or> marker = CHR ''~'' then
         (let len = length (takeWhile (\<lambda>c. c = marker) body) in
          if len \<ge> 3 then Some (marker, len) else None)
       else None)"

definition is_heading :: "string \<Rightarrow> bool" where
  "is_heading body =
    (let hashes = length (takeWhile (\<lambda>b. b = CHR ''#'') body) in
     1 \<le> hashes \<and> hashes \<le> 6
     \<and> (case drop hashes body of [] \<Rightarrow> True | c # _ \<Rightarrow> c = CHR '' ''))"

fun rule_loop :: "char option \<Rightarrow> nat \<Rightarrow> string \<Rightarrow> bool" where
  "rule_loop marker count [] = (count \<ge> 3)"
| "rule_loop marker count (c # cs) =
    (if c = CHR '' '' \<or> c = CHR 0x09 then rule_loop marker count cs
     else if c = CHR ''-'' \<or> c = CHR ''*'' \<or> c = CHR ''_'' then
       (if some_and (\<lambda>m. m \<noteq> c) marker then False else rule_loop (Some c) (count + 1) cs)
     else False)"

definition is_rule :: "string \<Rightarrow> bool" where
  "is_rule body = rule_loop None 0 body"

fun separator_loop :: "nat \<Rightarrow> string \<Rightarrow> bool" where
  "separator_loop dashes [] = (dashes \<ge> 3)"
| "separator_loop dashes (c # cs) =
    (if c = CHR ''|'' \<or> c = CHR '':'' \<or> c = CHR '' '' then separator_loop dashes cs
     else if c = CHR ''-'' then separator_loop (dashes + 1) cs
     else False)"

definition is_table_separator :: "string \<Rightarrow> bool" where
  "is_table_separator body = separator_loop 0 body"

definition list_marker :: "string \<Rightarrow> nat" where
  "list_marker body =
    (if length body \<ge> 2 \<and> body ! 0 \<in> {CHR ''-'', CHR ''*'', CHR ''+''} \<and> body ! 1 = CHR '' '' then 2
     else
       (let digits = length (takeWhile is_ascii_digit body) in
        if 1 \<le> digits \<and> digits \<le> 9 \<and> length body > digits + 1
           \<and> body ! digits \<in> {CHR ''.'', CHR '')''} \<and> body ! (digits + 1) = CHR '' ''
        then digits + 2 else 0))"

lemma list_marker_le: "list_marker body \<le> length body"
  by (auto simp: list_marker_def Let_def)

section \<open>Inline spans\<close>

lemma takeWhile_pos: "starts_with [c] s \<Longrightarrow> 0 < length (takeWhile (\<lambda>d. d = c) s)"
  by (auto simp: starts_with_iff)

lemma hd_utf8_pos: "s \<noteq> [] \<Longrightarrow> 0 < length (hd (utf8_chars s))"
  by (cases s) simp_all

lemma hd_utf8_le: "length (hd (utf8_chars s)) \<le> length s \<or> s = []"
  by (cases s) (auto simp: length_takeWhile_le)

text \<open>\<open>find_backtick_run\<close>: the offset of a run of exactly the given length.\<close>

function backtick_loop :: "string \<Rightarrow> nat \<Rightarrow> nat \<Rightarrow> nat option" where
  "backtick_loop text len offset =
    (if offset < length text then
       (let rest = drop offset text in
        if starts_with ''`'' rest then
          (let run = length (takeWhile (\<lambda>c. c = CHR ''`'') rest) in
           if run = len then Some offset else backtick_loop text len (offset + run))
        else backtick_loop text len (offset + length (hd (utf8_chars rest))))
     else None)"
  by pat_completeness auto
termination
proof (relation "measure (\<lambda>(text, len, offset). length text - offset)", goal_cases)
  case (2 t len offset rest run)
  then have "0 < run" using takeWhile_pos by blast
  with 2(1) show ?case by (simp only: in_measure prod.case; linarith)
next
  case (3 t len offset rest)
  then have "0 < length (hd (utf8_chars rest))" by (intro hd_utf8_pos) simp
  with 3(1) show ?case by (simp only: in_measure prod.case; linarith)
qed simp

declare backtick_loop.simps [simp del]

definition find_backtick_run :: "string \<Rightarrow> nat \<Rightarrow> nat option" where
  "find_backtick_run text len = backtick_loop text len 0"

lemma backtick_loop_bound:
  "backtick_loop t len offset = Some p \<Longrightarrow> offset \<le> p \<and> p + len \<le> length t"
proof (induction t len offset rule: backtick_loop.induct)
  case (1 t len offset)
  let ?rest = "drop offset t"
  let ?run = "length (takeWhile (\<lambda>c. c = CHR ''`'') ?rest)"
  have le: "?run \<le> length t - offset"
    using length_takeWhile_le [of "\<lambda>c. c = CHR ''`''" ?rest] by simp
  have lt: "offset < length t"
    using 1(3) by (subst (asm) backtick_loop.simps) (simp split: if_splits)
  show ?case
  proof (cases "starts_with ''`'' ?rest")
    case True
    show ?thesis
    proof (cases "?run = len")
      case eq: True
      then have "p = offset"
        using 1(3) lt True by (subst (asm) backtick_loop.simps) (simp add: Let_def)
      with eq le lt show ?thesis by linarith
    next
      case False
      then have "backtick_loop t len (offset + ?run) = Some p"
        using 1(3) lt True by (subst (asm) backtick_loop.simps) (simp add: Let_def)
      with 1(1) [OF lt refl True refl False] show ?thesis by simp
    qed
  next
    case False
    then have "backtick_loop t len (offset + length (hd (utf8_chars ?rest))) = Some p"
      using 1(3) lt by (subst (asm) backtick_loop.simps) (simp add: Let_def)
    with 1(2) [OF lt refl False] show ?thesis by simp
  qed
qed

text \<open>\<open>find_emphasis_close\<close>: \<open>d # _\<close> is \<open>delimiter.chars().next()?\<close>.\<close>

definition starts_alnum :: "(string \<Rightarrow> bool) \<Rightarrow> string \<Rightarrow> bool" where
  "starts_alnum alnum s = (case utf8_chars s of [] \<Rightarrow> False | c # _ \<Rightarrow> alnum c)"

definition ends_alnum :: "(string \<Rightarrow> bool) \<Rightarrow> string \<Rightarrow> bool" where
  "ends_alnum alnum s = (case rev (utf8_chars s) of [] \<Rightarrow> False | c # _ \<Rightarrow> alnum c)"

lemma find_str_drop_bound:
  "find_str pat (drop k s) = Some i \<Longrightarrow> pat \<noteq> [] \<Longrightarrow> k + i + length pat \<le> length s"
  using find_str_Some [of pat "drop k s" i] by (cases "k \<le> length s") auto

function emphasis_loop :: "(string \<Rightarrow> bool) \<Rightarrow> string \<Rightarrow> string \<Rightarrow> bool \<Rightarrow> nat \<Rightarrow> nat option" where
  "emphasis_loop alnum content delimiter word_bound search =
    (case find_str delimiter (drop search content) of
       None \<Rightarrow> None
     | Some found \<Rightarrow>
         (case delimiter of
            [] \<Rightarrow> None
          | d # _ \<Rightarrow>
              (let at = search + found;
                   inner = take at content;
                   after = drop (at + length delimiter) content;
                   closes_run = starts_with [d] after;
                   right_ok = (\<not> word_bound \<or> \<not> starts_alnum alnum after) in
               if inner \<noteq> [] \<and> last inner \<noteq> CHR '' '' \<and> \<not> closes_run \<and> right_ok
               then Some (length delimiter + at + length delimiter)
               else emphasis_loop alnum content delimiter word_bound (at + length delimiter))))"
  by pat_completeness auto
termination
proof (relation "measure (\<lambda>(alnum, content, delimiter, word_bound, search). length content - search)",
    goal_cases)
  case (2 alnum content delimiter word_bound search found d ds)
  then show ?case
    using find_str_drop_bound [of delimiter search content found] by simp
qed simp

declare emphasis_loop.simps [simp del]

lemma emphasis_loop_bound:
  "emphasis_loop alnum content delimiter wb search = Some e \<Longrightarrow>
   0 < e \<and> e \<le> length delimiter + length content"
proof (induction alnum content delimiter wb search rule: emphasis_loop.induct)
  case (1 alnum content delimiter wb search)
  from 1(2) obtain found d ds where f: "find_str delimiter (drop search content) = Some found"
    and d: "delimiter = d # ds"
    by (subst (asm) emphasis_loop.simps) (auto split: option.splits list.splits)
  have b: "search + found + length delimiter \<le> length content"
    using find_str_drop_bound [OF f] d by simp
  let ?at = "search + found"
  let ?ok = "take ?at content \<noteq> [] \<and> last (take ?at content) \<noteq> CHR '' ''
      \<and> \<not> starts_with [d] (drop (?at + length delimiter) content)
      \<and> (\<not> wb \<or> \<not> starts_alnum alnum (drop (?at + length delimiter) content))"
  have eq: "emphasis_loop alnum content delimiter wb search =
      (if ?ok then Some (length delimiter + ?at + length delimiter)
       else emphasis_loop alnum content delimiter wb (?at + length delimiter))"
    unfolding emphasis_loop.simps [of alnum content delimiter wb search]
    by (simp only: f [unfolded d] d option.case list.case Let_def)
  show ?case
  proof (cases ?ok)
    case True
    then have "e = length delimiter + ?at + length delimiter"
      using 1(2) unfolding eq by simp
    with b d show ?thesis by simp
  next
    case False
    have "emphasis_loop alnum content delimiter wb (?at + length delimiter) = Some e"
      using 1(2) unfolding eq if_not_P [OF False] .
    with 1(1) [OF f d refl refl refl refl refl] False show ?thesis by simp
  qed
qed

definition find_emphasis_close :: "(string \<Rightarrow> bool) \<Rightarrow> string \<Rightarrow> string \<Rightarrow> bool \<Rightarrow> nat option" where
  "find_emphasis_close alnum rest delimiter word_bound =
    (let content = drop (length delimiter) rest in
     if starts_with '' '' content \<or> content = [] then None
     else emphasis_loop alnum content delimiter word_bound 0)"

definition find_link_end :: "string \<Rightarrow> nat option" where
  "find_link_end rest = (case find_str ''](''  rest of
     None \<Rightarrow> None
   | Some close \<Rightarrow>
       if close = 1 \<or> CHR ''['' \<in> set (take (close - 1) (drop 1 rest)) then None
       else
         (let target = drop (close + 2) rest in
          case position CHR '')'' target of
            None \<Rightarrow> None
          | Some en \<Rightarrow>
              if en = 0 \<or> CHR '' '' \<in> set (take en target) then None
              else Some (close + 2 + en + 1)))"

lemma find_link_end_bound: "find_link_end rest = Some e \<Longrightarrow> e \<le> length rest \<and> 0 < e"
  by (auto simp: find_link_end_def Let_def split: option.splits if_splits dest!: position_less)

lemma find_emphasis_close_bound:
  "find_emphasis_close alnum rest delimiter wb = Some e \<Longrightarrow> length delimiter \<le> length rest \<Longrightarrow>
   e \<le> length rest \<and> 0 < e"
  by (auto simp: find_emphasis_close_def Let_def split: if_splits dest!: emphasis_loop_bound)

text \<open>One round of the loop of \<open>inline_spans\<close>: the next index and the span pushed, if any.\<close>

definition inline_step :: "(string \<Rightarrow> bool) \<Rightarrow> string \<Rightarrow> nat \<Rightarrow> nat \<times> Span option" where
  "inline_step alnum text index =
    (let rest = drop index text; c = hd rest in
     if c = CHR ''`'' then
       (let run = length (takeWhile (\<lambda>d. d = CHR ''`'') rest) in
        case find_backtick_run (drop run rest) run of
          Some close \<Rightarrow>
            (let en = index + run + close + run in (en, Some (mk_span index en CodeSpan)))
        | None \<Rightarrow> (index + run, None))
     else if c = CHR ''*'' \<or> c = CHR ''_'' then
       (let run = min (length (takeWhile (\<lambda>d. d = c) rest)) 2;
            delimiter = take run rest;
            word_bound = (c = CHR ''_'');
            left_ok = (\<not> word_bound \<or> index = 0 \<or> \<not> ends_alnum alnum (take index text)) in
        case (if left_ok then find_emphasis_close alnum rest delimiter word_bound else None) of
          Some en \<Rightarrow>
            (index + en, Some (mk_span index (index + en) (if run = 2 then Strong else Emphasis)))
        | None \<Rightarrow> (index + run, None))
     else if c = CHR ''['' then
       (case find_link_end rest of
          Some en \<Rightarrow> (index + en, Some (mk_span index (index + en) Link))
        | None \<Rightarrow> (index + 1, None))
     else (index + length (hd (utf8_chars rest)), None))"

lemma inline_step_bounds:
  assumes "index < length text"
  shows "index < fst (inline_step alnum text index) \<and> fst (inline_step alnum text index) \<le> length text
    \<and> (\<forall>s. snd (inline_step alnum text index) = Some s \<longrightarrow>
         sp_start s = index \<and> sp_end s = fst (inline_step alnum text index))"
proof -
  let ?rest = "drop index text"
  obtain c cs where rest: "?rest = c # cs"
    using assms by (metis Cons_nth_drop_Suc)
  have len: "length ?rest = length text - index" by simp
  have ln: "length text = Suc (index + length cs)"
    using assms by (metis length_drop rest length_Cons add_Suc_right le_add_diff_inverse less_imp_le)
  have run: "0 < length (takeWhile (\<lambda>d. d = c) ?rest)"
      "index + length (takeWhile (\<lambda>d. d = c) ?rest) \<le> length text"
    using rest length_takeWhile_le [of "\<lambda>d. d = c" cs] ln by auto
  consider "c = CHR ''`''" | "c = CHR ''*'' \<or> c = CHR ''_''" | "c = CHR ''[''"
    | "c \<noteq> CHR ''`''" "\<not> (c = CHR ''*'' \<or> c = CHR ''_'')" "c \<noteq> CHR ''[''"
    by blast
  then show ?thesis
  proof cases
    case 1
    let ?run = "length (takeWhile (\<lambda>d. d = CHR ''`'') ?rest)"
    show ?thesis
    proof (cases "find_backtick_run (drop ?run ?rest) ?run")
      case None
      then show ?thesis using 1 rest run by (simp add: inline_step_def Let_def)
    next
      case (Some close)
      then have "close + ?run \<le> length (drop ?run ?rest)"
        by (auto simp: find_backtick_run_def dest: backtick_loop_bound)
      then show ?thesis using 1 rest run Some ln by (simp add: inline_step_def Let_def)
    qed
  next
    case 2
    let ?run = "min (length (takeWhile (\<lambda>d. d = c) ?rest)) 2"
    have rb: "0 < ?run" "index + ?run \<le> length text" "?run \<le> length ?rest"
      using run by auto
    have nb: "c \<noteq> CHR ''`''" using 2 by auto
    let ?r = "if \<not> c = CHR ''_'' \<or> index = 0 \<or> \<not> ends_alnum alnum (take index text)
        then find_emphasis_close alnum ?rest (take ?run ?rest) (c = CHR ''_'') else None"
    have hd: "hd ?rest = c" by (simp add: rest)
    show ?thesis
    proof (cases ?r)
      case None
      then show ?thesis
        using 2 hd rb nb by (simp add: inline_step_def Let_def)
    next
      case (Some en)
      then have "find_emphasis_close alnum ?rest (take ?run ?rest) (c = CHR ''_'') = Some en"
        by (simp split: if_splits)
      then have "en \<le> length ?rest \<and> 0 < en"
        by (rule find_emphasis_close_bound) simp
      then have "index + en \<le> length text" "0 < en"
        using assms by auto
      then show ?thesis
        using 2 hd nb Some by (simp add: inline_step_def Let_def)
    qed
  next
    case 3
    then show ?thesis
      using rest ln find_link_end_bound [of ?rest]
      by (auto simp: inline_step_def Let_def split: option.splits)
  next
    case 4
    have "0 < length (hd (utf8_chars ?rest))" "length (hd (utf8_chars ?rest)) \<le> length ?rest"
      using hd_utf8_pos [of ?rest] hd_utf8_le [of ?rest] rest by auto
    then show ?thesis
      using 4 rest ln assms by (simp add: inline_step_def Let_def)
  qed
qed

function inline_spans :: "(string \<Rightarrow> bool) \<Rightarrow> string \<Rightarrow> nat \<Rightarrow> Span list" where
  "inline_spans alnum text index =
    (if index < length text then
       (case inline_step alnum text index of
          (nxt, None) \<Rightarrow> inline_spans alnum text nxt
        | (nxt, Some s) \<Rightarrow> s # inline_spans alnum text nxt)
     else [])"
  by pat_completeness auto
termination
proof (relation "measure (\<lambda>(alnum, text, index). length text - index)", goal_cases)
  case (2 alnum t index nxt o')
  then have "inline_step alnum t index = (nxt, None)" by simp
  then have "index < nxt" using inline_step_bounds [OF 2(1), of alnum] by simp
  with 2(1) show ?case by (simp add: diff_less_mono2)
next
  case (3 alnum t index nxt o' s)
  then have "inline_step alnum t index = (nxt, Some s)" by simp
  then have "index < nxt" using inline_step_bounds [OF 3(1), of alnum] by simp
  with 3(1) show ?case by (simp add: diff_less_mono2)
qed simp

declare inline_spans.simps [simp del]

definition disjoint_spans :: "Span list \<Rightarrow> bool" where
  "disjoint_spans sps = sorted_wrt (\<lambda>a b. sp_end a \<le> sp_start b) sps"

definition spans_within :: "nat \<Rightarrow> nat \<Rightarrow> Span list \<Rightarrow> bool" where
  "spans_within lo hi sps = (\<forall>s\<in>set sps. lo \<le> sp_start s \<and> sp_start s < sp_end s \<and> sp_end s \<le> hi)"

lemma inline_spans_ok:
  "spans_within index (length t) (inline_spans alnum t index)
   \<and> disjoint_spans (inline_spans alnum t index)"
proof (induction alnum t index rule: inline_spans.induct)
  case (1 alnum t index)
  show ?case
  proof (cases "index < length t")
    case False
    then show ?thesis
      by (subst (1 2) inline_spans.simps) (simp add: spans_within_def disjoint_spans_def)
  next
    case lt: True
    obtain nxt o' where st: "inline_step alnum t index = (nxt, o')" by (cases "inline_step alnum t index")
    have b: "index < nxt" "nxt \<le> length t"
      "\<And>s. o' = Some s \<Longrightarrow> sp_start s = index \<and> sp_end s = nxt"
      using inline_step_bounds [OF lt, of alnum] st by auto
    show ?thesis
    proof (cases o')
      case None
      have eq: "inline_spans alnum t index = inline_spans alnum t nxt"
        using lt st None by (subst inline_spans.simps) simp
      show ?thesis
        unfolding eq using 1(1) [OF lt st [symmetric] None] b by (auto simp: spans_within_def)
    next
      case (Some s)
      have eq: "inline_spans alnum t index = s # inline_spans alnum t nxt"
        using lt st Some by (subst inline_spans.simps) simp
      show ?thesis
        unfolding eq using 1(2) [OF lt st [symmetric] Some] b Some
        by (auto simp: spans_within_def disjoint_spans_def)
    qed
  qed
qed

section \<open>Lines\<close>

fun bar_spans :: "nat \<Rightarrow> string \<Rightarrow> Span list" where
  "bar_spans at [] = []"
| "bar_spans at (c # cs) =
    (if c = CHR ''|'' then mk_span at (at + 1) TableBorder # bar_spans (Suc at) cs
     else bar_spans (Suc at) cs)"

definition style_line :: "(string \<Rightarrow> bool) \<Rightarrow> string \<Rightarrow> (char \<times> nat) option \<Rightarrow> Line \<times> (char \<times> nat) option" where
  "style_line alnum text fence =
    (let (indent, body) = split_indent text in
     case fence of
       Some (open_marker, open_length) \<Rightarrow>
         (if some_and (\<lambda>(marker, len). marker = open_marker \<and> len \<ge> open_length
                \<and> trim (drop len body) = []) (fence_run body)
          then (styled_line text CodeFence, None)
          else (styled_line text Code, fence))
     | None \<Rightarrow>
         (case filter_opt (\<lambda>(marker, len). marker = CHR ''~'' \<or> CHR ''`'' \<notin> set (drop len body))
                 (fence_run body) of
            Some run \<Rightarrow> (styled_line text CodeFence, Some run)
          | None \<Rightarrow>
              (if is_heading body then styled_line text Heading
               else if is_rule body then styled_line text Rule
               else if starts_with ''>'' body then styled_line text Quote
               else if starts_with ''|'' body then
                 (if is_table_separator body then styled_line text TableBorder
                  else \<lparr>ln_text = text,
                    ln_spans = sort_key sp_start (bar_spans indent body @ inline_spans alnum text indent)\<rparr>)
               else
                 (let content_start = indent + list_marker body in
                  \<lparr>ln_text = text,
                   ln_spans = (if content_start > indent then [mk_span indent content_start ListMarker] else [])
                     @ inline_spans alnum text content_start\<rparr>),
               None)))"

fun style_from :: "(string \<Rightarrow> bool) \<Rightarrow> (char \<times> nat) option \<Rightarrow> string list \<Rightarrow> Line list" where
  "style_from alnum fence [] = []"
| "style_from alnum fence (t # ts) =
    (case style_line alnum t fence of (line, fence') \<Rightarrow> line # style_from alnum fence' ts)"

fun fence_after :: "(string \<Rightarrow> bool) \<Rightarrow> (char \<times> nat) option \<Rightarrow> string list \<Rightarrow> (char \<times> nat) option" where
  "fence_after alnum fence [] = fence"
| "fence_after alnum fence (t # ts) = fence_after alnum (snd (style_line alnum t fence)) ts"

definition style_lines :: "(string \<Rightarrow> bool) \<Rightarrow> string list \<Rightarrow> Line list" where
  "style_lines alnum texts = style_from alnum None texts"

lemma style_from_append:
  "style_from alnum f (xs @ ys) = style_from alnum f xs @ style_from alnum (fence_after alnum f xs) ys"
  by (induction xs arbitrary: f) (simp_all split: prod.split)

lemma length_style_from [simp]: "length (style_from alnum f xs) = length xs"
  by (induction xs arbitrary: f) (simp_all split: prod.split)

lemma style_line_text: "ln_text (fst (style_line alnum text fence)) = text"
  by (auto simp: style_line_def Let_def split: prod.splits option.splits)

lemma style_from_texts: "map ln_text (style_from alnum f xs) = xs"
proof (induction xs arbitrary: f)
  case (Cons x xs)
  then show ?case
    using style_line_text [of alnum x f] by (cases "style_line alnum x f") simp
qed simp

lemma styled_within: "spans_within 0 (length (ln_text (styled_line t st))) (ln_spans (styled_line t st))"
  by (simp add: styled_line_def spans_within_def)

lemma bar_spans_within: "spans_within at (at + length body) (bar_spans at body)"
  by (induction at body rule: bar_spans.induct) (fastforce simp: spans_within_def dest: Suc_leD)+

lemma style_line_within:
  "spans_within 0 (length text) (ln_spans (fst (style_line alnum text fence)))"
proof -
  obtain indent body where si: "split_indent text = (indent, body)" by (cases "split_indent text")
  then have bl: "indent + length body = length text" "indent \<le> length text"
    by (auto simp: split_indent_def Let_def length_takeWhile_le)
  have bars: "spans_within 0 (length text) (bar_spans indent body)"
    using bar_spans_within [of indent body] bl by (auto simp: spans_within_def)
  have inl: "spans_within 0 (length text) (inline_spans alnum text k)" for k
    using inline_spans_ok [of k "text" alnum] by (auto simp: spans_within_def)
  have lm: "indent + list_marker body \<le> length text"
    using list_marker_le [of body] bl by simp
  have "spans_within 0 (length text) (ln_spans (styled_line text st))" for st
    using styled_within [of "text" st] by simp
  then show ?thesis
    using bars inl lm
    by (auto simp: style_line_def si Let_def spans_within_def split: option.splits)
qed

lemma styled_disjoint: "disjoint_spans (ln_spans (styled_line t st))"
  by (simp add: styled_line_def disjoint_spans_def)

lemma style_line_disjoint:
  assumes "\<not> starts_with ''|'' (snd (split_indent text))"
  shows "disjoint_spans (ln_spans (fst (style_line alnum text fence)))"
proof -
  obtain indent body where si: "split_indent text = (indent, body)" by (cases "split_indent text")
  let ?k = "indent + list_marker body"
  have "spans_within ?k (length text) (inline_spans alnum text ?k)"
      "disjoint_spans (inline_spans alnum text ?k)"
    using inline_spans_ok [of ?k "text" alnum] by auto
  then have "disjoint_spans ((if ?k > indent then [mk_span indent ?k ListMarker] else [])
      @ inline_spans alnum text ?k)"
    by (auto simp: disjoint_spans_def spans_within_def)
  then show ?thesis
    using assms by (auto simp: style_line_def si Let_def styled_disjoint split: option.splits)
qed

text \<open>
  C33.  Styling is safe to apply: every span of every styled line is a non-empty range inside that
  line, and the spans of a line that is not a table row are in ascending order and do not overlap.
\<close>

theorem styles_within_lines:
  assumes "line \<in> set (style_lines alnum texts)"
  shows "(\<forall>s\<in>set (ln_spans line). sp_start s < sp_end s \<and> sp_end s \<le> length (ln_text line))
    \<and> (\<not> starts_with ''|'' (snd (split_indent (ln_text line))) \<longrightarrow> disjoint_spans (ln_spans line))"
proof -
  have "\<exists>text f'. line = fst (style_line alnum text f')" if "line \<in> set (style_from alnum f xs)" for f xs
    using that
  proof (induction xs arbitrary: f)
    case (Cons x xs)
    obtain l f1 where st: "style_line alnum x f = (l, f1)" by (cases "style_line alnum x f")
    then have "line = fst (style_line alnum x f) \<or> line \<in> set (style_from alnum f1 xs)"
      using Cons.prems by auto
    with Cons.IH show ?case by blast
  qed simp
  then obtain t f' where l: "line = fst (style_line alnum t f')"
    using assms unfolding style_lines_def by blast
  show ?thesis
    using style_line_within [of t alnum f'] style_line_disjoint [of t alnum f']
    by (auto simp: l style_line_text spans_within_def)
qed

theorem styles_within_lines_witness:
  "style_lines (\<lambda>_. False) [''# t''] = [styled_line ''# t'' Heading]
    \<and> sp_start (mk_span 0 3 Heading) < sp_end (mk_span 0 3 Heading)
    \<and> sp_end (mk_span 0 3 Heading) \<le> length (ln_text (styled_line ''# t'' Heading))"
proof -
  have eq: "style_lines (\<lambda>_. False) [''# t''] = [styled_line ''# t'' Heading]"
    by (simp add: style_lines_def style_line_def split_indent_def fence_run_def is_heading_def)
  then have "styled_line ''# t'' Heading \<in> set (style_lines (\<lambda>_. False) [''# t''])"
    by simp
  from styles_within_lines [OF this] eq show ?thesis
    by (simp add: styled_line_def)
qed

text \<open>
  Styling is local and verbatim: the texts of the styled lines are the input, and the lines
  already styled keep their styles whatever lines are appended, so a streaming message only ever
  restyles its tail.
\<close>

theorem styles_local_and_verbatim:
  "map ln_text (style_lines alnum texts) = texts
   \<and> take (length texts) (style_lines alnum (texts @ later)) = style_lines alnum texts"
  by (simp add: style_lines_def style_from_texts style_from_append)

end
