(* ===== verification/Transcript.thy ===== *)
theory Transcript
  imports Markdown Protocol
begin

text \<open>
  The broker-owned transcript of one agent, \<open>transcript.rs\<close>: messages, their rendered lines, and
  the patches that tell the editor which lines changed.

  The abstract state of a transcript is its list of messages; the rendered lines are the cached
  concatenation of their renderings, which the operations update in place through \<open>splice\<close>.
  \<open>tr_inv\<close> is that representation invariant.  Line indices and counts (\<open>usize\<close>) are naturals; the
  revision is a 64-bit word.
\<close>

datatype Role = UserRole | AssistantRole | SystemRole

record Message =
  msg_role :: Role
  msg_label :: "string option"
  msg_text :: string
  msg_streaming :: bool
  msg_line_count :: nat

record Transcript =
  tr_messages :: "Message list"
  tr_lines :: "Line list"
  tr_revision :: u64

record Patch =
  pa_revision :: u64
  pa_start :: nat
  pa_end :: nat
  pa_lines :: "Line list"

definition tr_default :: Transcript where
  "tr_default = \<lparr>tr_messages = [], tr_lines = [], tr_revision = 0\<rparr>"

section \<open>Text of a provider payload\<close>

fun provider_name :: "Provider \<Rightarrow> string" where
  "provider_name Codex = ''Codex''"
| "provider_name Claude = ''Claude''"

fun first_text :: "string list \<Rightarrow> json \<Rightarrow> string option" where
  "first_text [] v = None"
| "first_text (k # ks) v = (case jget k v of Some (JString t) \<Rightarrow> Some t | _ \<Rightarrow> first_text ks v)"

function text_from_depth :: "json \<Rightarrow> nat \<Rightarrow> string option" where
  "text_from_depth v depth =
    (if depth > 12 then None
     else (case v of
       JString t \<Rightarrow> Some t
     | JObject _ \<Rightarrow>
         (case first_text [''delta'', ''text'', ''content'', ''message''] v of
            Some t \<Rightarrow> Some t
          | None \<Rightarrow>
              (case jget ''content'' v of
                 Some (JArray xs) \<Rightarrow>
                   (let parts = filter_map (\<lambda>part. text_from_depth part (depth + 1)) xs in
                    if parts = [] then None else Some (concat parts))
               | _ \<Rightarrow> None))
     | _ \<Rightarrow> None))"
  by pat_completeness auto
termination
  by (relation "measure (\<lambda>(_, depth). 13 - depth)") auto

declare text_from_depth.simps [simp del]

definition text_from :: "json \<Rightarrow> string option" where
  "text_from v = text_from_depth v 0"

section \<open>Rendering\<close>

definition replacement_char :: string where
  "replacement_char = [CHR 0xEF, CHR 0xBF, CHR 0xBD]"

definition text_lines :: "string \<Rightarrow> string list" where
  "text_lines text =
    split_on (CHR 0x0A)
      (filter (\<lambda>c. c \<noteq> CHR 0x0D)
        (concat (map (\<lambda>c. if c = CHR 0x00 then replacement_char else [c]) text)))"

definition inline_label :: "string \<Rightarrow> string" where
  "inline_label label =
    map (\<lambda>c. if c = CHR 0x0D \<or> c = CHR 0x0A then CHR '' '' else c)
      (concat (map (\<lambda>c. if c = CHR 0x00 then replacement_char else [c]) label))"

definition ellipsis :: string where
  "ellipsis = [CHR 0xE2, CHR 0x80, CHR 0xA6]"

definition render_message :: "(string \<Rightarrow> bool) \<Rightarrow> Message \<Rightarrow> Line list" where
  "render_message alnum m =
    (case msg_role m of
       UserRole \<Rightarrow> map (\<lambda>t. styled_line t MessageUser) (text_lines (msg_text m))
     | _ \<Rightarrow>
         [styled_line (inline_label (unwrap_or [] (msg_label m)))
            (if msg_role m = SystemRole then LabelSystem else LabelAssistant),
          plain_line []]
         @ (if msg_streaming m \<and> msg_text m = [] then []
            else style_lines alnum (text_lines (msg_text m)))
         @ (if msg_streaming m then [styled_line ellipsis StreamingMark] else []))
    @ [plain_line []]"

lemma render_line_count [simp]:
  "render_message alnum (m\<lparr>msg_line_count := n\<rparr>) = render_message alnum m"
  by (cases "msg_role m") (simp_all add: render_message_def)

lemma render_not_Nil [simp]: "render_message alnum m \<noteq> []"
  by (simp add: render_message_def)

section \<open>Operations\<close>

definition tr_splice :: "Transcript \<Rightarrow> nat \<Rightarrow> nat \<Rightarrow> Line list \<Rightarrow> Patch \<times> Transcript" where
  "tr_splice t start end' lines =
    (let old = take (end' - start) (drop start (tr_lines t));
         prefix = common_prefix old lines;
         suffix = common_prefix (rev (drop prefix old)) (rev (drop prefix lines));
         patch_start = start + prefix;
         patch_end = end' - suffix;
         replacement = drop prefix (take (length lines - suffix) lines);
         revision = tr_revision t + 1 in
     (\<lparr>pa_revision = revision, pa_start = patch_start, pa_end = patch_end, pa_lines = replacement\<rparr>,
      t\<lparr>tr_lines := take patch_start (tr_lines t) @ replacement @ drop patch_end (tr_lines t),
        tr_revision := revision\<rparr>))"

definition push_message :: "(string \<Rightarrow> bool) \<Rightarrow> Transcript \<Rightarrow> Message \<Rightarrow> Patch \<times> Transcript" where
  "push_message alnum t message =
    (let rendered = render_message alnum message;
         t1 = t\<lparr>tr_messages := tr_messages t @ [message\<lparr>msg_line_count := length rendered\<rparr>]\<rparr>;
         end' = length (tr_lines t1) in
     tr_splice t1 end' end' rendered)"

definition set_message :: "(string \<Rightarrow> bool) \<Rightarrow> Transcript \<Rightarrow> nat \<Rightarrow> Message \<Rightarrow> Patch \<times> Transcript" where
  "set_message alnum t index message =
    (let start = sum_list (map msg_line_count (take index (tr_messages t)));
         end' = start + msg_line_count (tr_messages t ! index);
         rendered = render_message alnum message;
         t1 = t\<lparr>tr_messages := (tr_messages t)[index := message\<lparr>msg_line_count := length rendered\<rparr>]\<rparr> in
     tr_splice t1 start end' rendered)"

definition streaming_assistant :: "Transcript \<Rightarrow> nat option" where
  "streaming_assistant t =
    (if tr_messages t = [] then None
     else (let index = length (tr_messages t) - 1; last' = tr_messages t ! index in
           if msg_role last' = AssistantRole \<and> msg_streaming last' then Some index else None))"

definition new_message :: "Role \<Rightarrow> string option \<Rightarrow> string \<Rightarrow> bool \<Rightarrow> Message" where
  "new_message role label text streaming =
    \<lparr>msg_role = role, msg_label = label, msg_text = text, msg_streaming = streaming, msg_line_count = 0\<rparr>"

definition push_user :: "(string \<Rightarrow> bool) \<Rightarrow> Transcript \<Rightarrow> string \<Rightarrow> Patch \<times> Transcript" where
  "push_user alnum t text = push_message alnum t (new_message UserRole None text False)"

definition default_label :: "Provider \<Rightarrow> string" where
  "default_label p = provider_name p @ '' (default model)''"

definition event_label :: "EventEnvelope \<Rightarrow> string option \<Rightarrow> string" where
  "event_label event default_model =
    unwrap_or (default_label (ev_provider event))
      (or_else (filter_opt (\<lambda>s. s \<noteq> []) (get_str ''model'' (ev_payload event)))
               (filter_opt (\<lambda>s. s \<noteq> []) default_model))"

definition apply_event ::
  "(string \<Rightarrow> bool) \<Rightarrow> Transcript \<Rightarrow> EventEnvelope \<Rightarrow> string option \<Rightarrow> Patch option \<times> Transcript" where
  "apply_event alnum t event default_model =
    (if ev_type event = ''message.delta'' then
       (let delta = unwrap_or [] (text_from (ev_payload event)) in
        case streaming_assistant t of
          Some index \<Rightarrow>
            if delta = [] then (None, t)
            else (let message = tr_messages t ! index in
                  apfst Some (set_message alnum t index (message\<lparr>msg_text := msg_text message @ delta\<rparr>)))
        | None \<Rightarrow>
            apfst Some (push_message alnum t
              (new_message AssistantRole (Some (event_label event default_model)) delta True)))
     else if ev_type event = ''message.completed'' then
       (let text = text_from (ev_payload event) in
        case streaming_assistant t of
          Some index \<Rightarrow>
            (let message = tr_messages t ! index;
                 message1 = (case text of
                     Some tx \<Rightarrow> if length tx \<ge> length (msg_text message) then message\<lparr>msg_text := tx\<rparr>
                               else message
                   | None \<Rightarrow> message) in
             apfst Some (set_message alnum t index (message1\<lparr>msg_streaming := False\<rparr>)))
        | None \<Rightarrow>
            (case text of
               Some tx \<Rightarrow> apfst Some (push_message alnum t
                 (new_message AssistantRole (Some (event_label event default_model)) tx False))
             | None \<Rightarrow> (None, t)))
     else if ev_type event = ''turn.completed'' \<or> ev_type event = ''turn.failed'' then
       (case streaming_assistant t of
          None \<Rightarrow> (None, t)
        | Some index \<Rightarrow>
            apfst Some (set_message alnum t index ((tr_messages t ! index)\<lparr>msg_streaming := False\<rparr>)))
     else (None, t))"

fun role_of :: "string \<Rightarrow> Role option" where
  "role_of r = (if r = ''user'' then Some UserRole else if r = ''assistant'' then Some AssistantRole
                else if r = ''system'' then Some SystemRole else None)"

definition history_message :: "Provider \<Rightarrow> string option \<Rightarrow> json \<Rightarrow> Message option" where
  "history_message provider default_model message =
    Option.bind (Option.bind (get_str ''role'' message) role_of) (\<lambda>role.
      Option.bind (get_str ''text'' message) (\<lambda>text.
        Some (new_message role
          (case role of
             UserRole \<Rightarrow> None
           | SystemRole \<Rightarrow> Some ''SYSTEM''
           | AssistantRole \<Rightarrow> Some (unwrap_or (default_label provider)
               (filter_opt (\<lambda>s. s \<noteq> [])
                 (or_else (filter_opt (\<lambda>s. s \<noteq> []) (get_str ''model'' message)) default_model))))
          text False)))"

definition replace_history ::
  "(string \<Rightarrow> bool) \<Rightarrow> Transcript \<Rightarrow> json list \<Rightarrow> Provider \<Rightarrow> string option \<Rightarrow> Patch \<times> Transcript" where
  "replace_history alnum t messages provider default_model =
    (let ms = filter_map (history_message provider default_model) messages;
         counted = map (\<lambda>m. m\<lparr>msg_line_count := length (render_message alnum m)\<rparr>) ms;
         rendered = concat (map (render_message alnum) ms) in
     tr_splice (t\<lparr>tr_messages := counted\<rparr>) 0 (length (tr_lines t)) rendered)"

section \<open>Splicing\<close>

definition trim_suffix :: "'a list \<Rightarrow> 'a list \<Rightarrow> nat" where
  "trim_suffix old new =
    (let p = common_prefix old new in common_prefix (rev (drop p old)) (rev (drop p new)))"

lemma trim_suffix_le:
  "common_prefix old new + trim_suffix old new \<le> length old"
  "common_prefix old new + trim_suffix old new \<le> length new"
proof -
  let ?p = "common_prefix old new"
  have "trim_suffix old new \<le> length (drop ?p old)" "trim_suffix old new \<le> length (drop ?p new)"
    using common_prefix_le [of "rev (drop ?p old)" "rev (drop ?p new)"]
    by (simp_all add: trim_suffix_def Let_def)
  then show "?p + trim_suffix old new \<le> length old" "?p + trim_suffix old new \<le> length new"
    using common_prefix_le [of old new] by simp_all
qed

lemma trim_suffix_eq:
  "drop (length old - trim_suffix old new) old = drop (length new - trim_suffix old new) new"
proof -
  let ?p = "common_prefix old new" and ?q = "trim_suffix old new"
  have "take ?q (rev (drop ?p old)) = take ?q (rev (drop ?p new))"
    using common_prefix_take by (simp add: trim_suffix_def Let_def)
  then have "rev (drop (length (drop ?p old) - ?q) (drop ?p old))
      = rev (drop (length (drop ?p new) - ?q) (drop ?p new))"
    by (simp add: take_rev)
  then have "drop (length (drop ?p old) - ?q) (drop ?p old)
      = drop (length (drop ?p new) - ?q) (drop ?p new)"
    by simp
  moreover have "length old - ?p - ?q + ?p = length old - ?q" "length new - ?p - ?q + ?p = length new - ?q"
    using trim_suffix_le [of old new] by simp_all
  ultimately show ?thesis by simp
qed

lemma tr_splice_unfold:
  "tr_splice t s e new =
    (let old = take (e - s) (drop s (tr_lines t)); p = common_prefix old new; q = trim_suffix old new in
     (\<lparr>pa_revision = tr_revision t + 1, pa_start = s + p, pa_end = e - q,
       pa_lines = drop p (take (length new - q) new)\<rparr>,
      t\<lparr>tr_lines := take (s + p) (tr_lines t) @ drop p (take (length new - q) new)
          @ drop (e - q) (tr_lines t),
        tr_revision := tr_revision t + 1\<rparr>))"
  by (simp add: tr_splice_def trim_suffix_def Let_def)

lemma splice_lines:
  fixes L new :: "'a list"
  assumes se: "s \<le> e" "e \<le> length L"
  defines "old \<equiv> take (e - s) (drop s L)"
  defines "p \<equiv> common_prefix old new" and "q \<equiv> trim_suffix old new"
  shows "take (s + p) L @ drop p (take (length new - q) new) @ drop (e - q) L
    = take s L @ new @ drop e L"
proof -
  have len: "length old = e - s"
    using se by (simp add: old_def)
  have le: "p + q \<le> length old" "p + q \<le> length new"
    using trim_suffix_le [of old new] by (simp_all add: p_def q_def)
  have "take (s + p) L = take s L @ take p (drop s L)"
    by (rule take_add)
  also have "take p (drop s L) = take p old"
    using le len by (simp add: old_def min_def)
  also have "\<dots> = take p new"
    unfolding p_def by (rule common_prefix_take)
  finally have pre: "take (s + p) L = take s L @ take p new" .
  have "drop (e - q) L = drop (length old - q) old @ drop e L"
  proof -
    have "drop s L = old @ drop e L"
      using se by (metis append_take_drop_id drop_drop le_add_diff_inverse2 old_def)
    then have "drop (length old - q) (drop s L) = drop (length old - q) old @ drop e L"
      by simp
    moreover have "length old - q + s = e - q"
      using se le len by simp
    ultimately show ?thesis by simp
  qed
  also have "drop (length old - q) old = drop (length new - q) new"
    unfolding q_def by (rule trim_suffix_eq)
  finally have post: "drop (e - q) L = drop (length new - q) new @ drop e L" .
  have "take p new @ drop p (take (length new - q) new) = take (length new - q) new"
  proof -
    have "p \<le> length new - q"
      using le by simp
    then show ?thesis
      using append_take_drop_id [of p "take (length new - q) new"] by (simp add: min_def)
  qed
  then have "take p new @ drop p (take (length new - q) new) @ drop (length new - q) new = new"
    by (metis append_assoc append_take_drop_id)
  then show ?thesis
    by (simp add: pre post)
qed

lemma splice_minimal:
  fixes L new :: "'a list"
  assumes s0: "s0 \<le> length L" and se: "s \<le> e" "e \<le> length L"
    and alt: "take s0 L @ new = take s L @ r @ drop e L"
  defines "old \<equiv> drop s0 L"
  defines "p \<equiv> common_prefix old new" and "q \<equiv> trim_suffix old new"
  shows "s + (length L - e) \<le> s0 + p + q"
proof -
  let ?L' = "take s0 L @ new"
  have L: "L = take s0 L @ old"
    by (simp add: old_def)
  have len': "length ?L' = s0 + length new" "length ?L' = s + length r + (length L - e)"
    using s0 se by (simp, simp add: alt)
  have pre: "common_prefix L ?L' = s0 + p"
    using s0 by (subst L) (simp add: p_def)
  have "take s L = take s ?L'"
    using se by (simp add: alt)
  then have s: "s \<le> s0 + p"
    using common_prefix_greatest [of s L ?L'] se len' by (simp add: pre)
  let ?k = "length L - e" and ?c = "common_prefix (rev L) (rev ?L')"
  have "take ?k (rev L) = take ?k (rev ?L')"
    using se by (simp add: alt take_rev)
  then have k: "?k \<le> ?c"
    using len' by (intro common_prefix_greatest) auto
  have "drop p old = drop (s0 + p) L" "drop p new = drop (s0 + p) ?L'"
    using s0 by (simp_all add: old_def add.commute)
  then have "q = common_prefix (rev (drop (s0 + p) L)) (rev (drop (s0 + p) ?L'))"
    by (simp add: q_def trim_suffix_def p_def Let_def)
  also have "\<dots> = min (min (length L - (s0 + p)) (length ?L' - (s0 + p))) ?c"
    by (simp only: rev_drop common_prefix_takes)
  finally have q: "q = min (min (length L - (s0 + p)) (length ?L' - (s0 + p))) ?c" .
  have "p \<le> length old" "p \<le> length new"
    unfolding p_def by (rule common_prefix_le)+
  then have "s0 + p \<le> length L" "s0 + p \<le> length ?L'"
    using s0 by (auto simp: old_def)
  then show ?thesis
    using q s k se len' by (auto simp: min_def split: if_splits)
qed

section \<open>Patches\<close>

text \<open>The meaning of a patch, from its documentation: replace lines \<open>[start, end)\<close> with \<open>lines\<close>.\<close>

definition apply_patch :: "Line list \<Rightarrow> Patch \<Rightarrow> Line list" where
  "apply_patch ls pa = take (pa_start pa) ls @ pa_lines pa @ drop (pa_end pa) ls"

lemma tr_splice_correct:
  assumes "tr_splice t s e new = (pa, t')" and "s \<le> e" and "e \<le> length (tr_lines t)"
  shows "tr_lines t' = take s (tr_lines t) @ new @ drop e (tr_lines t)"
    and "tr_lines t' = apply_patch (tr_lines t) pa"
    and "pa_revision pa = tr_revision t + 1" and "tr_revision t' = tr_revision t + 1"
    and "tr_messages t' = tr_messages t"
  using assms(1) splice_lines [OF assms(2,3), of new]
  by (auto simp: tr_splice_unfold apply_patch_def Let_def)

lemma tr_splice_minimal:
  assumes sp: "tr_splice t s0 (length (tr_lines t)) new = (pa, t')" and s0: "s0 \<le> length (tr_lines t)"
    and se: "s \<le> e" "e \<le> length (tr_lines t)"
    and alt: "tr_lines t' = take s (tr_lines t) @ r @ drop e (tr_lines t)"
  shows "pa_end pa - pa_start pa \<le> e - s \<and> length (pa_lines pa) \<le> length r"
proof -
  let ?old = "drop s0 (tr_lines t)"
  let ?p = "common_prefix ?old new" and ?q = "trim_suffix ?old new"
  have L': "tr_lines t' = take s0 (tr_lines t) @ new"
    using tr_splice_correct(1) [OF sp s0 order.refl] by simp
  have min: "s + (length (tr_lines t) - e) \<le> s0 + ?p + ?q"
    by (rule splice_minimal [OF s0 se]) (simp add: alt flip: L')
  have "s0 + length new = s + length r + (length (tr_lines t) - e)"
    using arg_cong [OF alt, of length] s0 se by (simp add: L')
  moreover have "pa_start pa = s0 + ?p" "pa_end pa = length (tr_lines t) - ?q"
    "length (pa_lines pa) = length new - ?q - ?p"
    using sp s0 by (auto simp: tr_splice_unfold Let_def)
  ultimately show ?thesis
    using min se by auto
qed

section \<open>The operations as one step\<close>

datatype transcript_op =
    OpUser string
  | OpEvent EventEnvelope "string option"
  | OpHistory "json list" Provider "string option"

fun transcript_step :: "(string \<Rightarrow> bool) \<Rightarrow> Transcript \<Rightarrow> transcript_op \<Rightarrow> Patch option \<times> Transcript" where
  "transcript_step alnum t (OpUser text) = apfst Some (push_user alnum t text)"
| "transcript_step alnum t (OpEvent event model) = apply_event alnum t event model"
| "transcript_step alnum t (OpHistory ms provider model) =
    apfst Some (replace_history alnum t ms provider model)"

definition counted :: "(string \<Rightarrow> bool) \<Rightarrow> Message \<Rightarrow> bool" where
  "counted alnum m = (msg_line_count m = length (render_message alnum m))"

definition tr_inv :: "(string \<Rightarrow> bool) \<Rightarrow> Transcript \<Rightarrow> bool" where
  "tr_inv alnum t = (tr_lines t = concat (map (render_message alnum) (tr_messages t))
     \<and> list_all (counted alnum) (tr_messages t))"

lemma tr_inv_default: "tr_inv alnum tr_default"
  by (simp add: tr_inv_def tr_default_def)

lemma sum_line_counts:
  "list_all (counted alnum) ms \<Longrightarrow>
   sum_list (map msg_line_count ms) = length (concat (map (render_message alnum) ms))"
  by (induction ms) (auto simp: counted_def)

lemma push_message_step:
  assumes "tr_inv alnum t" and "push_message alnum t m = (pa, t')"
  shows "tr_inv alnum t'"
    and "tr_messages t' = tr_messages t
      @ [m\<lparr>msg_line_count := length (render_message alnum m)\<rparr>]"
    and "\<exists>t1. tr_splice t1 (length (tr_lines t)) (length (tr_lines t)) (render_message alnum m) = (pa, t')
      \<and> tr_lines t1 = tr_lines t \<and> tr_revision t1 = tr_revision t"
proof -
  let ?m = "m\<lparr>msg_line_count := length (render_message alnum m)\<rparr>"
  let ?t1 = "t\<lparr>tr_messages := tr_messages t @ [?m]\<rparr>"
  have sp: "tr_splice ?t1 (length (tr_lines t)) (length (tr_lines t)) (render_message alnum m) = (pa, t')"
    using assms(2) by (simp add: push_message_def Let_def)
  then show "\<exists>t1. tr_splice t1 (length (tr_lines t)) (length (tr_lines t)) (render_message alnum m) = (pa, t')
      \<and> tr_lines t1 = tr_lines t \<and> tr_revision t1 = tr_revision t"
    by (intro exI [of _ ?t1]) simp
  have ms: "tr_messages t' = tr_messages t @ [?m]"
    using tr_splice_correct(5) [OF sp] by simp
  then show "tr_messages t' = tr_messages t @ [?m]" .
  show "tr_inv alnum t'"
    using tr_splice_correct(1) [OF sp] assms(1) ms by (simp add: tr_inv_def counted_def)
qed

text \<open>The code only ever rewrites the last message, the streaming one.\<close>

lemma set_last_message_step:
  assumes inv: "tr_inv alnum t" and i: "Suc index = length (tr_messages t)"
    and st: "set_message alnum t index m = (pa, t')"
  shows "tr_inv alnum t'"
    and "tr_messages t' = butlast (tr_messages t)
      @ [m\<lparr>msg_line_count := length (render_message alnum m)\<rparr>]"
    and "\<exists>t1 s. tr_splice t1 s (length (tr_lines t)) (render_message alnum m) = (pa, t')
      \<and> tr_lines t1 = tr_lines t \<and> tr_revision t1 = tr_revision t \<and> s \<le> length (tr_lines t)"
proof -
  let ?ms = "tr_messages t" and ?m = "m\<lparr>msg_line_count := length (render_message alnum m)\<rparr>"
  let ?t1 = "t\<lparr>tr_messages := ?ms[index := ?m]\<rparr>"
  let ?s = "length (concat (map (render_message alnum) (take index ?ms)))"
  have split: "?ms = take index ?ms @ [?ms ! index]"
    using i by (metis lessI take_Suc_conv_app_nth take_all_iff order.refl)
  have counted_all: "list_all (counted alnum) (take index ?ms @ [?ms ! index])"
    using inv split by (metis tr_inv_def)
  have count: "list_all (counted alnum) (take index ?ms)" "counted alnum (?ms ! index)"
    using counted_all by simp_all
  have lines: "tr_lines t = concat (map (render_message alnum) (take index ?ms))
      @ render_message alnum (?ms ! index)"
  proof -
    have "tr_lines t = concat (map (render_message alnum) (take index ?ms @ [?ms ! index]))"
      using inv split by (metis tr_inv_def)
    then show ?thesis by simp
  qed
  have e: "?s + msg_line_count (?ms ! index) = length (tr_lines t)"
    using count by (simp add: lines counted_def)
  have sp: "tr_splice ?t1 ?s (length (tr_lines t)) (render_message alnum m) = (pa, t')"
    using st e by (simp add: set_message_def Let_def sum_line_counts [OF count(1)])
  have le: "?s \<le> length (tr_lines t)"
    using e by simp
  show "\<exists>t1 s. tr_splice t1 s (length (tr_lines t)) (render_message alnum m) = (pa, t')
      \<and> tr_lines t1 = tr_lines t \<and> tr_revision t1 = tr_revision t \<and> s \<le> length (tr_lines t)"
    using sp le by (intro exI [of _ ?t1] exI [of _ ?s]) simp
  have b: "butlast ?ms = take index ?ms"
    using i by (simp add: butlast_conv_take flip: i)
  have "?ms[index := ?m] = take index ?ms @ [?m]"
    using i by (simp add: upd_conv_take_nth_drop)
  then have ms: "tr_messages t' = take index ?ms @ [?m]"
    using tr_splice_correct(5) [OF sp] le by simp
  then show "tr_messages t' = butlast ?ms @ [?m]"
    by (simp add: b)
  have "tr_lines t' = concat (map (render_message alnum) (take index ?ms)) @ render_message alnum m"
    using tr_splice_correct(1) [OF sp] le by (simp add: lines)
  then show "tr_inv alnum t'"
    using ms count(1) by (simp add: tr_inv_def counted_def)
qed

lemma replace_history_step:
  assumes "replace_history alnum t ms provider model = (pa, t')"
  shows "tr_inv alnum t'"
    and "\<exists>t1 new. tr_splice t1 0 (length (tr_lines t)) new = (pa, t')
      \<and> tr_lines t1 = tr_lines t \<and> tr_revision t1 = tr_revision t"
proof -
  let ?ms = "filter_map (history_message provider model) ms"
  let ?c = "map (\<lambda>m. m\<lparr>msg_line_count := length (render_message alnum m)\<rparr>) ?ms"
  let ?new = "concat (map (render_message alnum) ?ms)"
  have sp: "tr_splice (t\<lparr>tr_messages := ?c\<rparr>) 0 (length (tr_lines t)) ?new = (pa, t')"
    using assms by (simp add: replace_history_def Let_def)
  then show "\<exists>t1 new. tr_splice t1 0 (length (tr_lines t)) new = (pa, t')
      \<and> tr_lines t1 = tr_lines t \<and> tr_revision t1 = tr_revision t"
    by (intro exI [of _ "t\<lparr>tr_messages := ?c\<rparr>"] exI [of _ ?new]) simp
  have c: "concat (map (render_message alnum) ?c) = ?new" "list_all (counted alnum) ?c"
    by (simp_all add: comp_def list_all_iff counted_def)
  show "tr_inv alnum t'"
    using tr_splice_correct(1,5) [OF sp] c by (simp add: tr_inv_def)
qed

lemma streaming_assistant_last:
  "streaming_assistant t = Some i \<Longrightarrow> Suc i = length (tr_messages t)
    \<and> msg_role (tr_messages t ! i) = AssistantRole \<and> msg_streaming (tr_messages t ! i)"
  by (auto simp: streaming_assistant_def Let_def split: if_splits)

text \<open>Every operation that reports a patch performed one splice reaching the end of the lines.\<close>

definition spliced_end :: "Transcript \<Rightarrow> Patch \<Rightarrow> Transcript \<Rightarrow> bool" where
  "spliced_end t pa t' = (\<exists>t1 s new. tr_splice t1 s (length (tr_lines t)) new = (pa, t')
     \<and> tr_lines t1 = tr_lines t \<and> tr_revision t1 = tr_revision t \<and> s \<le> length (tr_lines t))"

lemma push_message_spliced:
  "tr_inv alnum t \<Longrightarrow> push_message alnum t m = (pa, t') \<Longrightarrow> tr_inv alnum t' \<and> spliced_end t pa t'"
  using push_message_step unfolding spliced_end_def by (metis order.refl)

lemma set_last_spliced:
  "tr_inv alnum t \<Longrightarrow> streaming_assistant t = Some i \<Longrightarrow> set_message alnum t i m = (pa, t') \<Longrightarrow>
   tr_inv alnum t' \<and> spliced_end t pa t'"
  using set_last_message_step streaming_assistant_last unfolding spliced_end_def by meson

lemma replace_history_spliced:
  "replace_history alnum t ms provider model = (pa, t') \<Longrightarrow> tr_inv alnum t' \<and> spliced_end t pa t'"
  using replace_history_step unfolding spliced_end_def by (metis le0)

lemma apfst_Some_eq: "apfst Some x = (Some a, b) \<longleftrightarrow> x = (a, b)" "apfst Some x = (None, b) \<longleftrightarrow> False"
  by (cases x; simp)+

lemma transcript_step_cases:
  assumes inv: "tr_inv alnum t" and st: "transcript_step alnum t op = (r, t')"
  shows "(r = None \<and> t' = t) \<or> (\<exists>pa. r = Some pa \<and> tr_inv alnum t' \<and> spliced_end t pa t')"
proof -
  note sps = push_message_spliced [OF inv] set_last_spliced [OF inv] replace_history_spliced
  show ?thesis
  proof (cases r)
    case None
    then show ?thesis
      using st by (cases op)
        (auto simp: apply_event_def apfst_Some_eq Let_def split: if_splits option.splits)
  next
    case (Some pa)
    then have "tr_inv alnum t' \<and> spliced_end t pa t'"
      using st by (cases op)
        (auto simp: apply_event_def push_user_def apfst_Some_eq Let_def dest: sps
          split: if_splits option.splits)
    with Some show ?thesis by blast
  qed
qed

section \<open>An editor that applies the patches\<close>

fun serve :: "('s \<Rightarrow> 'op \<Rightarrow> Patch option \<times> 's) \<Rightarrow> 's \<Rightarrow> 'op list \<Rightarrow> Patch list \<times> 's" where
  "serve step s [] = ([], s)"
| "serve step s (op # ops) =
    (let (r, s1) = step s op; (ps, s2) = serve step s1 ops in
     ((case r of None \<Rightarrow> ps | Some pa \<Rightarrow> pa # ps), s2))"

text \<open>The editor's side: a patch is applied when it continues the cached revision, else refused.\<close>

fun follow :: "u64 \<times> Line list \<Rightarrow> Patch list \<Rightarrow> (u64 \<times> Line list) option" where
  "follow (n, ls) [] = Some (n, ls)"
| "follow (n, ls) (pa # ps) =
    (if pa_revision pa = n + 1 then follow (pa_revision pa, apply_patch ls pa) ps else None)"

locale line_server =
  fixes step :: "'s \<Rightarrow> 'op \<Rightarrow> Patch option \<times> 's"
    and view :: "'s \<Rightarrow> Line list"
    and rev_no :: "'s \<Rightarrow> u64"
    and ok :: "'s \<Rightarrow> bool"
  assumes step_ok: "ok s \<Longrightarrow> step s op = (r, s') \<Longrightarrow> ok s'"
    and step_silent: "ok s \<Longrightarrow> step s op = (None, s') \<Longrightarrow> view s' = view s \<and> rev_no s' = rev_no s"
    and step_patch: "ok s \<Longrightarrow> step s op = (Some pa, s') \<Longrightarrow> view s' = apply_patch (view s) pa
      \<and> pa_revision pa = rev_no s + 1 \<and> rev_no s' = pa_revision pa"
begin

lemma follow_serve:
  "ok s \<Longrightarrow> serve step s ops = (ps, s') \<Longrightarrow> ok s' \<and> follow (rev_no s, view s) ps = Some (rev_no s', view s')"
proof (induction ops arbitrary: s ps s')
  case (Cons op ops)
  obtain r s1 where st: "step s op = (r, s1)" by (cases "step s op")
  obtain qs s2 where sv: "serve step s1 ops = (qs, s2)" by (cases "serve step s1 ops")
  have ok1: "ok s1"
    by (rule step_ok [OF Cons.prems(1) st])
  have IH: "ok s2 \<and> follow (rev_no s1, view s1) qs = Some (rev_no s2, view s2)"
    by (rule Cons.IH [OF ok1 sv])
  have r: "ps = (case r of None \<Rightarrow> qs | Some pa \<Rightarrow> pa # qs)" "s' = s2"
    using Cons.prems(2) by (simp_all add: st sv)
  show ?case
  proof (cases r)
    case None
    with step_silent [OF Cons.prems(1)] st IH r show ?thesis by auto
  next
    case (Some pa)
    with step_patch [OF Cons.prems(1)] st IH r show ?thesis by auto
  qed
qed simp

end

interpretation tr: line_server "transcript_step alnum" tr_lines tr_revision "tr_inv alnum" for alnum
proof unfold_locales
  fix s op r s' assume i: "tr_inv alnum s" and st: "transcript_step alnum s op = (r, s')"
  from transcript_step_cases [OF this] i show "tr_inv alnum s'" by blast
next
  fix s op s' assume i: "tr_inv alnum s" and st: "transcript_step alnum s op = (None, s')"
  from transcript_step_cases [OF this]
  show "tr_lines s' = tr_lines s \<and> tr_revision s' = tr_revision s" by blast
next
  fix s op pa s' assume i: "tr_inv alnum s" and st: "transcript_step alnum s op = (Some pa, s')"
  from transcript_step_cases [OF this] obtain t1 k new
    where sp: "tr_splice t1 k (length (tr_lines s)) new = (pa, s')"
      and t1: "tr_lines t1 = tr_lines s" "tr_revision t1 = tr_revision s" "k \<le> length (tr_lines s)"
    by (auto simp: spliced_end_def)
  from tr_splice_correct [OF sp t1(3)] t1
  show "tr_lines s' = apply_patch (tr_lines s) pa \<and> pa_revision pa = tr_revision s + 1
      \<and> tr_revision s' = pa_revision pa"
    by simp
qed

text \<open>
  C22.  The editor never drifts.  After any sequence of prompts, provider events and history
  replacements, the transcript's lines are exactly the rendering of its messages, and an editor
  that held the lines at the starting revision and applies the emitted patches, each only when it
  continues its revision, accepts every patch and ends with the same lines and revision.
\<close>

theorem patches_mirror_transcript:
  assumes "tr_inv alnum t" and "serve (transcript_step alnum) t ops = (patches, t')"
  shows "follow (tr_revision t, tr_lines t) patches = Some (tr_revision t', tr_lines t')
    \<and> tr_lines t' = concat (map (render_message alnum) (tr_messages t'))"
  using tr.follow_serve [OF assms] by (simp add: tr_inv_def)

definition delta_event :: "string \<Rightarrow> EventEnvelope" where
  "delta_event d = new_event ''now'' ''a'' Claude ''message.delta'' (jobj [(''delta'', JString d)]) JNull"

lemma jobj_one: "jobj [(k, v)] = JObject [(k, v)]"
  by (simp add: jobj_def obj_of_def)

lemma text_from_delta [simp]: "text_from (jobj [(''delta'', JString d)]) = Some d"
  by (simp add: text_from_def text_from_depth.simps [of _ 0] jobj_one)

theorem patches_mirror_transcript_witness:
  "\<exists>ps t'. serve (transcript_step (\<lambda>_. False)) tr_default
       [OpUser ''hi'', OpEvent (delta_event ''yo'') None] = (ps, t')
     \<and> follow (0, []) ps = Some (tr_revision t', tr_lines t')
     \<and> tr_lines t' = concat (map (render_message (\<lambda>_. False)) (tr_messages t'))"
proof -
  obtain ps t' where r: "serve (transcript_step (\<lambda>_. False)) tr_default
      [OpUser ''hi'', OpEvent (delta_event ''yo'') None] = (ps, t')"
    by fastforce
  show ?thesis
    using patches_mirror_transcript [OF tr_inv_default r] r by (auto simp: tr_default_def)
qed

text \<open>
  C34.  Patches are minimal.  Whenever an operation reports a patch, every other way to turn the old
  lines into the new ones by replacing one range (\<open>[s, e)\<close> by the lines \<open>r\<close>) replaces at least as
  many lines and sends at least as many.
\<close>

theorem patches_minimal:
  assumes "tr_inv alnum t" and "transcript_step alnum t op = (Some pa, t')"
    and "s \<le> e" and "e \<le> length (tr_lines t)"
    and "tr_lines t' = take s (tr_lines t) @ r @ drop e (tr_lines t)"
  shows "pa_end pa - pa_start pa \<le> e - s \<and> length (pa_lines pa) \<le> length r"
proof -
  from transcript_step_cases [OF assms(1,2)] obtain t1 k new
    where sp: "tr_splice t1 k (length (tr_lines t)) new = (pa, t')"
      and t1: "tr_lines t1 = tr_lines t" "k \<le> length (tr_lines t)"
    by (auto simp: spliced_end_def)
  show ?thesis
    using tr_splice_minimal [of t1 k new pa t' s e r] sp t1 assms(3-5) by simp
qed

theorem patches_minimal_witness:
  "\<exists>pa t'. transcript_step (\<lambda>_. False) tr_default (OpUser ''hi'') = (Some pa, t')
     \<and> pa_end pa - pa_start pa \<le> 0 - 0 \<and> length (pa_lines pa) \<le> length (tr_lines t')"
proof -
  obtain pa t' where r: "transcript_step (\<lambda>_. False) tr_default (OpUser ''hi'') = (Some pa, t')"
    by (cases "push_user (\<lambda>_. False) tr_default ''hi''") simp
  have "tr_lines t' = take 0 (tr_lines tr_default) @ tr_lines t' @ drop 0 (tr_lines tr_default)"
    by (simp add: tr_default_def)
  then show ?thesis
    using patches_minimal [OF tr_inv_default r, of 0 0 "tr_lines t'"] r by auto
qed

section \<open>Streaming\<close>

definition event_text :: "EventEnvelope \<Rightarrow> string" where
  "event_text e = unwrap_or [] (text_from (ev_payload e))"

definition after_events :: "(string \<Rightarrow> bool) \<Rightarrow> string option \<Rightarrow> Transcript \<Rightarrow> EventEnvelope list \<Rightarrow> Transcript" where
  "after_events alnum model t es = foldl (\<lambda>t e. snd (apply_event alnum t e model)) t es"

definition render_counted :: "(string \<Rightarrow> bool) \<Rightarrow> Message \<Rightarrow> Message" where
  "render_counted alnum m = m\<lparr>msg_line_count := length (render_message alnum m)\<rparr>"

lemma render_render_counted [simp]: "render_message alnum (render_counted alnum m) = render_message alnum m"
  by (simp add: render_counted_def)

definition streams :: "(string \<Rightarrow> bool) \<Rightarrow> Transcript \<Rightarrow> Message list \<Rightarrow> string \<Rightarrow> string \<Rightarrow> bool" where
  "streams alnum t ms label text = (tr_inv alnum t \<and>
     tr_messages t = ms @ [render_counted alnum (new_message AssistantRole (Some label) text True)])"

lemma streams_assistant:
  "streams alnum t ms label text \<Longrightarrow> streaming_assistant t = Some (length ms)"
  by (simp add: streams_def streaming_assistant_def render_counted_def new_message_def nth_append)

lemma streams_start:
  assumes "tr_inv alnum t" and "streaming_assistant t = None" and "ev_type e = ''message.delta''"
  shows "streams alnum (snd (apply_event alnum t e model)) (tr_messages t) (event_label e model) (event_text e)"
proof -
  let ?m = "new_message AssistantRole (Some (event_label e model)) (event_text e) True"
  obtain pa t' where p: "push_message alnum t ?m = (pa, t')" by fastforce
  then have "snd (apply_event alnum t e model) = t'"
    using assms by (simp add: apply_event_def event_text_def)
  with push_message_step(1,2) [OF assms(1) p] show ?thesis
    by (simp add: streams_def render_counted_def)
qed

lemma streams_set:
  assumes st: "streams alnum t ms label text" and s: "set_message alnum t (length ms) m = (pa, t')"
  shows "tr_inv alnum t'" and "tr_messages t' = ms @ [render_counted alnum m]"
proof -
  have i: "Suc (length ms) = length (tr_messages t)" and inv: "tr_inv alnum t"
    and b: "butlast (tr_messages t) = ms"
    using st by (simp_all add: streams_def)
  show "tr_inv alnum t'" "tr_messages t' = ms @ [render_counted alnum m]"
    using set_last_message_step(1,2) [OF inv i s] b by (simp_all add: render_counted_def)
qed

lemma new_message_upd [simp]:
  "(new_message r l t b)\<lparr>msg_text := t'\<rparr> = new_message r l t' b"
  "(new_message r l t b)\<lparr>msg_streaming := b'\<rparr> = new_message r l t b'"
  "msg_text (new_message r l t b) = t"
  by (simp_all add: new_message_def)

lemma render_counted_count [simp]:
  "render_counted alnum (m\<lparr>msg_line_count := n\<rparr>) = render_counted alnum m"
  by (simp add: render_counted_def)

lemma counted_new_upd [simp]:
  "(render_counted alnum (new_message r l t b))\<lparr>msg_text := x\<rparr>
    = (new_message r l x b)\<lparr>msg_line_count := length (render_message alnum (new_message r l t b))\<rparr>"
  "(render_counted alnum (new_message r l t b))\<lparr>msg_streaming := c\<rparr>
    = (new_message r l t c)\<lparr>msg_line_count := length (render_message alnum (new_message r l t b))\<rparr>"
  "(new_message r l t b)\<lparr>msg_line_count := n, msg_streaming := c\<rparr>
    = (new_message r l t c)\<lparr>msg_line_count := n\<rparr>"
  by (simp_all add: render_counted_def new_message_def)

lemma counted_new_text [simp]: "msg_text (render_counted alnum (new_message r l t b)) = t"
  by (simp add: render_counted_def new_message_def)

lemma streams_delta:
  assumes st: "streams alnum t ms label text" and ty: "ev_type e = ''message.delta''"
  shows "streams alnum (snd (apply_event alnum t e model)) ms label (text @ event_text e)"
proof (cases "event_text e = []")
  case True
  then show ?thesis
    using assms by (simp add: apply_event_def streams_assistant [OF st] event_text_def)
next
  case False
  let ?old = "render_counted alnum (new_message AssistantRole (Some label) text True)"
  let ?m = "?old\<lparr>msg_text := msg_text ?old @ event_text e\<rparr>"
  obtain pa t' where s: "set_message alnum t (length ms) ?m = (pa, t')" by fastforce
  have old: "tr_messages t ! length ms = ?old"
    using st by (simp add: streams_def)
  have "snd (apply_event alnum t e model) = t'"
    using ty False s by (simp add: apply_event_def streams_assistant [OF st] old event_text_def)
  then show ?thesis
    using streams_set [OF st s] by (simp add: streams_def)
qed

lemma streams_deltas:
  assumes "streams alnum t ms label text" and "\<forall>e\<in>set es. ev_type e = ''message.delta''"
  shows "streams alnum (after_events alnum model t es) ms label (text @ concat (map event_text es))"
  using assms
proof (induction es arbitrary: t "text")
  case (Cons e es)
  from Cons.IH [OF streams_delta [OF Cons.prems(1)]] Cons.prems(2)
  show ?case by (simp add: after_events_def)
qed (simp add: after_events_def)

definition final_text :: "string \<Rightarrow> EventEnvelope \<Rightarrow> string" where
  "final_text streamed e = (case text_from (ev_payload e) of
     None \<Rightarrow> streamed
   | Some tx \<Rightarrow> if length streamed \<le> length tx then tx else streamed)"

lemma streams_completed:
  fixes alnum :: "string \<Rightarrow> bool" and model :: "string option"
  assumes st: "streams alnum t ms label text" and ty: "ev_type e = ''message.completed''"
  defines "msg \<equiv> render_counted alnum (new_message AssistantRole (Some label) (final_text text e) False)"
  shows "tr_inv alnum (snd (apply_event alnum t e model))"
    and "tr_messages (snd (apply_event alnum t e model)) = ms @ [msg]"
proof -
  let ?old = "render_counted alnum (new_message AssistantRole (Some label) text True)"
  let ?m1 = "case text_from (ev_payload e) of None \<Rightarrow> ?old
    | Some tx \<Rightarrow> if length text \<le> length tx then ?old\<lparr>msg_text := tx\<rparr> else ?old"
  obtain pa t' where s: "set_message alnum t (length ms) (?m1\<lparr>msg_streaming := False\<rparr>) = (pa, t')"
    by fastforce
  have old: "tr_messages t ! length ms = ?old"
    using st by (simp add: streams_def)
  have t': "snd (apply_event alnum t e model) = t'"
    using ty s by (cases "text_from (ev_payload e)")
      (simp_all add: apply_event_def streams_assistant [OF st] old Let_def)
  have "render_counted alnum (?m1\<lparr>msg_streaming := False\<rparr>) = msg"
    by (auto simp: msg_def final_text_def split: option.splits)
  then show "tr_inv alnum (snd (apply_event alnum t e model))"
    and "tr_messages (snd (apply_event alnum t e model)) = ms @ [msg]"
    using streams_set [OF st s] by (simp_all add: t')
qed

text \<open>
  C35.  Streaming assembles the message.  From a transcript whose last message is not a streaming
  answer, one or more \<open>message.delta\<close> events followed by \<open>message.completed\<close> append exactly one
  finished assistant message: its label is chosen by the first delta, its text is the completed
  text if that is at least as long as the deltas put together and else their concatenation; every
  line rendered before stays as it was.
\<close>

theorem streamed_message:
  fixes alnum :: "string \<Rightarrow> bool" and model :: "string option"
  assumes "tr_inv alnum t" and "streaming_assistant t = None"
    and "\<forall>e\<in>set (first # rest). ev_type e = ''message.delta''"
    and "ev_type done_event = ''message.completed''"
  defines "msg \<equiv> render_counted alnum (new_message AssistantRole (Some (event_label first model))
      (final_text (concat (map event_text (first # rest))) done_event) False)"
  shows "tr_messages (after_events alnum model t (first # rest @ [done_event])) = tr_messages t @ [msg]
    \<and> tr_lines (after_events alnum model t (first # rest @ [done_event]))
        = tr_lines t @ render_message alnum msg"
proof -
  let ?t1 = "after_events alnum model (snd (apply_event alnum t first model)) rest"
  have st: "streams alnum ?t1 (tr_messages t) (event_label first model)
      (event_text first @ concat (map event_text rest))"
    using streams_deltas [OF streams_start [OF assms(1,2)]] assms(3) by simp
  have t': "after_events alnum model t (first # rest @ [done_event])
      = snd (apply_event alnum ?t1 done_event model)"
    by (simp add: after_events_def)
  show ?thesis
    using streams_completed [OF st assms(4), of model] assms(1)
    by (simp add: t' msg_def tr_inv_def)
qed

definition completed_event :: "string \<Rightarrow> EventEnvelope" where
  "completed_event d = new_event ''now'' ''a'' Claude ''message.completed'' (jobj [(''text'', JString d)]) JNull"

theorem streamed_message_witness:
  "\<exists>msg. tr_messages (after_events (\<lambda>_. False) None tr_default
        [delta_event ''a'', delta_event ''b'', completed_event ''abc'']) = [msg]
     \<and> msg_text msg = ''abc'' \<and> msg_label msg = Some ''Claude (default model)''"
proof -
  have tx: "text_from (jobj [(''text'', JString d)]) = Some d" for d
    by (simp add: text_from_def text_from_depth.simps [of _ 0] jobj_one)
  have lab: "event_label (delta_event ''a'') None = ''Claude (default model)''"
    by (simp add: event_label_def delta_event_def get_str_def default_label_def jobj_one)
  have "streaming_assistant tr_default = None"
    by (simp add: tr_default_def streaming_assistant_def)
  from streamed_message [OF tr_inv_default this, of "delta_event ''a''" "[delta_event ''b'']"
      "completed_event ''abc''" "\<lambda>_. False" None]
  show ?thesis
    by (auto simp: delta_event_def [of "''b''"] completed_event_def final_text_def tx event_text_def lab
        tr_default_def render_counted_def new_message_def)
       (auto simp: delta_event_def)
qed

text \<open>
  A user message pushed while an answer streams (steering) closes the streaming message without
  finishing it: the completion that follows is appended as a further message, and the earlier part
  keeps its streaming mark.
\<close>

lemma steering_leaves_streaming_mark:
  assumes st: "streams alnum t ms label text" and ty: "ev_type e = ''message.completed''"
    and tx: "text_from (ev_payload e) = Some full"
  shows "map msg_streaming (drop (length ms) (tr_messages
      (snd (apply_event alnum (snd (push_user alnum t steer)) e model)))) = [True, False, False]"
proof -
  have inv: "tr_inv alnum t"
    using st by (simp add: streams_def)
  obtain pa t1 where p: "push_message alnum t (new_message UserRole None steer False) = (pa, t1)"
    by fastforce
  have inv1: "tr_inv alnum t1"
    and ms1: "tr_messages t1 = ms @ [render_counted alnum (new_message AssistantRole (Some label) text True),
      render_counted alnum (new_message UserRole None steer False)]"
    using push_message_step(1,2) [OF inv p] st by (simp_all add: streams_def render_counted_def)
  have none: "streaming_assistant t1 = None"
    by (simp add: streaming_assistant_def ms1 nth_append render_counted_def new_message_def)
  obtain pa2 t2 where p2: "push_message alnum t1
      (new_message AssistantRole (Some (event_label e model)) full False) = (pa2, t2)"
    by fastforce
  have "snd (apply_event alnum t1 e model) = t2"
    using ty none tx p2 by (simp add: apply_event_def)
  moreover have "snd (push_user alnum t steer) = t1"
    using p by (simp add: push_user_def)
  ultimately show ?thesis
    using push_message_step(2) [OF inv1 p2] ms1 by (simp add: render_counted_def new_message_def)
qed

end
