(* ===== verification/Peer.thy ===== *)
theory Peer
  imports Framing Protocol
begin

text \<open>
  A provider process as its adapter sees it: the pipe it reads from, the pipe it writes to and the
  next request identifier (\<open>CodexAppServer\<close> and \<open>ClaudeWorker\<close> without the process handle).

  What the process will say is the reader, an arbitrary list of buffers; what it accepts is an
  optional budget of frames after which writing fails.  Both are arbitrary, so a lemma about a
  conversation covers every behaviour of the process.  The text form of a value belongs to
  \<open>serde_json\<close> and is a parameter, the codec; the values a decoder returns are the only thing
  the code relies on.
\<close>

record codec =
  cd_encode :: "json \<Rightarrow> string"
  cd_decode :: "string \<Rightarrow> json option"

record Peer =
  pr_reader :: reader
  pr_written :: "json list"
  pr_accepts :: "nat option"
  pr_next_id :: u64

definition peer_weight :: "Peer \<Rightarrow> nat" where
  "peer_weight s = reader_weight (pr_reader s)"

text \<open>\<open>write_all\<close> and \<open>flush\<close> on the pipe: all of the frame, or an error.\<close>

definition pipe_write :: "json \<Rightarrow> Peer \<Rightarrow> bool \<times> Peer" where
  "pipe_write m s =
    (if pr_accepts s = Some 0 then (False, s)
     else (True, s\<lparr>pr_written := pr_written s @ [m], pr_accepts := map_option (\<lambda>n. n - 1) (pr_accepts s)\<rparr>))"

lemma pipe_write_fields:
  assumes "pipe_write m s = (ok, s')"
  shows "pr_reader s' = pr_reader s" and "pr_next_id s' = pr_next_id s"
    and "pr_written s' = (if ok then pr_written s @ [m] else pr_written s)"
  using assms by (auto simp: pipe_write_def split: if_splits)

text \<open>A pipe that never breaks.\<close>

definition open_pipe :: "Peer \<Rightarrow> bool" where
  "open_pipe s = (pr_accepts s = None)"

lemma pipe_write_open: "open_pipe s \<Longrightarrow> pipe_write m s = (True, s\<lparr>pr_written := pr_written s @ [m]\<rparr>)"
  by (simp add: pipe_write_def open_pipe_def)

section \<open>What is written\<close>

definition writes_only :: "(json \<Rightarrow> bool) \<Rightarrow> Peer \<Rightarrow> Peer \<Rightarrow> bool" where
  "writes_only P p p' = (\<exists>new. pr_written p' = pr_written p @ new \<and> (\<forall>f\<in>set new. P f))"

lemma writes_only_refl: "pr_written p' = pr_written p \<Longrightarrow> writes_only P p p'"
  by (simp add: writes_only_def)

lemma writes_only_trans: "writes_only P p q \<Longrightarrow> writes_only P q r \<Longrightarrow> writes_only P p r"
  unfolding writes_only_def by (metis Un_iff append.assoc set_append)

end
