(* ===== verification/CodexAdapter.thy ===== *)
theory CodexAdapter
  imports Peer
begin

text \<open>
  The Codex App Server adapter, \<open>codex.rs\<close>: request and event framing over the process pipes,
  the safe default answers to server requests, the version gate and the normalisation of provider
  events.  Process spawning, the environment and the thread lock files are outside the model;
  \<open>resolve_program\<close> is a parameter.
\<close>

definition CODEX_COMPATIBILITY_PROFILE :: string where
  "CODEX_COMPATIBILITY_PROFILE = ''codex-app-server-stable-v1''"

definition CODEX_SCHEMA_BASELINE_VERSION :: string where
  "CODEX_SCHEMA_BASELINE_VERSION = ''0.152.0''"

definition CODEX_MAX_FRAME_BYTES :: nat where
  "CODEX_MAX_FRAME_BYTES = 8 * 1024 * 1024"

definition BROKER_VERSION :: string where
  "BROKER_VERSION = ''0.2.1''"

datatype ProviderEventKind = Notification | ServerRequest

record ProviderEvent =
  pe_kind :: ProviderEventKind
  pe_request_id :: "json option"
  pe_response_required :: bool
  pe_method :: string
  pe_params :: json

record RequestOutcome =
  ro_result :: json
  ro_events :: "ProviderEvent list"

datatype CodexError =
    CxIo | CxJson | CxFrameTooLarge | CxClosed | CxResponse int string | CxUnexpectedFrame
  | CxMissingField string | CxIncompatibleRuntime string | CxInvalidServerRequest

section \<open>The version gate\<close>

type_synonym version = "u64 \<times> u64 \<times> u64"

definition numeric_version :: "string \<Rightarrow> version option" where
  "numeric_version value =
    (let core = (case split_once ''-'' value of None \<Rightarrow> value | Some (c, _) \<Rightarrow> c) in
     case split_on (CHR ''.'') core of
       [a, b, c] \<Rightarrow>
         (case (parse_u64 a, parse_u64 b, parse_u64 c) of
            (Some major, Some minor, Some patch) \<Rightarrow> Some (major, minor, patch)
          | _ \<Rightarrow> None)
     | _ \<Rightarrow> None)"

fun version_less :: "version \<Rightarrow> version \<Rightarrow> bool" where
  "version_less (a, b, c) (x, y, z) = (a < x \<or> (a = x \<and> (b < y \<or> (b = y \<and> c < z))))"

definition trim_version :: "string \<Rightarrow> string" where
  "trim_version v =
    rev (dropWhile (\<lambda>c. \<not> is_ascii_alnum c \<and> c \<noteq> CHR ''.'' \<and> c \<noteq> CHR ''-'') (rev v))"

definition user_agent_version :: "string \<Rightarrow> string option" where
  "user_agent_version user_agent =
    filter_opt (\<lambda>v. v \<noteq> [])
      (map_option trim_version
        (Option.bind (map_option snd (split_once ''/'' user_agent))
          (\<lambda>version. case split_whitespace version of [] \<Rightarrow> None | w # _ \<Rightarrow> Some w)))"

definition codex_runtime_identity ::
  "(string \<Rightarrow> string option) \<Rightarrow> string \<Rightarrow> json \<Rightarrow> CodexError + ProviderRuntime" where
  "codex_runtime_identity resolve program initialize =
    (case get_str ''userAgent'' initialize of
       None \<Rightarrow> Inl (CxMissingField ''userAgent'')
     | Some user_agent \<Rightarrow>
         (case user_agent_version user_agent of
            None \<Rightarrow> Inl (CxMissingField ''userAgent version'')
          | Some version \<Rightarrow>
              (case numeric_version version of
                 None \<Rightarrow> Inl (CxIncompatibleRuntime version)
               | Some current \<Rightarrow>
                   if version_less current (the (numeric_version CODEX_SCHEMA_BASELINE_VERSION))
                   then Inl (CxIncompatibleRuntime version)
                   else Inr \<lparr>rt_compatibility_profile = CODEX_COMPATIBILITY_PROFILE,
                             rt_provider_version = version, rt_adapter_version = None,
                             rt_executable = resolve program\<rparr>)))"

section \<open>Frames\<close>

definition codex_write :: "codec \<Rightarrow> json \<Rightarrow> Peer \<Rightarrow> (CodexError + unit) \<times> Peer" where
  "codex_write cd message s =
    (if length (cd_encode cd message) > CODEX_MAX_FRAME_BYTES then (Inl CxFrameTooLarge, s)
     else (case pipe_write message s of
         (True, s') \<Rightarrow> (Inr (), s')
       | (False, s') \<Rightarrow> (Inl CxIo, s')))"

definition codex_read :: "codec \<Rightarrow> Peer \<Rightarrow> (CodexError + json) \<times> Peer" where
  "codex_read cd s =
    (case read_bounded_line CODEX_MAX_FRAME_BYTES (pr_reader s) of
       None \<Rightarrow> (Inl CxIo, s\<lparr>pr_reader := after_error (pr_reader s)\<rparr>)
     | Some (Closed, r) \<Rightarrow> (Inl CxClosed, s\<lparr>pr_reader := r\<rparr>)
     | Some (TooLarge, r) \<Rightarrow> (Inl CxFrameTooLarge, s\<lparr>pr_reader := r\<rparr>)
     | Some (Data frame, r) \<Rightarrow>
         ((case cd_decode cd (strip_line_end frame) of
             None \<Rightarrow> Inl CxJson
           | Some value \<Rightarrow> if is_object value then Inr value else Inl CxUnexpectedFrame),
          s\<lparr>pr_reader := r\<rparr>))"

definition codex_notify :: "codec \<Rightarrow> string \<Rightarrow> json \<Rightarrow> Peer \<Rightarrow> (CodexError + unit) \<times> Peer" where
  "codex_notify cd method params s =
    codex_write cd (jobj [(''method'', JString method), (''params'', params)]) s"

definition parse_event_or_request :: "json \<Rightarrow> CodexError + ProviderEvent" where
  "parse_event_or_request message =
    (case get_str ''method'' message of
       None \<Rightarrow> Inl CxUnexpectedFrame
     | Some method \<Rightarrow>
         if method = [] then Inl CxUnexpectedFrame
         else
           (let params = unwrap_or (jobj []) (jget ''params'' message);
                request_id = jget ''id'' message in
            if \<not> is_object params then Inl CxUnexpectedFrame
            else if some_and (\<lambda>i. \<not> (is_string i \<or> as_i64 i \<noteq> None \<or> as_u64 i \<noteq> None)) request_id
            then Inl CxUnexpectedFrame
            else Inr \<lparr>pe_kind = (if request_id \<noteq> None then ServerRequest else Notification),
                      pe_request_id = request_id, pe_response_required = (request_id \<noteq> None),
                      pe_method = method, pe_params = params\<rparr>))"

definition unanswered_request_id :: "ProviderEvent \<Rightarrow> CodexError + json" where
  "unanswered_request_id event =
    (if pe_kind event \<noteq> ServerRequest \<or> \<not> pe_response_required event then Inl CxInvalidServerRequest
     else (case pe_request_id event of None \<Rightarrow> Inl CxInvalidServerRequest | Some i \<Rightarrow> Inr i))"

definition safe_server_request_response :: "string \<Rightarrow> string + json" where
  "safe_server_request_response method =
    (if method = ''item/commandExecution/requestApproval'' \<or> method = ''item/fileChange/requestApproval''
        \<or> method = ''execCommandApproval'' \<or> method = ''applyPatchApproval''
     then Inr (jobj [(''decision'', JString ''decline'')])
     else Inl ''unsupported server request denied by Agent Manager'')"

definition codex_response_error :: "json \<Rightarrow> CodexError" where
  "codex_response_error error =
    CxResponse (unwrap_or (- 32000) (Option.bind (jget ''code'' error) as_i64))
      (unwrap_or ''unknown Codex App Server error'' (get_str ''message'' error))"

definition respond_server_request ::
  "codec \<Rightarrow> ProviderEvent \<Rightarrow> json \<Rightarrow> Peer \<Rightarrow> (CodexError + ProviderEvent) \<times> Peer" where
  "respond_server_request cd event result s =
    (case unanswered_request_id event of
       Inl e \<Rightarrow> (Inl e, s)
     | Inr i \<Rightarrow>
         (case codex_write cd (jobj [(''id'', i), (''result'', result)]) s of
            (Inl e, s') \<Rightarrow> (Inl e, s')
          | (Inr _, s') \<Rightarrow> (Inr (event\<lparr>pe_response_required := False\<rparr>), s')))"

definition denial_frame :: "string \<Rightarrow> json \<Rightarrow> json" where
  "denial_frame method i =
    (case safe_server_request_response method of
       Inr result \<Rightarrow> jobj [(''id'', i), (''result'', result)]
     | Inl error \<Rightarrow> jobj [(''id'', i),
         (''error'', jobj [(''code'', jint (- 32601)), (''message'', JString error)])])"

definition deny_server_request ::
  "codec \<Rightarrow> ProviderEvent \<Rightarrow> Peer \<Rightarrow> (CodexError + ProviderEvent) \<times> Peer" where
  "deny_server_request cd event s =
    (case unanswered_request_id event of
       Inl e \<Rightarrow> (Inl e, s)
     | Inr i \<Rightarrow>
         (case codex_write cd (denial_frame (pe_method event) i) s of
            (Inl e, s') \<Rightarrow> (Inl e, s')
          | (Inr _, s') \<Rightarrow> (Inr (event\<lparr>pe_response_required := False\<rparr>), s')))"

definition next_event :: "codec \<Rightarrow> Peer \<Rightarrow> (CodexError + ProviderEvent) \<times> Peer" where
  "next_event cd s =
    (case codex_read cd s of
       (Inl e, s') \<Rightarrow> (Inl e, s')
     | (Inr message, s') \<Rightarrow> (parse_event_or_request message, s'))"

section \<open>Requests\<close>

lemma codex_write_reader: "codex_write cd m s = (r, s') \<Longrightarrow> pr_reader s' = pr_reader s"
  by (auto simp: codex_write_def pipe_write_def split: if_splits)

lemma deny_reader: "deny_server_request cd e s = (r, s') \<Longrightarrow> pr_reader s' = pr_reader s"
  by (auto simp: deny_server_request_def dest: codex_write_reader split: sum.splits prod.splits)

lemma codex_read_weight:
  "codex_read cd s = (Inr m, s') \<Longrightarrow> peer_weight s' < peer_weight s"
  by (auto simp: codex_read_def peer_weight_def dest: read_bounded_line_weight
      split: option.splits prod.splits BoundedFrame.splits if_splits)

definition is_response_to :: "u64 \<Rightarrow> json \<Rightarrow> bool" where
  "is_response_to request_id message =
    (Option.bind (jget ''id'' message) as_u64 = Some request_id \<and> jget ''method'' message = None)"

definition response_value :: "json \<Rightarrow> CodexError + json" where
  "response_value message = (case jget ''error'' message of
     Some error \<Rightarrow> Inl (codex_response_error error)
   | None \<Rightarrow> (case jget ''result'' message of None \<Rightarrow> Inl (CxMissingField ''result'') | Some r \<Rightarrow> Inr r))"

text \<open>The reading loop of \<open>request\<close>; every round consumes a frame.\<close>

function codex_await ::
  "codec \<Rightarrow> u64 \<Rightarrow> ProviderEvent list \<Rightarrow> Peer \<Rightarrow> (CodexError + RequestOutcome) \<times> Peer" where
  "codex_await cd request_id events s =
    (case codex_read cd s of
       (Inl e, s1) \<Rightarrow> (Inl e, s1)
     | (Inr message, s1) \<Rightarrow>
         if is_response_to request_id message then
           (case response_value message of
              Inl e \<Rightarrow> (Inl e, s1)
            | Inr result \<Rightarrow> (Inr \<lparr>ro_result = result, ro_events = events\<rparr>, s1))
         else
           (case parse_event_or_request message of
              Inl e \<Rightarrow> (Inl e, s1)
            | Inr event \<Rightarrow>
                if pe_response_required event then
                  (case deny_server_request cd event s1 of
                     (Inl e, s2) \<Rightarrow> (Inl e, s2)
                   | (Inr event1, s2) \<Rightarrow> codex_await cd request_id (events @ [event1]) s2)
                else codex_await cd request_id (events @ [event]) s1))"
  by pat_completeness auto
termination
proof (relation "measure (\<lambda>(cd, rid, events, s). peer_weight s)", goal_cases)
  case (2 cd request_id events s x y message event xa ya event1)
  then show ?case
    using codex_read_weight [of cd s message y] deny_reader [of cd event y xa ya]
    by (simp add: peer_weight_def)
next
  case (3 cd request_id events s x y message event)
  then show ?case
    using codex_read_weight [of cd s message y] by simp
qed simp

declare codex_await.simps [simp del]

definition codex_request_frame :: "u64 \<Rightarrow> string \<Rightarrow> json \<Rightarrow> json" where
  "codex_request_frame request_id method params =
    jobj [(''id'', ju64 request_id), (''method'', JString method), (''params'', params)]"

definition codex_request ::
  "codec \<Rightarrow> string \<Rightarrow> json \<Rightarrow> Peer \<Rightarrow> (CodexError + RequestOutcome) \<times> Peer" where
  "codex_request cd method params s =
    (let request_id = pr_next_id s in
     case checked_add1 (pr_next_id s) of
       None \<Rightarrow> (Inl CxUnexpectedFrame, s)
     | Some nxt \<Rightarrow>
         (case codex_write cd (codex_request_frame request_id method params) (s\<lparr>pr_next_id := nxt\<rparr>) of
            (Inl e, s1) \<Rightarrow> (Inl e, s1)
          | (Inr _, s1) \<Rightarrow> codex_await cd request_id [] s1))"

text \<open>Each provider operation is one request.\<close>

definition ju32 :: "u32 \<Rightarrow> json" where
  "ju32 n = JNum (PosInt (ucast n))"

definition codex_initialize :: "codec \<Rightarrow> Peer \<Rightarrow> (CodexError + json) \<times> Peer" where
  "codex_initialize cd s =
    (case codex_request cd ''initialize''
        (jobj [(''clientInfo'', jobj [(''name'', JString ''agent_manager''),
                  (''title'', JString ''Agent Manager''), (''version'', JString BROKER_VERSION)]),
               (''capabilities'', jobj [(''experimentalApi'', JBool False)])]) s of
       (Inl e, s1) \<Rightarrow> (Inl e, s1)
     | (Inr outcome, s1) \<Rightarrow>
         (case codex_notify cd ''initialized'' (jobj []) s1 of
            (Inl e, s2) \<Rightarrow> (Inl e, s2)
          | (Inr _, s2) \<Rightarrow> (Inr (ro_result outcome), s2)))"

definition list_threads where
  "list_threads cd cursor (limit :: u32) s = codex_request cd ''thread/list''
     (jobj [(''cursor'', jopt JString cursor), (''limit'', ju32 limit),
            (''sortKey'', JString ''updated_at''), (''sortDirection'', JString ''desc'')]) s"

definition list_threads_for_directory where
  "list_threads_for_directory cd cwd cursor (limit :: u32) s = codex_request cd ''thread/list''
     (jobj [(''cwd'', JString cwd), (''cursor'', jopt JString cursor), (''limit'', ju32 limit),
            (''sortKey'', JString ''updated_at''), (''sortDirection'', JString ''desc'')]) s"

definition list_models where
  "list_models cd cursor (limit :: u32) s = codex_request cd ''model/list''
     (jobj [(''cursor'', jopt JString cursor), (''includeHidden'', JBool False), (''limit'', ju32 limit)]) s"

definition start_thread where
  "start_thread cd cwd model s = codex_request cd ''thread/start''
     (jobj [(''cwd'', JString cwd), (''model'', jopt JString model),
            (''approvalPolicy'', JString ''on-request''), (''ephemeral'', JBool False)]) s"

definition resume_thread where
  "resume_thread cd thread cwd model s = codex_request cd ''thread/resume''
     (jobj [(''threadId'', JString thread), (''cwd'', JString cwd), (''model'', jopt JString model),
            (''approvalPolicy'', JString ''on-request'')]) s"

definition fork_thread where
  "fork_thread cd thread cwd model s = codex_request cd ''thread/fork''
     (jobj [(''threadId'', JString thread), (''cwd'', JString cwd), (''model'', jopt JString model),
            (''approvalPolicy'', JString ''on-request''), (''ephemeral'', JBool False)]) s"

definition read_thread where
  "read_thread cd thread s = codex_request cd ''thread/read''
     (jobj [(''threadId'', JString thread), (''includeTurns'', JBool True)]) s"

definition delete_thread where
  "delete_thread cd thread s = codex_request cd ''thread/delete'' (jobj [(''threadId'', JString thread)]) s"

definition text_input :: "string \<Rightarrow> json" where
  "text_input prompt = JArray [jobj [(''type'', JString ''text''), (''text'', JString prompt)]]"

definition start_turn where
  "start_turn cd thread prompt model effort s = codex_request cd ''turn/start''
     (jobj [(''threadId'', JString thread), (''input'', text_input prompt),
            (''model'', jopt JString model), (''effort'', jopt JString effort)]) s"

definition codex_steer where
  "codex_steer cd thread turn prompt s = codex_request cd ''turn/steer''
     (jobj [(''threadId'', JString thread), (''expectedTurnId'', JString turn),
            (''input'', text_input prompt)]) s"

definition interrupt_with_events where
  "interrupt_with_events cd thread turn s = codex_request cd ''turn/interrupt''
     (jobj [(''threadId'', JString thread), (''turnId'', JString turn)]) s"

definition thread_id :: "json \<Rightarrow> string option" where
  "thread_id result = Option.bind (jget ''thread'' result) (get_str ''id'')"

definition turn_id :: "json \<Rightarrow> string option" where
  "turn_id result = Option.bind (jget ''turn'' result) (get_str ''id'')"

section \<open>Normalisation\<close>

definition is_tool_item :: "string \<Rightarrow> bool" where
  "is_tool_item t = (t \<in> {''commandExecution'', ''mcpToolCall'', ''dynamicToolCall'',
     ''collabAgentToolCall'', ''subAgentActivity'', ''webSearch'', ''imageView'', ''sleep'',
     ''imageGeneration''})"

definition item_lifecycle_event :: "json \<Rightarrow> bool \<Rightarrow> string" where
  "item_lifecycle_event params started =
    (case as_str (jindex (jindex params ''item'') ''type'') of
       None \<Rightarrow> ''provider.notice''
     | Some t \<Rightarrow>
         if t = ''userMessage'' \<or> t = ''agentMessage'' then
           (if started then ''message.started'' else ''message.completed'')
         else if is_tool_item t then (if started then ''tool.started'' else ''tool.completed'')
         else if t = ''fileChange'' then ''file.changed''
         else if t = ''contextCompaction'' then ''context.compacted''
         else ''provider.notice'')"

definition is_codex_approval :: "string \<Rightarrow> bool" where
  "is_codex_approval method = (method \<in> {''item/commandExecution/requestApproval'',
     ''item/fileChange/requestApproval'', ''item/permissions/requestApproval'',
     ''execCommandApproval'', ''applyPatchApproval''})"

definition normalized_event_type :: "string \<Rightarrow> json \<Rightarrow> string" where
  "normalized_event_type method params =
    (if method \<in> {''thread/started'', ''thread/status/changed'', ''thread/closed'',
         ''thread/archived'', ''thread/unarchived''} then ''agent.state_changed''
     else if method = ''turn/started'' then ''turn.started''
     else if method = ''turn/completed'' then
       (if jindex (jindex params ''turn'') ''status'' = JString ''failed'' then ''turn.failed''
        else ''turn.completed'')
     else if method = ''item/started'' then item_lifecycle_event params True
     else if method = ''item/completed'' then item_lifecycle_event params False
     else if method = ''item/agentMessage/delta'' then ''message.delta''
     else if method \<in> {''item/commandExecution/outputDelta'', ''item/mcpToolCall/progress'',
         ''command/exec/outputDelta'', ''process/outputDelta''} then ''tool.progress''
     else if method = ''process/exited'' then ''tool.completed''
     else if method \<in> {''item/fileChange/outputDelta'', ''item/fileChange/patchUpdated'',
         ''fs/changed''} then ''file.changed''
     else if method = ''turn/diff/updated'' \<or> method = ''thread/reverted'' then ''diff.changed''
     else if method = ''thread/tokenUsage/updated'' \<or> method = ''account/rateLimits/updated''
       then ''usage.updated''
     else if method = ''thread/compacted'' then ''context.compacted''
     else if is_codex_approval method then ''approval.requested''
     else if method = ''item/tool/requestUserInput'' then ''question.requested''
     else if method = ''error'' then ''turn.failed''
     else if method \<in> {''warning'', ''configWarning'', ''guardianWarning'',
         ''windows/worldWritableWarning''} then ''broker.warning''
     else ''provider.notice'')"

definition normalize_event :: "string \<Rightarrow> string \<Rightarrow> ProviderEvent \<Rightarrow> EventEnvelope" where
  "normalize_event now agent_id event =
    new_event now agent_id Codex (normalized_event_type (pe_method event) (pe_params event))
      (pe_params event)
      (jobj [(''kind'', JString (case pe_kind event of Notification \<Rightarrow> ''notification''
                                                     | ServerRequest \<Rightarrow> ''request'')),
             (''request_id'', jopt id (pe_request_id event)),
             (''response_required'', JBool (pe_response_required event)),
             (''method'', JString (pe_method event)), (''params'', pe_params event)])"

section \<open>What a request writes\<close>

lemma parse_event_required:
  "parse_event_or_request m = Inr e \<Longrightarrow>
   pe_response_required e = (pe_kind e = ServerRequest) \<and> (pe_kind e = ServerRequest \<longleftrightarrow> pe_request_id e \<noteq> None)"
  by (auto simp: parse_event_or_request_def Let_def split: option.splits if_splits)

lemma codex_write_ok:
  "codex_write cd m s = (Inr u, s') \<Longrightarrow>
   pr_written s' = pr_written s @ [m] \<and> pr_next_id s' = pr_next_id s \<and> pr_reader s' = pr_reader s"
  by (auto simp: codex_write_def pipe_write_def split: if_splits)

lemma deny_ok:
  "deny_server_request cd e s = (Inr e', s') \<Longrightarrow>
   e' = e\<lparr>pe_response_required := False\<rparr> \<and> pr_next_id s' = pr_next_id s
   \<and> pr_written s' = pr_written s @ [denial_frame (pe_method e) (the (pe_request_id e))]"
  by (auto simp: deny_server_request_def unanswered_request_id_def dest: codex_write_ok
      split: sum.splits prod.splits if_splits option.splits)

lemma codex_read_keeps:
  "codex_read cd s = (r, s') \<Longrightarrow> pr_written s' = pr_written s \<and> pr_next_id s' = pr_next_id s"
  by (auto simp: codex_read_def split: option.splits prod.splits BoundedFrame.splits)

definition denials :: "ProviderEvent list \<Rightarrow> json list" where
  "denials events = map (\<lambda>e. denial_frame (pe_method e) (the (pe_request_id e)))
     (filter (\<lambda>e. pe_kind e = ServerRequest) events)"

lemma codex_await_ok:
  assumes "codex_await cd rid events s = (Inr out, s')"
    and "\<forall>e\<in>set events. \<not> pe_response_required e"
  shows "\<exists>new. ro_events out = events @ new \<and> (\<forall>e\<in>set (ro_events out). \<not> pe_response_required e)
    \<and> pr_written s' = pr_written s @ denials new \<and> pr_next_id s' = pr_next_id s"
  using assms
proof (induction cd rid events s rule: codex_await.induct)
  case (1 cd rid events s)
  obtain m s1 where rd: "codex_read cd s = (Inr m, s1)"
    using 1(3) by (subst (asm) codex_await.simps) (auto split: sum.splits prod.splits)
  have keep: "pr_written s1 = pr_written s" "pr_next_id s1 = pr_next_id s"
    using codex_read_keeps [OF rd] by simp_all
  show ?case
  proof (cases "is_response_to rid m")
    case True
    then show ?thesis
      using 1(3,4) rd keep
      by (subst (asm) codex_await.simps) (auto simp: denials_def split: sum.splits)
  next
    case False
    obtain ev where ev: "parse_event_or_request m = Inr ev"
      using 1(3) rd False by (subst (asm) codex_await.simps) (auto split: sum.splits)
    note pe = parse_event_required [OF ev]
    show ?thesis
    proof (cases "pe_response_required ev")
      case True
      then obtain ev1 s2 where d: "deny_server_request cd ev s1 = (Inr ev1, s2)"
        and r: "codex_await cd rid (events @ [ev1]) s2 = (Inr out, s')"
        using 1(3) rd False ev by (subst (asm) codex_await.simps) (auto split: sum.splits prod.splits)
      note ok = deny_ok [OF d]
      from 1(1) [OF rd [symmetric] refl False ev True d [symmetric] refl r] 1(4) ok
      obtain new where new: "ro_events out = (events @ [ev1]) @ new"
        "\<forall>e\<in>set (ro_events out). \<not> pe_response_required e"
        "pr_written s' = pr_written s2 @ denials new" "pr_next_id s' = pr_next_id s2"
        by auto
      have "denials (ev1 # new) = denial_frame (pe_method ev) (the (pe_request_id ev)) # denials new"
        using ok True pe by (simp add: denials_def)
      then show ?thesis
        using new ok keep by (intro exI [of _ "ev1 # new"]) simp
    next
      case nr: False
      then have r: "codex_await cd rid (events @ [ev]) s1 = (Inr out, s')"
        using 1(3) rd False ev by (subst (asm) codex_await.simps) (auto split: sum.splits prod.splits)
      from 1(2) [OF rd [symmetric] refl False ev nr r] 1(4) nr
      obtain new where new: "ro_events out = (events @ [ev]) @ new"
        "\<forall>e\<in>set (ro_events out). \<not> pe_response_required e"
        "pr_written s' = pr_written s1 @ denials new" "pr_next_id s' = pr_next_id s1"
        by auto
      have "denials (ev # new) = denials new"
        using nr pe by (simp add: denials_def)
      then show ?thesis
        using new keep by (intro exI [of _ "ev # new"]) simp
    qed
  qed
qed

section \<open>What a request may write\<close>

lemma codex_write_only: "codex_write cd m p = (r, p') \<Longrightarrow> P m \<Longrightarrow> writes_only P p p'"
  by (auto simp: codex_write_def pipe_write_def writes_only_def split: if_splits)

lemma deny_server_request_only:
  assumes "\<And>method i. P (denial_frame method i)" and "deny_server_request cd e p = (r, p')"
  shows "writes_only P p p'"
  using assms(2) by (auto simp: deny_server_request_def intro: writes_only_refl
      dest: codex_write_only [where P = P, OF _ assms(1)] split: sum.splits prod.splits)

lemma codex_await_only:
  assumes denied: "\<And>method i. P (denial_frame method i)"
  shows "codex_await cd rid events p = (r, p') \<Longrightarrow> writes_only P p p'"
proof (induction cd rid events p rule: codex_await.induct)
  case (1 cd rid events p)
  obtain x p1 where rd: "codex_read cd p = (x, p1)" by fastforce
  have h1: "writes_only P p p1"
    using codex_read_keeps [OF rd] by (simp add: writes_only_refl)
  show ?case
  proof (cases "\<exists>m ev. x = Inr m \<and> \<not> is_response_to rid m \<and> parse_event_or_request m = Inr ev")
    case False
    then have "p' = p1"
      using 1(3) rd by (subst (asm) codex_await.simps) (auto split: sum.splits if_splits)
    with h1 show ?thesis by simp
  next
    case True
    then obtain m ev where x: "x = Inr m" "\<not> is_response_to rid m" "parse_event_or_request m = Inr ev"
      by blast
    show ?thesis
    proof (cases "pe_response_required ev")
      case False
      then have "codex_await cd rid (events @ [ev]) p1 = (r, p')"
        using 1(3) rd x by (subst (asm) codex_await.simps) simp
      with 1(2) [OF rd [symmetric] x False] h1 show ?thesis
        by (blast intro: writes_only_trans)
    next
      case req: True
      obtain y p2 where d: "deny_server_request cd ev p1 = (y, p2)" by fastforce
      have h2: "writes_only P p p2"
        using writes_only_trans [OF h1 deny_server_request_only [where P = P, OF denied d]] .
      show ?thesis
      proof (cases y)
        case (Inl e)
        then have "p' = p2"
          using 1(3) rd x req d by (subst (asm) codex_await.simps) simp
        with h2 show ?thesis by simp
      next
        case (Inr ev1)
        then have "codex_await cd rid (events @ [ev1]) p2 = (r, p')"
          using 1(3) rd x req d by (subst (asm) codex_await.simps) simp
        with 1(1) [OF rd [symmetric] x req d [symmetric] Inr] h2 show ?thesis
          by (blast intro: writes_only_trans)
      qed
    qed
  qed
qed

lemma codex_request_only:
  assumes "\<And>method i. P (denial_frame method i)" and "\<And>i. P (codex_request_frame i method params)"
    and "codex_request cd method params p = (r, p')"
  shows "writes_only P p p'"
proof (cases "checked_add1 (pr_next_id p)")
  case None
  with assms show ?thesis by (auto simp: codex_request_def intro: writes_only_refl)
next
  case (Some nxt)
  obtain x p1 where w: "codex_write cd (codex_request_frame (pr_next_id p) method params)
      (p\<lparr>pr_next_id := nxt\<rparr>) = (x, p1)" by fastforce
  have h: "writes_only P p p1"
    using codex_write_only [where P = P, OF w assms(2)] by (simp add: writes_only_def)
  show ?thesis
    using assms(3) Some w h
    by (auto simp: codex_request_def Let_def dest: codex_await_only [where P = P, OF assms(1)]
        intro: writes_only_trans split: sum.splits)
qed

lemma denial_frame_refuses:
  "jget ''result'' (denial_frame method i) \<in> {None, Some (jobj [(''decision'', JString ''decline'')])}"
  by (auto simp: denial_frame_def safe_server_request_response_def jget_jobj)


text \<open>A conversation with an approval request in the middle of a reply.\<close>

definition sample_approval :: json where
  "sample_approval = jobj [(''id'', jnat 7), (''method'', JString ''applyPatchApproval'')]"

definition sample_reply :: json where
  "sample_reply = jobj [(''id'', jnat 1), (''result'', JNull)]"

definition sample_codec :: codec where
  "sample_codec = \<lparr>cd_encode = \<lambda>_. [],
     cd_decode = \<lambda>f. if f = ''a'' then Some sample_approval else if f = ''r'' then Some sample_reply else None\<rparr>"

definition sample_peer :: Peer where
  "sample_peer = \<lparr>pr_reader = [Some [CHR ''a'', newline], Some [CHR ''r'', newline]], pr_written = [],
     pr_accepts = None, pr_next_id = 1\<rparr>"

definition sample_event_approval :: ProviderEvent where
  "sample_event_approval = \<lparr>pe_kind = ServerRequest, pe_request_id = Some (jnat 7),
     pe_response_required = False, pe_method = ''applyPatchApproval'', pe_params = jobj []\<rparr>"

lemma codex_next_frame:
  "pr_reader s = Some (d @ [newline]) # rest \<Longrightarrow> newline \<notin> set d \<Longrightarrow> length d \<le> CODEX_MAX_FRAME_BYTES \<Longrightarrow>
   d \<noteq> [] \<Longrightarrow> last d \<noteq> CHR 0x0D \<Longrightarrow> cd_decode cd d = Some v \<Longrightarrow> is_object v \<Longrightarrow>
   codex_read cd s = (Inr v, s\<lparr>pr_reader := rest\<rparr>)"
proof -
  assume a: "pr_reader s = Some (d @ [newline]) # rest" "newline \<notin> set d"
    "length d \<le> CODEX_MAX_FRAME_BYTES" "d \<noteq> []" "last d \<noteq> CHR 0x0D"
    "cd_decode cd d = Some v" "is_object v"
  have "position newline (d @ [newline]) = Some (length d)"
    using a(2) by (induction d) auto
  moreover have "last d \<noteq> newline"
    using a(2,4) last_in_set by metis
  then have "strip_line_end (d @ [newline]) = d"
    using a(4,5) by (cases d rule: rev_cases) (simp_all add: strip_line_end_def)
  ultimately show ?thesis
    using a by (simp add: codex_read_def read_bounded_line_def Let_def)
qed

lemma sample_conversation:
  "\<exists>s'. codex_request sample_codec ''turn/start'' JNull sample_peer
     = (Inr \<lparr>ro_result = JNull, ro_events = [sample_event_approval]\<rparr>, s')"
proof -
  let ?f = "codex_request_frame 1 ''turn/start'' JNull"
  let ?s1 = "sample_peer\<lparr>pr_next_id := 2, pr_written := [?f]\<rparr>"
  let ?s2 = "?s1\<lparr>pr_reader := [Some [CHR ''r'', newline]]\<rparr>"
  let ?s3 = "?s2\<lparr>pr_written := [?f, denial_frame ''applyPatchApproval'' (jnat 7)]\<rparr>"
  have r1: "codex_read sample_codec ?s1 = (Inr sample_approval, ?s2)"
    using codex_next_frame [of ?s1 "''a''" "[Some [CHR ''r'', newline]]" sample_codec sample_approval]
    by (simp add: sample_peer_def sample_codec_def sample_approval_def jobj_def is_object_def CODEX_MAX_FRAME_BYTES_def)
  have r3: "codex_read sample_codec ?s3 = (Inr sample_reply, ?s3\<lparr>pr_reader := []\<rparr>)"
    using codex_next_frame [of ?s3 "''r''" "[]" sample_codec sample_reply]
    by (simp add: sample_peer_def sample_codec_def sample_reply_def jobj_def is_object_def CODEX_MAX_FRAME_BYTES_def)
  have ev: "parse_event_or_request sample_approval = Inr (sample_event_approval\<lparr>pe_response_required := True\<rparr>)"
    by (simp add: sample_approval_def parse_event_or_request_def get_str_def jget_jobj Let_def
        sample_event_approval_def is_object_def jobj_def obj_of_def jnat_def)
  have notr: "\<not> is_response_to 1 sample_approval" "is_response_to 1 sample_reply"
    "response_value sample_reply = Inr JNull"
    by (simp_all add: is_response_to_def sample_approval_def sample_reply_def jget_jobj jnat_def response_value_def)
  have d: "deny_server_request sample_codec (sample_event_approval\<lparr>pe_response_required := True\<rparr>) ?s2
      = (Inr sample_event_approval, ?s3)"
    by (simp add: deny_server_request_def unanswered_request_id_def sample_event_approval_def
        codex_write_def sample_codec_def pipe_write_def sample_peer_def)
  have a1: "codex_await sample_codec 1 [] ?s1 = codex_await sample_codec 1 [sample_event_approval] ?s3"
    using r1 notr ev d by (subst codex_await.simps) simp
  have a2: "codex_await sample_codec 1 [sample_event_approval] ?s3
      = (Inr \<lparr>ro_result = JNull, ro_events = [sample_event_approval]\<rparr>, ?s3\<lparr>pr_reader := []\<rparr>)"
    using r3 notr by (subst codex_await.simps) simp
  have "codex_write sample_codec ?f (sample_peer\<lparr>pr_next_id := 2\<rparr>) = (Inr (), ?s1)"
    by (simp add: codex_write_def sample_codec_def pipe_write_def sample_peer_def)
  then have "codex_request sample_codec ''turn/start'' JNull sample_peer = codex_await sample_codec 1 [] ?s1"
    by (simp add: codex_request_def Let_def checked_add1_def u64_max_def sample_peer_def)
  then show ?thesis using a1 a2 by simp
qed


section \<open>The compatibility gate\<close>

definition dotted :: "version \<Rightarrow> string" where
  "dotted v = (case v of (a, b, c) \<Rightarrow>
     show_nat (unat a) @ ''.'' @ show_nat (unat b) @ ''.'' @ show_nat (unat c))"

lemma dotted_chars: "x \<in> set (dotted v) \<Longrightarrow> is_ascii_digit x \<or> x = CHR ''.''"
  by (cases v) (auto simp: dotted_def dest: show_nat_is_digit)

lemma digit_not [simp]:
  "\<not> is_ascii_digit (CHR ''.'')" "\<not> is_ascii_digit (CHR ''-'')" "\<not> is_ascii_digit (CHR ''/'')"
  by (simp_all add: is_ascii_digit_def)

lemma numeric_version_dotted: "numeric_version (dotted v) = Some v"
proof (cases v)
  case (fields a b c)
  have nodot: "CHR ''.'' \<notin> set (show_nat n)" for n
    using show_nat_is_digit digit_not(1) by blast
  have "CHR ''-'' \<notin> set (dotted v)"
    using dotted_chars digit_not(2) by blast
  then have "split_once ''-'' (dotted v) = None"
    by (simp add: split_once_def find_str_char_None)
  moreover have "split_on (CHR ''.'') (dotted v) = [show_nat (unat a), show_nat (unat b), show_nat (unat c)]"
    by (simp add: fields dotted_def split_on_char split_on_none nodot)
  ultimately show ?thesis
    by (simp add: numeric_version_def parse_show_u64 fields)
qed

lemma dotted_last: "dotted v \<noteq> [] \<and> is_ascii_digit (last (dotted v))"
proof (cases v)
  case (fields a b c)
  have "last (dotted v) = last (show_nat (unat c))"
    by (simp add: fields dotted_def)
  moreover have "is_ascii_digit (last (show_nat (unat c)))"
    by (rule show_nat_is_digit [of _ "unat c"]) simp
  ultimately show ?thesis
    by (simp add: fields dotted_def)
qed

lemma user_agent_dotted:
  assumes "CHR ''/'' \<notin> set name" and "rest = [] \<or> \<not> is_cont (hd rest)"
  shows "user_agent_version (name @ ''/'' @ dotted v @ '' '' @ rest) = Some (dotted v)"
proof -
  let ?ws = "\<lambda>c. \<not> is_whitespace c"
  have ok: "is_ascii x \<and> \<not> is_whitespace [x]" if "x \<in> set (dotted v)" for x
    using dotted_chars [OF that] digit_facts(1,2) [of x] by (auto simp: is_ascii_def)
  then have ascii: "list_all is_ascii (dotted v)" and vis: "\<forall>c\<in>set (map (\<lambda>c. [c]) (dotted v)). ?ws c"
    by (simp_all add: list_all_iff)
  have sp: "utf8_chars ('' '' @ rest) = '' '' # utf8_chars rest"
    using utf8_chars_ascii_append [of "'' ''" rest] assms(2) by (simp add: is_ascii_def)
  have "utf8_chars (dotted v @ '' '' @ rest) = map (\<lambda>c. [c]) (dotted v) @ '' '' # utf8_chars rest"
    using utf8_chars_ascii_append [OF ascii, of "'' '' @ rest"] sp by (simp add: is_cont_def)
  moreover obtain d ds where d: "map (\<lambda>c. [c]) (dotted v) = d # ds"
    using dotted_last [of v] by (cases "dotted v") auto
  ultimately have "split_whitespace (dotted v @ '' '' @ rest) = words_of (d # ds @ '' '' # utf8_chars rest)"
    by (simp add: split_whitespace_def)
  moreover have "?ws d" "\<forall>c\<in>set ds. ?ws c"
    using vis unfolding d by simp_all
  then have "takeWhile ?ws (ds @ '' '' # utf8_chars rest) = ds"
    by (simp add: takeWhile_append2)
  moreover have "concat (d # ds) = dotted v"
    unfolding d [symmetric] by simp
  ultimately have "\<exists>ws. split_whitespace (dotted v @ '' '' @ rest) = dotted v # ws"
    using \<open>?ws d\<close> by simp
  moreover have "split_once ''/'' (name @ ''/'' @ dotted v @ '' '' @ rest) = Some (name, dotted v @ '' '' @ rest)"
    using split_once_char [OF assms(1)] by simp
  moreover have "trim_version (dotted v) = dotted v"
    using dotted_last [of v] digit_facts(3)
    by (cases "dotted v" rule: rev_cases) (auto simp: trim_version_def)
  ultimately show ?thesis
    using dotted_last [of v] by (auto simp: user_agent_version_def)
qed

lemma baseline_version: "numeric_version CODEX_SCHEMA_BASELINE_VERSION = Some (0, 152, 0)"
  by (simp add: numeric_version_def CODEX_SCHEMA_BASELINE_VERSION_def split_once_def starts_with_def
      parse_u64_def is_ascii_digit_def read_digits_def digit_value_def)

lemma codex_identity_dotted:
  assumes "get_str ''userAgent'' init = Some (name @ ''/'' @ dotted v @ '' '' @ rest)"
    and "CHR ''/'' \<notin> set name" and "rest = [] \<or> \<not> is_cont (hd rest)"
  shows "codex_runtime_identity resolve program init =
    (if version_less v (0, 152, 0) then Inl (CxIncompatibleRuntime (dotted v))
     else Inr \<lparr>rt_compatibility_profile = CODEX_COMPATIBILITY_PROFILE,
               rt_provider_version = dotted v, rt_adapter_version = None,
               rt_executable = resolve program\<rparr>)"
  using assms user_agent_dotted [OF assms(2,3), of v]
  by (simp add: codex_runtime_identity_def numeric_version_dotted baseline_version del: version_less.simps)



text \<open>A request answered at once by the next frame.\<close>

lemma codex_request_reply:
  assumes "pr_reader s = Some (d @ [newline]) # rest" "newline \<notin> set d" "d \<noteq> []" "last d \<noteq> CHR 0x0D"
    "length d \<le> CODEX_MAX_FRAME_BYTES" "cd_decode cd d = Some v" "is_object v"
    "is_response_to (pr_next_id s) v" "response_value v = Inr r" "open_pipe s"
    "length (cd_encode cd (codex_request_frame (pr_next_id s) method params)) \<le> CODEX_MAX_FRAME_BYTES"
    "checked_add1 (pr_next_id s) = Some nxt"
  shows "codex_request cd method params s = (Inr \<lparr>ro_result = r, ro_events = []\<rparr>,
    s\<lparr>pr_reader := rest, pr_next_id := nxt,
      pr_written := pr_written s @ [codex_request_frame (pr_next_id s) method params]\<rparr>)"
proof -
  let ?s1 = "s\<lparr>pr_next_id := nxt, pr_written := pr_written s @ [codex_request_frame (pr_next_id s) method params]\<rparr>"
  have w: "codex_write cd (codex_request_frame (pr_next_id s) method params) (s\<lparr>pr_next_id := nxt\<rparr>) = (Inr (), ?s1)"
    using assms(10,11) by (simp add: codex_write_def pipe_write_def open_pipe_def)
  have rd: "codex_read cd ?s1 = (Inr v, ?s1\<lparr>pr_reader := rest\<rparr>)"
    by (rule codex_next_frame) (use assms in simp_all)
  have "codex_await cd (pr_next_id s) [] ?s1 = (Inr \<lparr>ro_result = r, ro_events = []\<rparr>, ?s1\<lparr>pr_reader := rest\<rparr>)"
    using rd assms(8,9) by (subst codex_await.simps) simp
  then show ?thesis
    using w assms(12) by (simp add: codex_request_def)
qed

text \<open>A provider that follows a script of one-character frames and never breaks its pipe.\<close>

definition demo_peer :: "reader \<Rightarrow> u64 \<Rightarrow> json list \<Rightarrow> Peer" where
  "demo_peer r n out = \<lparr>pr_reader = r, pr_written = out, pr_accepts = None, pr_next_id = n\<rparr>"

abbreviation frame_line :: "char \<Rightarrow> string option" where
  "frame_line c \<equiv> Some [c, newline]"

definition script_codec :: "(string \<Rightarrow> json option) \<Rightarrow> codec" where
  "script_codec decode = \<lparr>cd_encode = \<lambda>_. [], cd_decode = decode\<rparr>"

lemma scripted_request:
  assumes "decode [c] = Some v" "is_object v" "is_response_to n v" "response_value v = Inr r"
    "c \<noteq> newline" "c \<noteq> CHR 0x0D" "n \<noteq> u64_max"
  shows "codex_request (script_codec decode) method params (demo_peer (frame_line c # rest) n out)
    = (Inr \<lparr>ro_result = r, ro_events = []\<rparr>,
       demo_peer rest (n + 1) (out @ [codex_request_frame n method params]))"
proof -
  have "codex_request (script_codec decode) method params (demo_peer (frame_line c # rest) n out)
      = (Inr \<lparr>ro_result = r, ro_events = []\<rparr>,
         (demo_peer (frame_line c # rest) n out)\<lparr>pr_reader := rest, pr_next_id := n + 1,
           pr_written := pr_written (demo_peer (frame_line c # rest) n out)
             @ [codex_request_frame (pr_next_id (demo_peer (frame_line c # rest) n out)) method params]\<rparr>)"
    by (rule codex_request_reply [where d = "[c]" and v = v])
       (use assms in \<open>simp_all add: demo_peer_def script_codec_def open_pipe_def CODEX_MAX_FRAME_BYTES_def
          checked_add1_def\<close>)
  then show ?thesis by (simp add: demo_peer_def)
qed

end
