(* ===== verification/WorkerAdapter.thy ===== *)
theory WorkerAdapter
  imports CodexAdapter
begin

text \<open>
  The Claude worker adapter, \<open>worker.rs\<close>: JSON-RPC framing over the worker's pipes, protocol
  negotiation, the runtime gate and the setting-sources option.  The nonce of the negotiation is an
  argument.  Process spawning and shutdown of the process are outside the model.
\<close>

definition WORKER_PROTOCOL_VERSION :: u32 where "WORKER_PROTOCOL_VERSION = 1"

definition CLAUDE_COMPATIBILITY_PROFILE :: string where
  "CLAUDE_COMPATIBILITY_PROFILE = ''claude-agent-sdk-v1''"

definition WORKER_MAX_FRAME_BYTES :: nat where
  "WORKER_MAX_FRAME_BYTES = 1024 * 1024"

definition CLAUDE_SETTING_SOURCES :: "string list" where
  "CLAUDE_SETTING_SOURCES = [''user'', ''project'', ''local'']"

section \<open>Setting sources\<close>

datatype setting_error = EmptySource | UnknownSource string | DuplicateSource string

fun setting_loop :: "string list \<Rightarrow> string list \<Rightarrow> setting_error + string list" where
  "setting_loop sources [] = Inr sources"
| "setting_loop sources (raw # raws) =
    (let token = trim raw in
     if token = [] then Inl EmptySource
     else if token \<notin> set CLAUDE_SETTING_SOURCES then Inl (UnknownSource token)
     else if token \<in> set sources then Inl (DuplicateSource token)
     else setting_loop (sources @ [token]) raws)"

definition parse_setting_sources :: "string \<Rightarrow> setting_error + string list" where
  "parse_setting_sources raw = setting_loop [] (split_on (CHR '','') raw)"

lemma setting_loop_ok:
  "distinct acc \<Longrightarrow> setting_loop acc raws = Inr out \<longleftrightarrow>
     out = acc @ map trim raws \<and> distinct (acc @ map trim raws)
     \<and> set (map trim raws) \<subseteq> set CLAUDE_SETTING_SOURCES"
proof (induction raws arbitrary: acc)
  case (Cons r rs)
  have "[] \<notin> set CLAUDE_SETTING_SOURCES"
    by (simp add: CLAUDE_SETTING_SOURCES_def)
  then show ?case
    using Cons.IH [of "acc @ [trim r]"] Cons.prems by (auto simp: Let_def)
qed auto

text \<open>
  The setting-sources option is parsed exactly: it is accepted if and only if the trimmed
  comma-separated pieces are pairwise different and all among user, project and local, and then the
  result is those pieces in the order given.
\<close>

theorem setting_sources_exact:
  "parse_setting_sources raw = Inr sources \<longleftrightarrow>
     sources = map trim (split_on (CHR '','') raw) \<and> distinct sources
     \<and> set sources \<subseteq> {''user'', ''project'', ''local''}"
proof -
  have allowed: "set CLAUDE_SETTING_SOURCES = {''user'', ''project'', ''local''}"
    by (simp add: CLAUDE_SETTING_SOURCES_def)
  show ?thesis
    using setting_loop_ok [of "[]" "split_on (CHR '','') raw" sources, unfolded allowed append_Nil]
    unfolding parse_setting_sources_def by (metis distinct.simps(1))
qed

section \<open>Frames\<close>

record WorkerInbound =
  wi_id :: "RequestId option"
  wi_method :: string
  wi_params :: json

definition is_callback :: "WorkerInbound \<Rightarrow> bool" where
  "is_callback inbound = (wi_id inbound \<noteq> None)"

record WorkerRequestOutcome =
  wo_result :: json
  wo_inbound :: "WorkerInbound list"

datatype WorkerError =
    WkIo | WkJson | WkFrameTooLarge | WkClosed | WkResponse int string | WkUnexpectedFrame
  | WkMissingField string | WkNegotiation string

definition worker_write :: "codec \<Rightarrow> json \<Rightarrow> Peer \<Rightarrow> (WorkerError + unit) \<times> Peer" where
  "worker_write cd message s =
    (if length (cd_encode cd message) > WORKER_MAX_FRAME_BYTES then (Inl WkFrameTooLarge, s)
     else (case pipe_write message s of
         (True, s') \<Rightarrow> (Inr (), s')
       | (False, s') \<Rightarrow> (Inl WkIo, s')))"

definition worker_read :: "codec \<Rightarrow> Peer \<Rightarrow> (WorkerError + json) \<times> Peer" where
  "worker_read cd s =
    (case read_bounded_line WORKER_MAX_FRAME_BYTES (pr_reader s) of
       None \<Rightarrow> (Inl WkIo, s\<lparr>pr_reader := after_error (pr_reader s)\<rparr>)
     | Some (Closed, r) \<Rightarrow> (Inl WkClosed, s\<lparr>pr_reader := r\<rparr>)
     | Some (TooLarge, r) \<Rightarrow> (Inl WkFrameTooLarge, s\<lparr>pr_reader := r\<rparr>)
     | Some (Data frame, r) \<Rightarrow>
         ((case cd_decode cd (strip_line_end frame) of
             None \<Rightarrow> Inl WkJson
           | Some value \<Rightarrow>
               if get_str ''jsonrpc'' value = Some ''2.0'' then Inr value else Inl WkUnexpectedFrame),
          s\<lparr>pr_reader := r\<rparr>))"

definition parse_inbound :: "json \<Rightarrow> WorkerError + WorkerInbound" where
  "parse_inbound message =
    (case get_str ''method'' message of
       None \<Rightarrow> Inl WkUnexpectedFrame
     | Some method \<Rightarrow>
         (let ok = (\<lambda>i. \<lparr>wi_id = i, wi_method = method,
                          wi_params = unwrap_or (jobj []) (jget ''params'' message)\<rparr>) in
          case jget ''id'' message of
            None \<Rightarrow> Inr (ok None)
          | Some v \<Rightarrow> (case of_request_id v of None \<Rightarrow> Inl WkJson | Some i \<Rightarrow> Inr (ok (Some i)))))"

definition worker_response_error :: "json \<Rightarrow> WorkerError" where
  "worker_response_error error =
    WkResponse (unwrap_or (- 32000) (Option.bind (jget ''code'' error) as_i64))
      (unwrap_or ''unknown Claude worker error'' (get_str ''message'' error))"

definition next_inbound :: "codec \<Rightarrow> Peer \<Rightarrow> (WorkerError + WorkerInbound) \<times> Peer" where
  "next_inbound cd s =
    (case worker_read cd s of
       (Inl e, s') \<Rightarrow> (Inl e, s')
     | (Inr message, s') \<Rightarrow> (parse_inbound message, s'))"

definition callback_frame :: "RequestId \<Rightarrow> json \<Rightarrow> json" where
  "callback_frame i result =
    jobj [(''jsonrpc'', JString ''2.0''), (''id'', json_of_request_id i), (''result'', result)]"

definition respond_callback :: "codec \<Rightarrow> RequestId \<Rightarrow> json \<Rightarrow> Peer \<Rightarrow> (WorkerError + unit) \<times> Peer" where
  "respond_callback cd i result s = worker_write cd (callback_frame i result) s"

definition denial_result :: "string \<Rightarrow> json" where
  "denial_result message =
    jobj [(''decision'', JString ''deny''), (''message'', JString message), (''interrupt'', JBool False)]"

definition deny_callback :: "codec \<Rightarrow> RequestId \<Rightarrow> string \<Rightarrow> Peer \<Rightarrow> (WorkerError + unit) \<times> Peer" where
  "deny_callback cd i message s = respond_callback cd i (denial_result message) s"

section \<open>Requests\<close>

lemma worker_read_weight:
  "worker_read cd s = (Inr m, s') \<Longrightarrow> peer_weight s' < peer_weight s"
  by (auto simp: worker_read_def peer_weight_def dest: read_bounded_line_weight
      split: option.splits prod.splits BoundedFrame.splits if_splits)

definition worker_response_value :: "json \<Rightarrow> WorkerError + json" where
  "worker_response_value message = (case jget ''error'' message of
     Some error \<Rightarrow> Inl (worker_response_error error)
   | None \<Rightarrow> (case jget ''result'' message of None \<Rightarrow> Inl (WkMissingField ''result'') | Some r \<Rightarrow> Inr r))"

function worker_await ::
  "codec \<Rightarrow> u64 \<Rightarrow> WorkerInbound list \<Rightarrow> Peer \<Rightarrow> (WorkerError + WorkerRequestOutcome) \<times> Peer" where
  "worker_await cd request_id inbound s =
    (case worker_read cd s of
       (Inl e, s1) \<Rightarrow> (Inl e, s1)
     | (Inr message, s1) \<Rightarrow>
         if is_response_to request_id message then
           (case worker_response_value message of
              Inl e \<Rightarrow> (Inl e, s1)
            | Inr result \<Rightarrow> (Inr \<lparr>wo_result = result, wo_inbound = inbound\<rparr>, s1))
         else
           (case parse_inbound message of
              Inl e \<Rightarrow> (Inl e, s1)
            | Inr ev \<Rightarrow> worker_await cd request_id (inbound @ [ev]) s1))"
  by pat_completeness auto
termination
  by (relation "measure (\<lambda>(cd, rid, inbound, s). peer_weight s)") (auto dest: worker_read_weight [OF sym])

declare worker_await.simps [simp del]

definition worker_request_frame :: "u64 \<Rightarrow> string \<Rightarrow> json \<Rightarrow> json" where
  "worker_request_frame request_id method params =
    jobj [(''jsonrpc'', JString ''2.0''), (''id'', ju64 request_id), (''method'', JString method),
          (''params'', params)]"

definition worker_request ::
  "codec \<Rightarrow> string \<Rightarrow> json \<Rightarrow> Peer \<Rightarrow> (WorkerError + WorkerRequestOutcome) \<times> Peer" where
  "worker_request cd method params s =
    (let request_id = pr_next_id s in
     case checked_add1 (pr_next_id s) of
       None \<Rightarrow> (Inl WkUnexpectedFrame, s)
     | Some nxt \<Rightarrow>
         (case worker_write cd (worker_request_frame request_id method params) (s\<lparr>pr_next_id := nxt\<rparr>) of
            (Inl e, s1) \<Rightarrow> (Inl e, s1)
          | (Inr _, s1) \<Rightarrow> worker_await cd request_id [] s1))"

section \<open>Negotiation\<close>

definition worker_runtime_identity :: "json \<Rightarrow> WorkerError + ProviderRuntime" where
  "worker_runtime_identity initialize =
    (case jget ''diagnostics'' initialize of
       None \<Rightarrow> Inl (WkNegotiation ''worker diagnostics are missing'')
     | Some diagnostics \<Rightarrow>
         (let sdk = jindex diagnostics ''sdk''; rt = jindex diagnostics ''claude_runtime'' in
          if as_str (jindex diagnostics ''compatibility_profile'') \<noteq> Some CLAUDE_COMPATIBILITY_PROFILE
          then Inl (WkNegotiation ''Claude compatibility profile mismatch'')
          else if jindex sdk ''compatible'' \<noteq> JBool True
          then Inl (WkNegotiation ''Claude SDK is incompatible'')
          else if jindex rt ''compatible'' \<noteq> JBool True
          then Inl (WkNegotiation ''Claude runtime is incompatible'')
          else
            (case filter_opt (\<lambda>v. v \<noteq> []) (as_str (jindex sdk ''version'')) of
               None \<Rightarrow> Inl (WkNegotiation ''Claude SDK version is missing'')
             | Some sdk_version \<Rightarrow>
                 (case filter_opt (\<lambda>v. v \<noteq> []) (as_str (jindex rt ''version'')) of
                    None \<Rightarrow> Inl (WkNegotiation ''Claude runtime version is missing'')
                  | Some runtime_version \<Rightarrow>
                      Inr \<lparr>rt_compatibility_profile = CLAUDE_COMPATIBILITY_PROFILE,
                           rt_provider_version = runtime_version,
                           rt_adapter_version = Some sdk_version,
                           rt_executable = filter_opt (starts_with ''/'') (as_str (jindex rt ''executable''))\<rparr>))))"

definition worker_initialize :: "codec \<Rightarrow> string \<Rightarrow> Peer \<Rightarrow> (WorkerError + json) \<times> Peer" where
  "worker_initialize cd nonce s =
    (case worker_request cd ''worker/initialize''
        (jobj [(''protocol_version'', ju32 WORKER_PROTOCOL_VERSION),
               (''broker_version'', JString BROKER_VERSION), (''nonce'', JString nonce)]) s of
       (Inl e, s1) \<Rightarrow> (Inl e, s1)
     | (Inr outcome, s1) \<Rightarrow>
         (if wo_inbound outcome \<noteq> [] then
            Inl (WkNegotiation ''unexpected worker traffic during initialization'')
          else if Option.bind (jget ''protocol_version'' (wo_result outcome)) as_u64
              \<noteq> Some (ucast WORKER_PROTOCOL_VERSION)
          then Inl (WkNegotiation ''protocol version mismatch'')
          else if get_str ''nonce'' (wo_result outcome) \<noteq> Some nonce
          then Inl (WkNegotiation ''nonce mismatch'')
          else (case worker_runtime_identity (wo_result outcome) of
              Inl e \<Rightarrow> Inl e
            | Inr _ \<Rightarrow> Inr (wo_result outcome)), s1))"

lemma worker_write_ok:
  "worker_write cd m s = (Inr u, s') \<Longrightarrow>
   pr_written s' = pr_written s @ [m] \<and> pr_next_id s' = pr_next_id s \<and> pr_reader s' = pr_reader s"
  by (auto simp: worker_write_def pipe_write_def split: if_splits)

lemma worker_read_keeps:
  "worker_read cd s = (r, s') \<Longrightarrow> pr_written s' = pr_written s \<and> pr_next_id s' = pr_next_id s"
  by (auto simp: worker_read_def split: option.splits prod.splits BoundedFrame.splits)

lemma worker_await_keeps:
  "worker_await cd rid inbound s = (r, s') \<Longrightarrow> pr_written s' = pr_written s \<and> pr_next_id s' = pr_next_id s"
proof (induction cd rid inbound s rule: worker_await.induct)
  case (1 cd rid inbound s)
  obtain x s1 where rd: "worker_read cd s = (x, s1)" by fastforce
  note keep = worker_read_keeps [OF rd]
  show ?case
    using 1(2) 1(1) [OF rd [symmetric]] rd keep
    by (subst (asm) worker_await.simps) (auto split: sum.splits if_splits)
qed

text \<open>A worker request writes its own frame and answers nothing.\<close>

lemma worker_request_written:
  assumes "worker_request cd method params s = (Inr outcome, s')"
  shows "pr_written s' = pr_written s @ [worker_request_frame (pr_next_id s) method params]"
proof -
  from assms obtain nxt s1 u
    where w: "worker_write cd (worker_request_frame (pr_next_id s) method params) (s\<lparr>pr_next_id := nxt\<rparr>) = (Inr u, s1)"
      and r: "worker_await cd (pr_next_id s) [] s1 = (Inr outcome, s')"
    by (auto simp: worker_request_def Let_def split: option.splits sum.splits prod.splits)
  from worker_write_ok [OF w] worker_await_keeps [OF r] show ?thesis by simp
qed

text \<open>
  The negotiation succeeds only with a worker of this protocol version that echoes the nonce,
  declares the tested profile compatible and sent nothing else meanwhile.
\<close>

lemma worker_initialize_ok:
  assumes "worker_initialize cd nonce s = (Inr result, s')"
  shows "get_str ''nonce'' result = Some nonce"
    and "Option.bind (jget ''protocol_version'' result) as_u64 = Some 1"
    and "\<exists>r. worker_runtime_identity result = Inr r \<and> rt_compatibility_profile r = CLAUDE_COMPATIBILITY_PROFILE
      \<and> rt_provider_version r \<noteq> []"
  using assms
  by (auto simp: worker_initialize_def WORKER_PROTOCOL_VERSION_def worker_runtime_identity_def
      filter_opt_Some_iff Let_def split: sum.splits prod.splits if_splits option.splits)

end
