(* ===== verification/Human.thy ===== *)
theory Human
  imports WorkerAdapter
begin

text \<open>
  Human-input requests, \<open>human.rs\<close>: recognising an approval or a question in a provider message,
  the normalised payload shown to the user, and the provider-specific form of the answer.
  \<open>collect_paths_into\<close> threads the vector of paths; the loops over object members and array
  elements are the two auxiliary functions of the mutual recursion.
\<close>

datatype HumanRequestKind = Approval | Question

fun requested_event :: "HumanRequestKind \<Rightarrow> string" where
  "requested_event Approval = ''approval.requested''"
| "requested_event Question = ''question.requested''"

fun resolved_event_type :: "HumanRequestKind \<Rightarrow> string" where
  "resolved_event_type Approval = ''approval.resolved''"
| "resolved_event_type Question = ''question.resolved''"

record HumanRequest =
  hr_id :: string
  hr_kind :: HumanRequestKind
  hr_envelope :: EventEnvelope

section \<open>Paths mentioned by a request\<close>

definition path_key :: "string \<Rightarrow> bool" where
  "path_key k = (k \<in> {''path'', ''file_path'', ''filePath'', ''blocked_path'', ''grantRoot''})"

fun collect_paths_into :: "json \<Rightarrow> string list \<Rightarrow> nat \<Rightarrow> string list"
  and collect_members :: "(string \<times> json) list \<Rightarrow> string list \<Rightarrow> nat \<Rightarrow> string list"
  and collect_items :: "json list \<Rightarrow> string list \<Rightarrow> nat \<Rightarrow> string list" where
  "collect_paths_into v paths depth =
    (if depth > 8 \<or> length paths \<ge> 64 then paths
     else (case v of
       JObject m \<Rightarrow> collect_members m paths depth
     | JArray xs \<Rightarrow> collect_items xs paths depth
     | _ \<Rightarrow> paths))"
| "collect_members [] paths depth = paths"
| "collect_members ((key, v) # m) paths depth =
    (let paths1 = (if path_key key then (case v of JString p \<Rightarrow> paths @ [p] | _ \<Rightarrow> paths) else paths) in
     collect_members m (collect_paths_into v paths1 (depth + 1)) depth)"
| "collect_items [] paths depth = paths"
| "collect_items (v # xs) paths depth = collect_items xs (collect_paths_into v paths (depth + 1)) depth"

declare collect_paths_into.simps [simp del]

definition collect_paths :: "json \<Rightarrow> string list" where
  "collect_paths v = take 64 (dedup (sort (collect_paths_into v [] 0)))"

section \<open>Payloads\<close>

definition approval_tool_name :: "string \<Rightarrow> string" where
  "approval_tool_name method =
    (if method = ''item/commandExecution/requestApproval'' \<or> method = ''execCommandApproval'' then ''Command''
     else if method = ''item/fileChange/requestApproval'' \<or> method = ''applyPatchApproval'' then ''File change''
     else if method = ''item/permissions/requestApproval'' then ''Permissions''
     else ''Tool'')"

definition jcontext :: "string \<Rightarrow> json \<Rightarrow> json option" where
  "jcontext k params = Option.bind (jget ''context'' params) (jget k)"

definition approval_payload :: "string \<Rightarrow> string \<Rightarrow> json \<Rightarrow> json" where
  "approval_payload action_id method params =
    (let tool_name = unwrap_or (approval_tool_name method)
           (Option.bind (or_else (jget ''tool_name'' params) (jget ''toolName'' params)) as_str);
         input = unwrap_or params (jget ''input'' params);
         command = Option.bind (or_else (jget ''command'' input) (jget ''command'' params)) as_str;
         cwd = Option.bind (or_else (jget ''cwd'' params) (jcontext ''cwd'' params)) as_str;
         summary = unwrap_or tool_name
           (or_else (Option.bind (or_else (jget ''reason'' params) (jcontext ''description'' params)) as_str)
                    command);
         risk = or_else (or_else (or_else (jget ''risk'' params) (jget ''risk_level'' params))
             (jget ''riskLevel'' params)) (jcontext ''decision_reason'' params);
         suggestions = or_else (or_else (or_else (jget ''permissions'' params)
             (jget ''permission_suggestions'' params)) (jget ''permissionSuggestions'' params))
             (jcontext ''suggestions'' params) in
     jobj [(''id'', JString action_id), (''kind'', JString ''approval''),
           (''tool_name'', JString tool_name), (''summary'', JString summary),
           (''command'', jopt JString command), (''cwd'', jopt JString cwd),
           (''paths'', JArray (map JString (collect_paths params))),
           (''risk'', jopt id risk), (''permission_suggestions'', jopt id suggestions),
           (''choices'', JArray [JString ''allow'', JString ''deny'']), (''deferrable'', JBool False)])"

definition question_option :: "json \<Rightarrow> json option" where
  "question_option opt =
    (case as_str opt of
       Some label \<Rightarrow> Some (jobj [(''label'', JString label), (''description'', JString '''')])
     | None \<Rightarrow> map_option (\<lambda>label. jobj [(''label'', JString label),
         (''description'', JString (unwrap_or '''' (get_str ''description'' opt)))]) (get_str ''label'' opt))"

definition jflag :: "json option \<Rightarrow> bool" where
  "jflag v = unwrap_or False (Option.bind v as_bool)"

definition question_entry :: "nat \<times> json \<Rightarrow> json option" where
  "question_entry iq = (case iq of (index, question) \<Rightarrow>
    map_option (\<lambda>prompt.
      jobj [(''id'', JString (unwrap_or prompt (get_str ''id'' question))), (''index'', jnat index),
            (''header'', JString (unwrap_or ''Question'' (get_str ''header'' question))),
            (''question'', JString prompt),
            (''options'', JArray (unwrap_or []
               (map_option (filter_map question_option) (Option.bind (jget ''options'' question) as_array)))),
            (''multi_select'', JBool (jflag (or_else (jget ''multiSelect'' question) (jget ''multi_select'' question)))),
            (''secret'', JBool (jflag (or_else (or_else (jget ''isSecret'' question)
               (jget ''is_secret'' question)) (jget ''secret'' question))))])
      (get_str ''question'' question))"

definition question_payload :: "string \<Rightarrow> json \<Rightarrow> json" where
  "question_payload action_id params =
    (let input = unwrap_or params (jget ''input'' params);
         questions = unwrap_or [] (map_option (\<lambda>qs. filter_map question_entry (enumerate 0 qs))
           (Option.bind (jget ''questions'' input) as_array)) in
     jobj [(''id'', JString action_id), (''kind'', JString ''question''), (''questions'', JArray questions),
           (''choices'', JArray [JString ''answer'', JString ''deny'']), (''deferrable'', JBool False)])"

definition normalized_payload :: "HumanRequestKind \<Rightarrow> string \<Rightarrow> string \<Rightarrow> json \<Rightarrow> json" where
  "normalized_payload kind action_id method params =
    (case kind of Approval \<Rightarrow> approval_payload action_id method params
                | Question \<Rightarrow> question_payload action_id params)"

section \<open>Recognising requests\<close>

definition codex_human_request :: "string \<Rightarrow> string \<Rightarrow> string \<Rightarrow> ProviderEvent \<Rightarrow> HumanRequest option" where
  "codex_human_request now agent_id action_id event =
    (if pe_kind event \<noteq> ServerRequest \<or> \<not> pe_response_required event then None
     else
       (let kind = (if is_codex_approval (pe_method event) then Some Approval
                    else if pe_method event = ''item/tool/requestUserInput'' then Some Question
                    else None) in
        map_option (\<lambda>kind.
          \<lparr>hr_id = action_id, hr_kind = kind,
           hr_envelope = new_event now agent_id Codex (requested_event kind)
             (normalized_payload kind action_id (pe_method event) (pe_params event))
             (jobj [(''kind'', JString ''request''), (''request_id'', jopt id (pe_request_id event)),
                    (''response_required'', JBool True), (''method'', JString (pe_method event)),
                    (''redacted'', JBool True)])\<rparr>) kind))"

definition claude_human_request :: "string \<Rightarrow> string \<Rightarrow> string \<Rightarrow> WorkerInbound \<Rightarrow> HumanRequest option" where
  "claude_human_request now agent_id action_id inbound =
    (if \<not> is_callback inbound then None
     else
       (let kind = (if wi_method inbound = ''approval/request'' then Some Approval
                    else if wi_method inbound = ''question/request'' then Some Question
                    else None) in
        map_option (\<lambda>kind.
          \<lparr>hr_id = action_id, hr_kind = kind,
           hr_envelope = new_event now agent_id Claude (requested_event kind)
             (normalized_payload kind action_id (wi_method inbound) (wi_params inbound))
             (jobj [(''kind'', JString ''request''), (''request_id'', jopt json_of_request_id (wi_id inbound)),
                    (''response_required'', JBool True), (''method'', JString (wi_method inbound)),
                    (''redacted'', JBool True)])\<rparr>) kind))"

definition resolved_event ::
  "string \<Rightarrow> string \<Rightarrow> Provider \<Rightarrow> HumanRequestKind \<Rightarrow> string \<Rightarrow> string \<Rightarrow> string option \<Rightarrow> EventEnvelope" where
  "resolved_event now agent_id provider kind action_id decision reason =
    new_event now agent_id provider (resolved_event_type kind)
      (jobj [(''id'', JString action_id), (''decision'', JString decision), (''reason'', jopt JString reason)])
      (jobj [(''kind'', JString ''broker''), (''redacted'', JBool True)])"

section \<open>Answers\<close>

definition codex_approval_response ::
  "ProviderEvent \<Rightarrow> string \<Rightarrow> string option \<Rightarrow> string + json" where
  "codex_approval_response event decision message =
    (if decision = ''defer'' then Inl ''this provider request cannot be deferred''
     else if decision \<noteq> ''allow'' \<and> decision \<noteq> ''deny'' then Inl ''invalid approval decision''
     else
       (let allow = (decision = ''allow''); method = pe_method event in
        if method = ''item/commandExecution/requestApproval'' \<or> method = ''item/fileChange/requestApproval''
        then Inr (jobj [(''decision'', JString (if allow then ''accept'' else ''decline''))])
        else if method = ''execCommandApproval'' \<or> method = ''applyPatchApproval'' then
          Inr (if allow then jobj [(''decision'', JString ''approved'')]
               else jobj [(''decision'', jobj [(''denied'', jobj [(''rejection'',
                 JString (unwrap_or ''User denied the request'' message))])])])
        else if method = ''item/permissions/requestApproval'' then
          Inr (if allow then jobj [(''permissions'', unwrap_or (jobj []) (jget ''permissions'' (pe_params event))),
                                   (''scope'', JString ''turn'')]
               else jobj [(''permissions'', jobj []), (''scope'', JString ''turn'')])
        else Inl ''provider request is not an approval''))"

definition answer_values :: "json \<Rightarrow> json list" where
  "answer_values value = (case value of
     JString s \<Rightarrow> [JString s]
   | JArray values \<Rightarrow> if list_all is_string values then values else []
   | _ \<Rightarrow> [])"

definition codex_question_response ::
  "ProviderEvent \<Rightarrow> string \<Rightarrow> (string \<times> json) list \<Rightarrow> string + json" where
  "codex_question_response event decision answers =
    (if pe_method event \<noteq> ''item/tool/requestUserInput'' then Inl ''provider request is not a question''
     else if decision \<noteq> ''answer'' \<and> decision \<noteq> ''deny'' then Inl ''invalid question decision''
     else
       (let encoded = (if decision = ''deny'' then []
                       else map (\<lambda>(k, v). (k, jobj [(''answers'', JArray (answer_values v))])) answers) in
        Inr (jobj [(''answers'', jobj encoded)])))"

definition claude_approval_response ::
  "string \<Rightarrow> json option \<Rightarrow> string option \<Rightarrow> string + json" where
  "claude_approval_response decision updated_input message =
    (if decision = ''allow'' then
       Inr (jobj ([(''decision'', JString ''allow'')]
         @ (case updated_input of None \<Rightarrow> [] | Some v \<Rightarrow> [(''updated_input'', v)])))
     else if decision = ''deny'' then
       Inr (jobj [(''decision'', JString ''deny''),
         (''message'', JString (unwrap_or ''User denied the request'' message)), (''interrupt'', JBool False)])
     else if decision = ''defer'' then Inl ''this provider request cannot be deferred''
     else Inl ''invalid approval decision'')"

definition claude_question_response ::
  "string \<Rightarrow> (string \<times> json) list \<Rightarrow> string option \<Rightarrow> string + json" where
  "claude_question_response decision answers message =
    (if decision = ''answer'' then
       Inr (jobj [(''decision'', JString ''answer''), (''answers'', JObject answers)])
     else if decision = ''deny'' then
       Inr (jobj [(''decision'', JString ''deny''),
         (''message'', JString (unwrap_or ''User declined to answer'' message)), (''interrupt'', JBool False)])
     else Inl ''invalid question decision'')"

section \<open>The collected paths\<close>

text \<open>All path strings of a value in document order, with no limit, and the nesting depth.\<close>

fun path_strings :: "json \<Rightarrow> string list"
  and member_paths :: "(string \<times> json) list \<Rightarrow> string list"
  and item_paths :: "json list \<Rightarrow> string list" where
  "path_strings (JObject m) = member_paths m"
| "path_strings (JArray xs) = item_paths xs"
| "path_strings _ = []"
| "member_paths [] = []"
| "member_paths ((key, v) # m) =
    (if path_key key then (case v of JString p \<Rightarrow> [p] | _ \<Rightarrow> []) else []) @ path_strings v @ member_paths m"
| "item_paths [] = []"
| "item_paths (v # xs) = path_strings v @ item_paths xs"

fun json_depth :: "json \<Rightarrow> nat"
  and members_depth :: "(string \<times> json) list \<Rightarrow> nat"
  and items_depth :: "json list \<Rightarrow> nat" where
  "json_depth (JObject m) = members_depth m"
| "json_depth (JArray xs) = items_depth xs"
| "json_depth _ = 0"
| "members_depth [] = 0"
| "members_depth ((key, v) # m) = max (Suc (json_depth v)) (members_depth m)"
| "items_depth [] = 0"
| "items_depth (v # xs) = max (Suc (json_depth v)) (items_depth xs)"

lemma collect_sound:
  "\<exists>ys. collect_paths_into v acc d = acc @ ys \<and> set ys \<subseteq> set (path_strings v)"
  "\<exists>ys. collect_members m acc d = acc @ ys \<and> set ys \<subseteq> set (member_paths m)"
  "\<exists>ys. collect_items xs acc d = acc @ ys \<and> set ys \<subseteq> set (item_paths xs)"
proof (induction v acc d and m acc d and xs acc d
    rule: collect_paths_into_collect_members_collect_items.induct)
  case (1 v paths depth)
  then show ?case
    by (subst collect_paths_into.simps) (auto split: json.splits)
next
  case (3 key v m paths depth)
  let ?p1 = "if path_key key then (case v of JString p \<Rightarrow> paths @ [p] | _ \<Rightarrow> paths) else paths"
  let ?new = "if path_key key then (case v of JString p \<Rightarrow> [p] | _ \<Rightarrow> []) else []"
  have p1: "?p1 = paths @ ?new"
    by (auto split: json.splits)
  from 3(1) [OF refl] obtain ys where ys: "collect_paths_into v ?p1 (depth + 1) = ?p1 @ ys"
    "set ys \<subseteq> set (path_strings v)" by blast
  from 3(2) [OF refl] obtain zs where zs: "collect_members m (?p1 @ ys) depth = (?p1 @ ys) @ zs"
    "set zs \<subseteq> set (member_paths m)" unfolding ys(1) by blast
  show ?case
  proof (intro exI conjI)
    show "collect_members ((key, v) # m) paths depth = paths @ (?new @ ys @ zs)"
      using ys(1) zs(1) p1 by (simp only: collect_members.simps Let_def append_assoc)
    show "set (?new @ ys @ zs) \<subseteq> set (member_paths ((key, v) # m))"
      using ys(2) zs(2) unfolding member_paths.simps set_append by blast
  qed
next
  case (5 v xs paths depth)
  then obtain ys zs where "collect_paths_into v paths (depth + 1) = paths @ ys" "set ys \<subseteq> set (path_strings v)"
    "collect_items xs (paths @ ys) depth = (paths @ ys) @ zs" "set zs \<subseteq> set (item_paths xs)"
    by metis
  then show ?case by (intro exI [of _ "ys @ zs"]) auto
qed auto

lemma flat_no_paths:
  "json_depth v = 0 \<Longrightarrow> path_strings v = []"
  "members_depth m = 0 \<Longrightarrow> m = []"
  "items_depth xs = 0 \<Longrightarrow> xs = []"
proof -
  show m: "members_depth m = 0 \<Longrightarrow> m = []" for m
    by (cases m) auto
  show x: "items_depth xs = 0 \<Longrightarrow> xs = []" for xs
    by (cases xs) auto
  show "json_depth v = 0 \<Longrightarrow> path_strings v = []"
    by (cases v) (auto dest!: m x)
qed

lemma collect_complete:
  "d + json_depth v \<le> 9 \<Longrightarrow> length acc + length (path_strings v) \<le> 64 \<Longrightarrow>
   collect_paths_into v acc d = acc @ path_strings v"
  "d + members_depth m \<le> 9 \<Longrightarrow> length acc + length (member_paths m) \<le> 64 \<Longrightarrow>
   collect_members m acc d = acc @ member_paths m"
  "d + items_depth xs \<le> 9 \<Longrightarrow> length acc + length (item_paths xs) \<le> 64 \<Longrightarrow>
   collect_items xs acc d = acc @ item_paths xs"
proof (induction v acc d and m acc d and xs acc d
    rule: collect_paths_into_collect_members_collect_items.induct)
  case (1 v paths depth)
  show ?case
  proof (cases "depth > 8 \<or> length paths \<ge> 64")
    case True
    then have "json_depth v = 0 \<or> length (path_strings v) = 0"
      using 1(3,4) by linarith
    then have "path_strings v = []"
      using flat_no_paths(1) [of v] by blast
    with True show ?thesis
      by (subst collect_paths_into.simps) simp
  next
    case False
    with 1 show ?thesis
      by (subst collect_paths_into.simps) (auto split: json.splits)
  qed
next
  case (3 key v m paths depth)
  let ?p1 = "if path_key key then (case v of JString p \<Rightarrow> paths @ [p] | _ \<Rightarrow> paths) else paths"
  let ?new = "if path_key key then (case v of JString p \<Rightarrow> [p] | _ \<Rightarrow> []) else []"
  have p1: "?p1 = paths @ ?new"
    by (auto split: json.splits)
  have len: "length paths + length ?new + length (path_strings v) + length (member_paths m) \<le> 64"
    using 3(4) by simp
  have v: "collect_paths_into v ?p1 (depth + 1) = ?p1 @ path_strings v"
  proof (rule 3(1) [OF refl])
    show "depth + 1 + json_depth v \<le> 9"
      using 3(3) by simp
    show "length ?p1 + length (path_strings v) \<le> 64"
      using len unfolding p1 by simp
  qed
  have "collect_members m (?p1 @ path_strings v) depth = (?p1 @ path_strings v) @ member_paths m"
  proof (rule 3(2) [OF refl, unfolded v])
    show "depth + members_depth m \<le> 9"
      using 3(3) by simp
    show "length (?p1 @ path_strings v) + length (member_paths m) \<le> 64"
      using len unfolding p1 by simp
  qed
  then show ?case
    using v p1 by (simp only: collect_members.simps member_paths.simps Let_def append_assoc)
qed auto

lemma in_take: "x \<in> set (take n xs) \<Longrightarrow> x \<in> set xs"
  by (rule in_set_takeD)

text \<open>
  C29.  The paths shown with a request.  They are sorted, without duplicates and at most 64, and
  each is a string under one of the path keys of the request; when the request nests at most nine
  levels and holds at most 64 such strings, none is missing.
\<close>

theorem collected_paths:
  "sorted (collect_paths v) \<and> distinct (collect_paths v) \<and> length (collect_paths v) \<le> 64
   \<and> set (collect_paths v) \<subseteq> set (path_strings v)
   \<and> (json_depth v \<le> 9 \<and> length (path_strings v) \<le> 64 \<longrightarrow>
        set (collect_paths v) = set (path_strings v))"
proof -
  let ?all = "collect_paths_into v [] 0"
  have so: "sorted (dedup (sort ?all))" "distinct (dedup (sort ?all))"
    using sorted_distinct_dedup [OF sorted_sort, of ?all] by simp_all
  obtain ys where "?all = ys" "set ys \<subseteq> set (path_strings v)"
    using collect_sound(1) [of v "[]" 0] by auto
  then have sound: "set (dedup (sort ?all)) \<subseteq> set (path_strings v)"
    by simp
  have complete: "set (collect_paths v) = set (path_strings v)"
    if "json_depth v \<le> 9" "length (path_strings v) \<le> 64"
  proof -
    have "?all = path_strings v"
      using collect_complete(1) [of 0 v "[]"] that by simp
    moreover have "length (dedup xs) \<le> length xs" for xs :: "string list"
      by (induction xs rule: dedup.induct) auto
    then have "length (dedup (sort ?all)) \<le> 64"
      using that calculation by (metis length_sort order_trans)
    ultimately show ?thesis
      by (simp add: collect_paths_def)
  qed
  have "set (collect_paths v) \<subseteq> set (path_strings v)"
    using sound set_take_subset unfolding collect_paths_def by (metis order_trans)
  then show ?thesis
    using so complete by (simp add: collect_paths_def sorted_wrt_take)
qed

theorem collected_paths_witness:
  "set (collect_paths (jobj [(''path'', JString ''/b''), (''note'', JString ''x'')])) = {''/b''}"
proof -
  let ?v = "jobj [(''path'', JString ''/b''), (''note'', JString ''x'')]"
  have v: "?v = JObject [(''note'', JString ''x''), (''path'', JString ''/b'')]"
    by (simp add: jobj_def obj_of_def)
  have "path_strings ?v = [''/b'']" "json_depth ?v \<le> 9"
    by (simp_all add: v path_key_def)
  then show ?thesis
    using collected_paths [of ?v] by simp
qed

text \<open>What a Codex answer means to the provider: acceptance, or a non-empty set of permissions.\<close>

definition codex_grants :: "json \<Rightarrow> bool" where
  "codex_grants r = (jget ''decision'' r \<in> {Some (JString ''accept''), Some (JString ''approved'')}
     \<or> (case jget ''permissions'' r of Some p \<Rightarrow> p \<noteq> jobj [] | None \<Rightarrow> False))"

text \<open>
  C28.  A decision reaches the provider faithfully.  For every kind of Codex approval, allowing is
  encoded as an acceptance (for a permissions request, as precisely the permissions it asked for),
  denying is encoded as an answer that grants nothing, and any other decision, deferral included, is
  refused without an answer.
\<close>

theorem codex_approval_faithful:
  assumes "is_codex_approval (pe_method event)"
  shows "(\<exists>r. codex_approval_response event ''allow'' message = Inr r
       \<and> (if pe_method event = ''item/permissions/requestApproval''
          then jget ''permissions'' r = Some (unwrap_or (jobj []) (jget ''permissions'' (pe_params event)))
          else codex_grants r))
     \<and> (\<exists>r. codex_approval_response event ''deny'' message = Inr r \<and> \<not> codex_grants r)
     \<and> (decision \<notin> {''allow'', ''deny''} \<longrightarrow>
          (\<exists>e. codex_approval_response event decision message = Inl e))"
  using assms
  by (auto simp: is_codex_approval_def codex_approval_response_def codex_grants_def jget_jobj jobj_def obj_of_def)

theorem codex_approval_faithful_witness:
  "\<exists>r. codex_approval_response sample_event_approval ''deny'' None = Inr r \<and> \<not> codex_grants r"
  using codex_approval_faithful [of sample_event_approval None "''defer''"]
  by (simp add: sample_event_approval_def is_codex_approval_def)

text \<open>A declined question carries no answers, and an answer only lists of strings.\<close>

lemma codex_question_strings:
  assumes "codex_question_response event decision answers = Inr r"
  shows "(decision = ''deny'' \<longrightarrow> r = jobj [(''answers'', jobj [])])
    \<and> (\<forall>(k, v)\<in>set answers. list_all is_string (answer_values v))"
  using assms
  by (auto simp: codex_question_response_def answer_values_def is_string_def jobj_def obj_of_def
      split: if_splits json.splits)

lemma claude_deny_denies:
  "claude_approval_response ''deny'' input message = Inr r \<Longrightarrow> get_str ''decision'' r = Some ''deny''"
  "claude_question_response ''deny'' answers message = Inr r \<Longrightarrow> get_str ''decision'' r = Some ''deny''"
  by (auto simp: claude_approval_response_def claude_question_response_def get_str_def jget_jobj)

end
