(* ===== verification/Projection.thy ===== *)
theory Projection
  imports Human
begin

text \<open>
  Provider metadata and history, \<open>projection.rs\<close>: session and model lists, message histories and the
  rendering of editor context.  The set of active session identifiers is a list, used only for
  membership; the set \<open>seen\<close> of \<open>provider_models\<close> is threaded through the fold.  The text form of
  the attachments is the parameter \<open>encode\<close>.
\<close>

fun first_value :: "json \<Rightarrow> string list \<Rightarrow> json option" where
  "first_value v [] = None"
| "first_value v (k # ks) = (case jget k v of Some x \<Rightarrow> Some x | None \<Rightarrow> first_value v ks)"

definition first_string :: "json \<Rightarrow> string list \<Rightarrow> string option" where
  "first_string v keys = Option.bind (first_value v keys) as_str"

section \<open>Texts\<close>

fun find_map :: "('a \<Rightarrow> 'b option) \<Rightarrow> 'a list \<Rightarrow> 'b option" where
  "find_map f [] = None"
| "find_map f (x # xs) = (case f x of Some y \<Rightarrow> Some y | None \<Rightarrow> find_map f xs)"

lemma find_map_cong [fundef_cong]:
  "xs = ys \<Longrightarrow> (\<And>x. x \<in> set ys \<Longrightarrow> f x = g x) \<Longrightarrow> find_map f xs = find_map g ys"
proof (induction ys arbitrary: xs)
  case (Cons y ys)
  then have "find_map f ys = find_map g ys" by auto
  with Cons.prems show ?case by (auto split: option.splits)
qed simp

function projected_text_depth :: "json \<Rightarrow> nat \<Rightarrow> string option" where
  "projected_text_depth value depth =
    (if depth > 12 then None
     else (case value of
       JString t \<Rightarrow> if t \<noteq> [] then Some t else None
     | JArray values \<Rightarrow>
         (let parts = filter_map (\<lambda>v. projected_text_depth v (depth + 1)) values in
          if parts = [] then None else Some (concat parts))
     | JObject m \<Rightarrow>
         find_map (\<lambda>key. case map_of m key of
             None \<Rightarrow> None
           | Some v \<Rightarrow> projected_text_depth v (depth + 1))
           [''text'', ''content'', ''message'', ''delta'']
     | _ \<Rightarrow> None))"
  by pat_completeness auto
termination
  by (relation "measure (\<lambda>(_, depth). 13 - depth)") auto

declare projected_text_depth.simps [simp del]

definition projected_text :: "json \<Rightarrow> string option" where
  "projected_text value = projected_text_depth value 0"

section \<open>Sessions\<close>

text \<open>The first twelve characters of the identifier, or all of it.\<close>

definition short_id :: "string \<Rightarrow> string" where
  "short_id s = concat (take 12 (utf8_chars s))"

definition session_record :: "Provider \<Rightarrow> json \<Rightarrow> string list \<Rightarrow> string option \<Rightarrow> json option" where
  "session_record provider record active_ids fallback_cwd =
    Option.bind (first_string record [''id'', ''session_id'', ''sessionId'', ''provider_session_id'']) (\<lambda>session.
      Option.bind (or_else (filter_opt (\<lambda>c. c \<noteq> []) (first_string record [''cwd'', ''directory'', ''project_path'']))
          fallback_cwd) (\<lambda>cwd.
        (let explicit_title = first_string record [''name'', ''title'', ''summary''];
             title = unwrap_or (show_provider provider @ '' '' @ short_id session)
               (filter_opt (\<lambda>t. t \<noteq> []) explicit_title);
             updated_at = unwrap_or JNull
               (first_value record [''updatedAt'', ''updated_at'', ''last_modified'', ''modified_at'']);
             provider_status = Option.bind (jget ''status'' record) (get_str ''type'');
             active = (Option.bind (jget ''active'' record) as_bool = Some True
                \<or> provider_status = Some ''active'' \<or> session \<in> set active_ids) in
         Some (jobj [(''provider'', json_of_provider provider), (''provider_session_id'', JString session),
           (''cwd'', JString cwd), (''title'', JString title), (''updated_at'', updated_at),
           (''active'', JBool active),
           (''state'', JString (if active then ''running'' else ''resumable''))]))))"

definition is_active :: "json \<Rightarrow> bool" where
  "is_active record = (jindex record ''active'' = JBool True)"

definition provider_sessions ::
  "Provider \<Rightarrow> json \<Rightarrow> string list \<Rightarrow> bool \<Rightarrow> bool \<Rightarrow> string option \<Rightarrow> json" where
  "provider_sessions provider result active_ids activity_available active_only fallback_cwd =
    (let records = unwrap_or [] (Option.bind
           (case provider of Codex \<Rightarrow> jget ''data'' result | Claude \<Rightarrow> jget ''sessions'' result) as_array);
         sessions = filter (\<lambda>record. \<not> active_only \<or> is_active record)
           (filter_map (\<lambda>record. session_record provider record active_ids fallback_cwd) records);
         observed_active = list_ex is_active sessions;
         cursor = unwrap_or JNull (case provider of
             Codex \<Rightarrow> jget ''nextCursor'' result
           | Claude \<Rightarrow> or_else (jget ''next_cursor'' result) (jget ''nextCursor'' result)) in
     jobj [(''sessions'', JArray sessions), (''cursor'', cursor),
           (''activity_available'', JBool (activity_available \<or> observed_active))])"

section \<open>Models\<close>

definition model_id_ok :: "string \<Rightarrow> bool" where
  "model_id_ok i = (i \<noteq> [] \<and> chars_count i \<le> 256 \<and> \<not> any_control i)"

definition model_entry :: "json \<Rightarrow> string \<Rightarrow> json" where
  "model_entry record i =
    (let display_name = unwrap_or i (filter_opt (\<lambda>v. v \<noteq> [] \<and> chars_count v \<le> 256)
           (first_string record [''displayName'', ''display_name'', ''name'']));
         description = filter_opt (\<lambda>v. v \<noteq> [] \<and> chars_count v \<le> 4096) (first_string record [''description'']) in
     jobj [(''id'', JString i), (''display_name'', JString display_name),
           (''description'', jopt JString description),
           (''is_default'', JBool (jflag (or_else (jget ''isDefault'' record) (jget ''is_default'' record))))])"

text \<open>The lazy iterator chain: the filter, the fallible map with \<open>seen\<close>, and \<open>take(limit)\<close>.\<close>

fun model_loop :: "string list \<Rightarrow> nat \<Rightarrow> json list \<Rightarrow> json list" where
  "model_loop seen lim [] = []"
| "model_loop seen lim (record # records) =
    (if lim = 0 then []
     else if Option.bind (jget ''hidden'' record) as_bool = Some True then model_loop seen lim records
     else (case first_string record [''model'', ''id''] of
         None \<Rightarrow> model_loop seen lim records
       | Some i \<Rightarrow>
           if \<not> model_id_ok i \<or> i \<in> set seen then model_loop seen lim records
           else model_entry record i # model_loop (i # seen) (lim - 1) records))"

definition provider_models :: "Provider \<Rightarrow> json \<Rightarrow> json" where
  "provider_models provider result =
    (let records = unwrap_or [] (Option.bind (jget ''data'' result) as_array) in
     jobj [(''provider'', json_of_provider provider), (''models'', JArray (model_loop [] 1000 records))])"

section \<open>Histories\<close>

definition codex_item :: "string option \<Rightarrow> json \<Rightarrow> json option" where
  "codex_item turn item =
    Option.bind (get_str ''type'' item) (\<lambda>ty.
      Option.bind (if ty = ''userMessage'' then Some ''user'' else if ty = ''agentMessage'' then Some ''assistant''
          else None) (\<lambda>role.
        map_option (\<lambda>t. jobj [(''id'', jopt JString (get_str ''id'' item)), (''turn_id'', jopt JString turn),
            (''role'', JString role), (''text'', JString t)]) (projected_text item)))"

definition codex_turn :: "json \<Rightarrow> json list" where
  "codex_turn turn =
    (case Option.bind (jget ''items'' turn) as_array of
       None \<Rightarrow> []
     | Some items \<Rightarrow> filter_map (codex_item (get_str ''id'' turn)) items)"

definition codex_history :: "json \<Rightarrow> json list" where
  "codex_history result =
    (case Option.bind (Option.bind (jget ''thread'' result) (jget ''turns'')) as_array of
       None \<Rightarrow> []
     | Some turns \<Rightarrow> concat (map codex_turn turns))"

definition normalized_role :: "string \<Rightarrow> string option" where
  "normalized_role role =
    (let lowercase = to_ascii_lower role in
     if contains_str ''assistant'' lowercase then Some ''assistant''
     else if contains_str ''user'' lowercase \<or> lowercase = ''human'' then Some ''user''
     else if contains_str ''system'' lowercase then Some ''system''
     else None)"

definition claude_record :: "nat \<times> json \<Rightarrow> json option" where
  "claude_record ir = (case ir of (index, record) \<Rightarrow>
    Option.bind (or_else (Option.bind (first_string record [''role'', ''type'']) normalized_role)
        (Option.bind (Option.bind (jget ''message'' record) (\<lambda>m. first_string m [''role''])) normalized_role))
      (\<lambda>role. Option.bind (projected_text record) (\<lambda>t.
        (let i = unwrap_or (''history-'' @ show_nat index) (first_string record [''id'', ''uuid'', ''message_id'']) in
         Some (jobj [(''id'', JString i), (''role'', JString role), (''text'', JString t)])))))"

definition claude_history :: "json \<Rightarrow> json list" where
  "claude_history result =
    filter_map claude_record (enumerate 0 (unwrap_or [] (Option.bind (jget ''messages'' result) as_array)))"

definition history_of :: "Provider \<Rightarrow> json \<Rightarrow> json" where
  "history_of provider result =
    jobj [(''messages'', JArray (case provider of Codex \<Rightarrow> codex_history result | Claude \<Rightarrow> claude_history result)),
          (''cursor'', JNull)]"

section \<open>Editor context\<close>

definition render_input :: "(json \<Rightarrow> string) \<Rightarrow> string \<Rightarrow> json list \<Rightarrow> string" where
  "render_input encode text attachments =
    (if attachments = [] then text
     else ''<agent-manager-context format=\"json\">'' @ [newline] @ encode (JArray attachments)
       @ [newline] @ ''</agent-manager-context>'' @ [newline, newline] @ text)"

section \<open>What the projections promise\<close>

lemma find_map_Some: "find_map f xs = Some y \<Longrightarrow> \<exists>x\<in>set xs. f x = Some y"
  by (induction xs) (auto split: option.splits)

lemma projected_text_nonempty: "projected_text_depth v d = Some t \<Longrightarrow> t \<noteq> []"
proof (induction v d arbitrary: t rule: projected_text_depth.induct)
  case (1 val depth)
  have d: "\<not> depth > 12"
    using 1(3) by (subst (asm) projected_text_depth.simps) (auto split: if_splits)
  show ?case
  proof (cases val)
    case (JArray xs)
    let ?parts = "filter_map (\<lambda>v. projected_text_depth v (depth + 1)) xs"
    have t: "t = concat ?parts" "?parts \<noteq> []"
      using 1(3) d by (subst (asm) projected_text_depth.simps; simp add: JArray Let_def split: if_splits)+
    have "\<forall>p\<in>set ?parts. p \<noteq> []"
      using 1(1) [OF d JArray] by (auto simp: set_filter_map)
    then show ?thesis
      using t by (cases ?parts) auto
  next
    case (JObject m)
    have "find_map (\<lambda>key. case map_of m key of None \<Rightarrow> None | Some v \<Rightarrow> projected_text_depth v (depth + 1))
        [''text'', ''content'', ''message'', ''delta''] = Some t"
      using 1(3) d by (subst (asm) projected_text_depth.simps) (simp add: JObject)
    from find_map_Some [OF this] obtain key v where
      "key \<in> set [''text'', ''content'', ''message'', ''delta'']" "map_of m key = Some v"
      "projected_text_depth v (depth + 1) = Some t"
      by (auto split: option.splits)
    with 1(2) [OF d JObject] show ?thesis by blast
  qed (use 1(3) d in \<open>subst (asm) projected_text_depth.simps, simp split: if_splits\<close>)+
qed

text \<open>An entry comes from a visible record under its own, valid and not yet seen identifier.\<close>

definition listed_model :: "string list \<Rightarrow> json list \<Rightarrow> json \<Rightarrow> bool" where
  "listed_model seen records r = (\<exists>rec\<in>set records. \<exists>i. r = model_entry rec i \<and> model_id_ok i
     \<and> i \<notin> set seen \<and> first_string rec [''model'', ''id''] = Some i
     \<and> Option.bind (jget ''hidden'' rec) as_bool \<noteq> Some True)"

lemma listed_mono:
  "listed_model seen records r \<Longrightarrow> set seen' \<subseteq> set seen \<Longrightarrow> set records \<subseteq> set records' \<Longrightarrow>
   listed_model seen' records' r"
  unfolding listed_model_def by blast

lemma model_loop_ids:
  "list_all (listed_model seen records) (model_loop seen lim records)
   \<and> distinct (map (get_str ''id'') (model_loop seen lim records))
   \<and> length (model_loop seen lim records) \<le> lim"
proof (induction seen lim records rule: model_loop.induct)
  case (2 seen lim rcd records)
  have i: "get_str ''id'' (model_entry r i) = Some i" for r i
    by (simp add: model_entry_def get_str_def jget_jobj Let_def)
  have skip: "list_all (listed_model seen (rcd # records)) ms"
    if "list_all (listed_model seen records) ms" for ms
    using that by (rule list.pred_mono_strong) (auto intro: listed_mono)
  show ?case
  proof (cases "lim = 0 \<or> Option.bind (jget ''hidden'' rcd) as_bool = Some True")
    case True
    with 2(1) skip show ?thesis by auto
  next
    case nh: False
    show ?thesis
    proof (cases "first_string rcd [''model'', ''id'']")
      case None
      with 2(2) nh skip show ?thesis by auto
    next
      case (Some j)
      show ?thesis
      proof (cases "\<not> model_id_ok j \<or> j \<in> set seen")
        case True
        with 2(3) nh Some skip show ?thesis by auto
      next
        case False
        let ?rest = "model_loop (j # seen) (lim - 1) records"
        have IH: "list_all (listed_model (j # seen) records) ?rest"
          "distinct (map (get_str ''id'') ?rest)" "length ?rest \<le> lim - 1"
          using 2(4) nh Some False by simp_all
        have eq: "model_loop seen lim (rcd # records) = model_entry rcd j # ?rest"
          using nh Some False by simp
        have "Some j \<notin> set (map (get_str ''id'') ?rest)"
          using IH(1) i by (fastforce simp: list_all_iff listed_model_def)
        moreover have "listed_model seen (rcd # records) (model_entry rcd j)"
          using False Some nh unfolding listed_model_def by auto
        moreover have "list_all (listed_model seen (rcd # records)) ?rest"
          using IH(1) by (rule list.pred_mono_strong) (auto intro: listed_mono)
        ultimately show ?thesis
          unfolding eq using IH(2,3) i nh by auto
      qed
    qed
  qed
qed simp

text \<open>
  The model list offered to the editor is well formed: at most 1000 models, no identifier
  twice, and every one comes from a record of the reply that is not hidden, under its own
  identifier, which is not empty, at most 256 characters long and free of control characters.
\<close>

theorem provider_models_wf:
  "\<exists>models. jget ''models'' (provider_models provider (jobj [(''data'', JArray records)])) = Some (JArray models)
     \<and> length models \<le> 1000 \<and> distinct (map (get_str ''id'') models)
     \<and> list_all (listed_model [] records) models"
proof -
  have "jget ''models'' (provider_models provider (jobj [(''data'', JArray records)]))
      = Some (JArray (model_loop [] 1000 records))"
    by (simp add: provider_models_def jget_jobj Let_def)
  then show ?thesis
    using model_loop_ids [of "[]" records 1000] by blast
qed

text \<open>Messages of a projected history have a known role and a text that is not empty.\<close>

definition plain_message :: "json \<Rightarrow> bool" where
  "plain_message m = (get_str ''role'' m \<in> {Some ''user'', Some ''assistant'', Some ''system''}
     \<and> (\<exists>t. t \<noteq> [] \<and> get_str ''text'' m = Some t))"

lemma codex_item_plain: "codex_item turn item = Some m \<Longrightarrow> plain_message m"
  using projected_text_nonempty
  by (auto simp: codex_item_def plain_message_def get_str_def jget_jobj projected_text_def
      bind_eq_Some_conv split: if_splits)

lemma normalized_role_range: "normalized_role r = Some x \<Longrightarrow> x \<in> {''user'', ''assistant'', ''system''}"
  by (auto simp: normalized_role_def Let_def split: if_splits)

lemma claude_record_plain: "claude_record ir = Some m \<Longrightarrow> plain_message m"
  using projected_text_nonempty
  by (fastforce simp: claude_record_def plain_message_def get_str_def jget_jobj projected_text_def
      bind_eq_Some_conv Let_def or_else_def dest: normalized_role_range split: prod.splits option.splits)

lemma history_plain:
  "\<exists>ms. jget ''messages'' (history_of provider result) = Some (JArray ms) \<and> list_all plain_message ms"
proof -
  have "list_all plain_message (codex_history result)"
    by (auto simp: codex_history_def codex_turn_def list_all_iff set_filter_map
        intro: codex_item_plain split: option.splits)
  moreover have "list_all plain_message (claude_history result)"
    unfolding claude_history_def list_all_iff set_filter_map using claude_record_plain by blast
  ultimately show ?thesis
    by (cases provider) (simp_all add: history_of_def jget_jobj)
qed

end
