(* ===== verification/Runtime.thy ===== *)
theory Runtime
  imports Projection "HOL-Library.Multiset"
begin

text \<open>
  What the two provider tasks of \<open>runtime.rs\<close> share: the commands they take, the events they
  report, the state of a running task and the book-keeping of human requests.

  A task is a record: the pipes to the provider, the table of pending human requests, the events
  sent so far, whether the broker still listens, the active turn, and a counter that names the
  moments at which the task asked for a fresh identifier or looked at the clock.  The random
  identifiers, the time stamps and the clock are functions of that counter in the environment, so
  nothing is assumed about them unless a lemma says so.  The table is an association list; its order
  stands for the iteration order of the \<open>HashMap\<close>, about which no lemma assumes anything.
\<close>

definition PROVIDER_ERROR_CODE :: int where "PROVIDER_ERROR_CODE = - 32020"
definition INVALID_STATE_CODE :: int where "INVALID_STATE_CODE = - 32021"

datatype SessionLaunch = LaunchStart | LaunchResume string | LaunchFork string

datatype AgentCommand =
    CmdPrompt RequestId string "json list" ProviderOptions
  | CmdSteer RequestId string "json list"
  | CmdInterrupt RequestId
  | CmdHistory RequestId "string option" "u32 option"
  | CmdApproval RequestId string string "json option" "string option"
  | CmdQuestion RequestId string string "(string \<times> json) list" "string option"
  | CmdClientDisconnected
  | CmdShutdown

datatype RuntimeEvent =
    EvStarted RequestId string string ProviderRuntime
  | EvResponse RequestId json
  | EvRequestFailed RequestId string int string bool
  | EvProvider EventEnvelope
  | EvProviderFailed string string
  | EvStopped string

record RtEnv =
  re_codec :: codec
  re_agent :: string
  re_cwd :: string
  re_uuid :: "nat \<Rightarrow> string"
  re_stamp :: "nat \<Rightarrow> string"
  re_clock :: "nat \<Rightarrow> nat"
  re_timeout :: nat

record 'p Task =
  tk_peer :: Peer
  tk_pending :: "(string \<times> 'p) list"
  tk_events :: "RuntimeEvent list"
  tk_listening :: bool
  tk_turn :: "string option"
  tk_ticks :: nat

section \<open>The pending table\<close>

definition map_insert :: "'k \<Rightarrow> 'v \<Rightarrow> ('k \<times> 'v) list \<Rightarrow> ('k \<times> 'v) list" where
  "map_insert k v m = (k, v) # filter (\<lambda>kv. fst kv \<noteq> k) m"

definition map_remove :: "'k \<Rightarrow> ('k \<times> 'v) list \<Rightarrow> ('k \<times> 'v) list" where
  "map_remove k m = filter (\<lambda>kv. fst kv \<noteq> k) m"

lemma map_of_map_insert [simp]: "map_of (map_insert k v m) = (map_of m)(k \<mapsto> v)"
proof -
  have "map_of (filter (\<lambda>kv. fst kv \<noteq> k) m) x = (if x = k then None else map_of m x)" for x
    by (induction m) auto
  then show ?thesis by (auto simp: map_insert_def fun_eq_iff)
qed

lemma map_of_map_remove [simp]: "map_of (map_remove k m) = (map_of m)(k := None)"
proof -
  have "map_of (filter (\<lambda>kv. fst kv \<noteq> k) m) x = (if x = k then None else map_of m x)" for x
    by (induction m) auto
  then show ?thesis by (auto simp: map_remove_def fun_eq_iff)
qed

lemma map_fst_filter: "map fst (filter (\<lambda>kv. fst kv \<noteq> k) m) = filter (\<lambda>x. x \<noteq> k) (map fst m)"
  by (induction m) auto

lemma keys_map_remove: "map fst (map_remove k m) = filter (\<lambda>x. x \<noteq> k) (map fst m)"
  by (simp add: map_remove_def map_fst_filter)

lemma keys_map_insert: "map fst (map_insert k v m) = k # filter (\<lambda>x. x \<noteq> k) (map fst m)"
  by (simp add: map_insert_def map_fst_filter)

lemma mset_remove_key:
  "distinct (map fst m) \<Longrightarrow> map_of m k = Some v \<Longrightarrow>
   mset (map fst m) = add_mset k (mset (map fst (map_remove k m)))"
proof (induction m)
  case (Cons kv m)
  have same: "filter (\<lambda>x. x \<noteq> fst kv) (map fst m) = map fst m"
    using Cons.prems(1) by (auto intro: filter_True)
  show ?case
  proof (cases "fst kv = k")
    case True
    then show ?thesis
      using same by (simp add: keys_map_remove)
  next
    case False
    with Cons show ?thesis
      by (cases kv) (auto simp: keys_map_remove)
  qed
qed simp

lemma distinct_map_remove: "distinct (map fst m) \<Longrightarrow> distinct (map fst (map_remove k m))"
  by (simp add: keys_map_remove)

lemma distinct_map_insert: "distinct (map fst m) \<Longrightarrow> distinct (map fst (map_insert k v m))"
  by (simp add: keys_map_insert)

section \<open>Sending events\<close>

definition emit :: "RuntimeEvent \<Rightarrow> 'p Task \<Rightarrow> 'p Task" where
  "emit e s = (if tk_listening s then s\<lparr>tk_events := tk_events s @ [e]\<rparr> else s)"

text \<open>Sends a public event stamped with the current time.\<close>

definition emit_stamped :: "RtEnv \<Rightarrow> (string \<Rightarrow> EventEnvelope) \<Rightarrow> 'p Task \<Rightarrow> 'p Task" where
  "emit_stamped env mk s = (emit (EvProvider (mk (re_stamp env (tk_ticks s)))) s)\<lparr>tk_ticks := Suc (tk_ticks s)\<rparr>"

definition request_failed :: "RtEnv \<Rightarrow> RequestId \<Rightarrow> int \<Rightarrow> string \<Rightarrow> 'p Task \<Rightarrow> 'p Task" where
  "request_failed env i code message s = emit (EvRequestFailed i (re_agent env) code message True) s"

definition request_rejected :: "RtEnv \<Rightarrow> RequestId \<Rightarrow> string \<Rightarrow> 'p Task \<Rightarrow> 'p Task" where
  "request_rejected env i message s =
    emit (EvRequestFailed i (re_agent env) INVALID_STATE_CODE message False) s"

definition start_failed :: "RtEnv \<Rightarrow> RequestId \<Rightarrow> string \<Rightarrow> 'p Task \<Rightarrow> 'p Task" where
  "start_failed env i message s = request_failed env i PROVIDER_ERROR_CODE message s"

definition runtime_stopped :: "RtEnv \<Rightarrow> 'p Task \<Rightarrow> 'p Task" where
  "runtime_stopped env s = emit (EvStopped (re_agent env)) s"

definition provider_failed :: "RtEnv \<Rightarrow> string \<Rightarrow> 'p Task \<Rightarrow> 'p Task" where
  "provider_failed env message s = emit (EvProviderFailed (re_agent env) message) s"

definition respond_ok :: "RequestId \<Rightarrow> json \<Rightarrow> 'p Task \<Rightarrow> 'p Task" where
  "respond_ok i result s = emit (EvResponse i result) s"

lemmas emit_defs = emit_def request_failed_def request_rejected_def start_failed_def
  runtime_stopped_def provider_failed_def respond_ok_def

section \<open>Questions asked and settled\<close>

text \<open>
  A public event asks a human when it is a redacted request event; it settles the request when it
  is a resolution event.  Both carry the action's identifier in their payload.
\<close>

definition asked_id :: "RuntimeEvent \<Rightarrow> string option" where
  "asked_id e = (case e of
     EvProvider v \<Rightarrow>
       if (ev_type v = ''approval.requested'' \<or> ev_type v = ''question.requested'')
         \<and> jget ''redacted'' (ev_provider_event v) = Some (JBool True)
       then get_str ''id'' (ev_payload v) else None
   | _ \<Rightarrow> None)"

definition settled_id :: "RuntimeEvent \<Rightarrow> string option" where
  "settled_id e = (case e of
     EvProvider v \<Rightarrow>
       if (ev_type v = ''approval.resolved'' \<or> ev_type v = ''question.resolved'')
         \<and> jget ''redacted'' (ev_provider_event v) = Some (JBool True)
       then get_str ''id'' (ev_payload v) else None
   | _ \<Rightarrow> None)"

definition asked :: "RuntimeEvent list \<Rightarrow> string list" where
  "asked es = filter_map asked_id es"

definition settled :: "RuntimeEvent list \<Rightarrow> string list" where
  "settled es = filter_map settled_id es"

lemma asked_simps [simp]:
  "asked [] = []" "asked (es @ fs) = asked es @ asked fs"
  "settled [] = []" "settled (es @ fs) = settled es @ settled fs"
  by (simp_all add: asked_def settled_def)

text \<open>Every identifier asked for is pending or settled, and the number of times is the same.\<close>

definition desk :: "'p Task \<Rightarrow> bool" where
  "desk s = (distinct (map fst (tk_pending s))
     \<and> mset (asked (tk_events s)) = mset (map fst (tk_pending s)) + mset (settled (tk_events s)))"

text \<open>The identifiers handed out so far, all from earlier moments.\<close>

definition known_ids :: "RtEnv \<Rightarrow> 'p Task \<Rightarrow> bool" where
  "known_ids env s = (set (map fst (tk_pending s)) \<union> set (asked (tk_events s)) \<subseteq> re_uuid env ` {..< tk_ticks s})"

definition task_ok :: "RtEnv \<Rightarrow> 'p Task \<Rightarrow> bool" where
  "task_ok env s = (tk_listening s \<and> desk s \<and> known_ids env s \<and> distinct (asked (tk_events s)))"

text \<open>An event that neither asks nor settles.\<close>

definition quiet :: "RuntimeEvent \<Rightarrow> bool" where
  "quiet e = (asked_id e = None \<and> settled_id e = None)"

lemma quiet_simps [simp]:
  "quiet (EvStarted i a p r)" "quiet (EvResponse i j)" "quiet (EvRequestFailed i a c m b)"
  "quiet (EvProviderFailed a m)" "quiet (EvStopped a)"
  by (simp_all add: quiet_def asked_id_def settled_id_def)

lemma desk_quiet: "desk s \<Longrightarrow> quiet e \<Longrightarrow> desk (s\<lparr>tk_events := tk_events s @ [e]\<rparr>)"
  by (simp add: desk_def quiet_def asked_def settled_def)

lemma task_ok_emit: "task_ok env s \<Longrightarrow> quiet e \<Longrightarrow> task_ok env (emit e s)"
  by (simp add: task_ok_def emit_def desk_def known_ids_def quiet_def asked_def settled_def)

lemma known_ids_tick: "known_ids env s \<Longrightarrow> known_ids env (s\<lparr>tk_ticks := Suc (tk_ticks s)\<rparr>)"
  unfolding known_ids_def by (simp add: lessThan_Suc) blast

lemma task_ok_tick: "task_ok env s \<Longrightarrow> task_ok env (s\<lparr>tk_ticks := Suc (tk_ticks s)\<rparr>)"
  using known_ids_tick [of env s] by (simp add: task_ok_def desk_def)

lemma task_ok_peer [simp]: "task_ok env (s\<lparr>tk_peer := p\<rparr>) = task_ok env s"
  by (simp add: task_ok_def desk_def known_ids_def)

lemma task_ok_turn [simp]: "task_ok env (s\<lparr>tk_turn := t\<rparr>) = task_ok env s"
  by (simp add: task_ok_def desk_def known_ids_def)

lemma emit_fields [simp]:
  "tk_ticks (emit e s) = tk_ticks s" "tk_pending (emit e s) = tk_pending s"
  "tk_peer (emit e s) = tk_peer s" "tk_turn (emit e s) = tk_turn s" "tk_listening (emit e s) = tk_listening s"
  by (simp_all add: emit_def)

lemma quiet_fields [simp]:
  "tk_peer (respond_ok i r s) = tk_peer s" "tk_peer (request_failed env i c m s) = tk_peer s"
  "tk_peer (request_rejected env i m s) = tk_peer s" "tk_peer (provider_failed env m s) = tk_peer s"
  "tk_peer (runtime_stopped env s) = tk_peer s" "tk_peer (emit_stamped env mk s) = tk_peer s"
  "tk_pending (respond_ok i r s) = tk_pending s" "tk_pending (request_failed env i c m s) = tk_pending s"
  "tk_pending (request_rejected env i m s) = tk_pending s" "tk_pending (provider_failed env m s) = tk_pending s"
  "tk_turn (respond_ok i r s) = tk_turn s" "tk_turn (request_failed env i c m s) = tk_turn s"
  "tk_turn (request_rejected env i m s) = tk_turn s" "tk_turn (provider_failed env m s) = tk_turn s"
  "tk_turn (emit_stamped env mk s) = tk_turn s"
  by (simp_all add: respond_ok_def request_failed_def request_rejected_def provider_failed_def
      runtime_stopped_def emit_stamped_def)

lemma task_ok_emit_stamped:
  assumes "task_ok env s" and "\<And>t. quiet (EvProvider (mk t))"
  shows "task_ok env (emit_stamped env mk s)"
  using task_ok_tick [OF task_ok_emit [OF assms(1), of "EvProvider (mk (re_stamp env (tk_ticks s)))"]] assms(2)
  by (simp add: emit_stamped_def)

lemma task_ok_quiet:
  assumes "task_ok env s"
  shows "task_ok env (respond_ok i r s)" "task_ok env (request_failed env i c m s)"
    "task_ok env (request_rejected env i m s)" "task_ok env (provider_failed env m s)"
    "task_ok env (runtime_stopped env s)" "task_ok env (start_failed env i m s)"
  unfolding respond_ok_def request_failed_def request_rejected_def provider_failed_def
    runtime_stopped_def start_failed_def
  by (rule task_ok_emit [OF assms]; simp)+

text \<open>Opening a request under a fresh identifier, and settling a pending one.\<close>

lemma task_ok_open:
  assumes ok: "task_ok env s" and inj: "inj (re_uuid env)"
    and i: "i = re_uuid env (tk_ticks s)" and e: "asked_id e = Some i" "settled_id e = None"
    and s': "s' = (emit e s)\<lparr>tk_ticks := Suc (tk_ticks s), tk_pending := map_insert i p (tk_pending s)\<rparr>"
  shows "task_ok env s'"
proof -
  have fresh: "i \<notin> re_uuid env ` {..< tk_ticks s}"
    using inj by (auto simp: i inj_def)
  then have new: "i \<notin> set (map fst (tk_pending s))" "i \<notin> set (asked (tk_events s))"
    using ok unfolding task_ok_def known_ids_def by blast+
  then have "filter (\<lambda>x. x \<noteq> i) (map fst (tk_pending s)) = map fst (tk_pending s)"
    by (auto intro: filter_True)
  then have keys: "map fst (tk_pending s') = i # map fst (tk_pending s)"
    by (simp add: s' keys_map_insert)
  have ev: "asked (tk_events s') = asked (tk_events s) @ [i]" "settled (tk_events s') = settled (tk_events s)"
    using ok e by (simp_all add: s' emit_def task_ok_def asked_def settled_def)
  have "i \<in> re_uuid env ` {..< tk_ticks s'}"
    by (simp add: s' i)
  moreover have "re_uuid env ` {..< tk_ticks s} \<subseteq> re_uuid env ` {..< tk_ticks s'}"
    by (intro image_mono) (simp add: s')
  ultimately show ?thesis
    using ok keys ev new unfolding task_ok_def desk_def known_ids_def
    by (auto simp: s')
qed

lemma task_ok_settle:
  assumes ok: "task_ok env s" and p: "map_of (tk_pending s) i = Some p"
    and e: "asked_id e = None" "settled_id e = Some i"
    and s': "tk_events s' = tk_events s @ [e]" "tk_pending s' = map_remove i (tk_pending s)"
      "tk_listening s'" "tk_ticks s' \<ge> tk_ticks s"
  shows "task_ok env s'"
proof -
  have d: "distinct (map fst (tk_pending s))"
    using ok by (simp add: task_ok_def desk_def)
  have ev: "asked (tk_events s') = asked (tk_events s)" "settled (tk_events s') = settled (tk_events s) @ [i]"
    using e s'(1) by (simp_all add: asked_def settled_def)
  have keys: "set (map fst (tk_pending s')) \<subseteq> set (map fst (tk_pending s))"
    by (auto simp: s'(2) map_remove_def)
  have "re_uuid env ` {..< tk_ticks s} \<subseteq> re_uuid env ` {..< tk_ticks s'}"
    using s'(4) by (intro image_mono) simp
  moreover have "set (map fst (tk_pending s)) \<union> set (asked (tk_events s)) \<subseteq> re_uuid env ` {..< tk_ticks s}"
    using ok by (simp add: task_ok_def known_ids_def)
  moreover have "set (map fst (tk_pending s')) \<union> set (asked (tk_events s'))
      \<subseteq> set (map fst (tk_pending s)) \<union> set (asked (tk_events s))"
    using keys by (simp only: ev(1)) (rule Un_mono [OF _ order.refl])
  ultimately have k: "known_ids env s'"
    unfolding known_ids_def by (meson order_trans)
  have "mset (map fst (tk_pending s)) = add_mset i (mset (map fst (tk_pending s')))"
    using mset_remove_key [OF d p] by (simp add: s'(2))
  then show ?thesis
    using ok ev k d distinct_map_remove s'(2,3) unfolding task_ok_def desk_def by simp
qed

text \<open>The public resolution event settles its action, whoever sends it.\<close>

lemma resolved_event_settles:
  "asked_id (EvProvider (resolved_event now agent provider kind i d r)) = None"
  "settled_id (EvProvider (resolved_event now agent provider kind i d r)) = Some i"
  by (cases kind; simp add: asked_id_def settled_id_def resolved_event_def get_str_def jget_jobj)+

lemma payload_id: "get_str ''id'' (normalized_payload kind i method params) = Some i"
  by (cases kind)
     (simp_all add: normalized_payload_def approval_payload_def question_payload_def get_str_def jget_jobj Let_def)

lemma codex_human_request_asks:
  assumes "codex_human_request now agent i event = Some r"
  shows "hr_id r = i" and "asked_id (EvProvider (hr_envelope r)) = Some i"
    and "settled_id (EvProvider (hr_envelope r)) = None"
proof -
  obtain kind where r: "r = \<lparr>hr_id = i, hr_kind = kind, hr_envelope = new_event now agent Codex (requested_event kind)
      (normalized_payload kind i (pe_method event) (pe_params event))
      (jobj [(''kind'', JString ''request''), (''request_id'', jopt id (pe_request_id event)),
        (''response_required'', JBool True), (''method'', JString (pe_method event)), (''redacted'', JBool True)])\<rparr>"
    using assms by (auto simp: codex_human_request_def Let_def split: if_splits)
  show "hr_id r = i" "asked_id (EvProvider (hr_envelope r)) = Some i"
    "settled_id (EvProvider (hr_envelope r)) = None"
    by (cases kind; simp add: r asked_id_def settled_id_def jget_jobj payload_id)+
qed

lemma claude_human_request_asks:
  assumes "claude_human_request now agent i inbound = Some r"
  shows "hr_id r = i" and "asked_id (EvProvider (hr_envelope r)) = Some i"
    and "settled_id (EvProvider (hr_envelope r)) = None"
proof -
  obtain kind where r: "r = \<lparr>hr_id = i, hr_kind = kind, hr_envelope = new_event now agent Claude (requested_event kind)
      (normalized_payload kind i (wi_method inbound) (wi_params inbound))
      (jobj [(''kind'', JString ''request''), (''request_id'', jopt json_of_request_id (wi_id inbound)),
        (''response_required'', JBool True), (''method'', JString (wi_method inbound)), (''redacted'', JBool True)])\<rparr>"
    using assms by (auto simp: claude_human_request_def Let_def split: if_splits)
  show "hr_id r = i" "asked_id (EvProvider (hr_envelope r)) = Some i"
    "settled_id (EvProvider (hr_envelope r)) = None"
    by (cases kind; simp add: r asked_id_def settled_id_def jget_jobj payload_id)+
qed

lemma task_ok_settle_stamped:
  assumes ok: "task_ok env s" and p: "map_of (tk_pending s) i = Some p"
    and s1: "tk_events s1 = tk_events s" "tk_pending s1 = map_remove i (tk_pending s)"
      "tk_listening s1" "tk_ticks s1 = tk_ticks s"
  shows "task_ok env (emit_stamped env (\<lambda>now. resolved_event now agent provider kind i d r) s1)"
  by (rule task_ok_settle [OF ok p])
     (use s1 in \<open>simp_all add: emit_stamped_def emit_def resolved_event_settles\<close>)

section \<open>The loop and its contract\<close>

text \<open>A round that says stop is followed by the epilogue, and the task has ended.\<close>

fun task_loop :: "('i \<Rightarrow> 'p Task \<Rightarrow> 'p Task \<times> bool) \<Rightarrow> ('p Task \<Rightarrow> 'p Task) \<Rightarrow> 'i list \<Rightarrow> 'p Task \<Rightarrow> 'p Task \<times> bool" where
  "task_loop round epilogue [] s = (s, True)"
| "task_loop round epilogue (input # inputs) s =
    (case round input s of
       (s1, True) \<Rightarrow> task_loop round epilogue inputs s1
     | (s1, False) \<Rightarrow> (epilogue s1, False))"

locale provider_task =
  fixes round :: "'i \<Rightarrow> 'p Task \<Rightarrow> 'p Task \<times> bool"
    and epilogue :: "'p Task \<Rightarrow> 'p Task"
    and ok :: "'p Task \<Rightarrow> bool"
  assumes ok_desk: "ok s \<Longrightarrow> desk s \<and> distinct (asked (tk_events s))"
    and round_ok: "ok s \<Longrightarrow> round input s = (s', c) \<Longrightarrow> ok s'"
    and epilogue_ok: "ok s \<Longrightarrow> ok (epilogue s)"
    and epilogue_empty: "ok s \<Longrightarrow> tk_pending (epilogue s) = []"
begin

lemma loop_ok: "ok s \<Longrightarrow> task_loop round epilogue inputs s = (s', c) \<Longrightarrow> ok s'"
proof (induction inputs arbitrary: s)
  case (Cons input inputs)
  obtain s1 c1 where r: "round input s = (s1, c1)" by fastforce
  have ok1: "ok s1" by (rule round_ok [OF Cons.prems(1) r])
  with Cons r epilogue_ok show ?case by (cases c1) auto
qed simp

lemma loop_ended_empty:
  "ok s \<Longrightarrow> task_loop round epilogue inputs s = (s', False) \<Longrightarrow> tk_pending s' = []"
proof (induction inputs arbitrary: s)
  case (Cons input inputs)
  obtain s1 c1 where r: "round input s = (s1, c1)" by fastforce
  have ok1: "ok s1" by (rule round_ok [OF Cons.prems(1) r])
  with Cons r epilogue_empty show ?case by (cases c1) auto
qed simp

text \<open>Nothing is settled that was not asked or settled twice; at the end nothing is left open.\<close>

lemma settled_once:
  assumes "ok s" and "task_loop round epilogue inputs s = (s', c)"
  shows "distinct (settled (tk_events s'))"
    and "set (settled (tk_events s')) \<union> set (map fst (tk_pending s')) = set (asked (tk_events s'))"
    and "set (settled (tk_events s')) \<inter> set (map fst (tk_pending s')) = {}"
proof -
  have d: "desk s'" "distinct (asked (tk_events s'))"
    using ok_desk [OF loop_ok [OF assms]] by simp_all
  then have m: "mset (asked (tk_events s')) = mset (map fst (tk_pending s') @ settled (tk_events s'))"
    by (simp add: desk_def)
  then have dd: "distinct (map fst (tk_pending s') @ settled (tk_events s'))"
    using d(2) mset_eq_imp_distinct_iff by blast
  then show "distinct (settled (tk_events s'))"
    and "set (settled (tk_events s')) \<inter> set (map fst (tk_pending s')) = {}"
    by auto
  have "set (asked (tk_events s')) = set (map fst (tk_pending s') @ settled (tk_events s'))"
    using m by (metis set_mset_mset)
  then show "set (settled (tk_events s')) \<union> set (map fst (tk_pending s')) = set (asked (tk_events s'))"
    by auto
qed

lemma all_settled_once:
  assumes "ok s" and "task_loop round epilogue inputs s = (s', False)"
  shows "distinct (settled (tk_events s')) \<and> set (settled (tk_events s')) = set (asked (tk_events s'))"
  using settled_once [OF assms] loop_ended_empty [OF assms] by simp

end

end
