(* ===== verification/CodexRuntime.thy ===== *)
theory CodexRuntime
  imports Runtime
begin

text \<open>
  The task that runs one Codex agent: \<open>run_codex\<close> and its helpers in \<open>runtime.rs\<close>.

  One round of the \<open>select!\<close> loop is one \<open>codex_round\<close>; what made the round happen is its input:
  a command, the closing of the command channel, a provider frame, a deadline, or a provider read
  that was abandoned after consuming whole buffers because another branch won.  A round whose guard
  is false is disabled and leaves the state alone.  The boolean beside the state says whether the
  loop goes on.
\<close>

record PendingCodexRequest =
  pc_kind :: HumanRequestKind
  pc_event :: ProviderEvent
  pc_deadline :: nat

type_synonym codex_task = "PendingCodexRequest Task"

section \<open>Publishing provider events\<close>

definition is_terminal_method :: "string \<Rightarrow> bool" where
  "is_terminal_method method = (method = ''turn/completed'' \<or> method = ''error'')"

definition publish_normalized :: "RtEnv \<Rightarrow> ProviderEvent \<Rightarrow> codex_task \<Rightarrow> codex_task" where
  "publish_normalized env event s =
    emit_stamped env (\<lambda>now. normalize_event now (re_agent env) event) s"

definition publish_codex_event ::
  "RtEnv \<Rightarrow> ProviderEvent \<Rightarrow> codex_task \<Rightarrow> (CodexError + bool) \<times> codex_task" where
  "publish_codex_event env event s =
    (let terminal = is_terminal_method (pe_method event) in
     if pe_response_required event then
       (let n = tk_ticks s; s1 = s\<lparr>tk_ticks := Suc n\<rparr> in
        case codex_human_request (re_stamp env n) (re_agent env) (re_uuid env n) event of
          Some request \<Rightarrow>
            (let pending = \<lparr>pc_kind = hr_kind request, pc_event = event,
                            pc_deadline = re_clock env n + re_timeout env\<rparr>;
                 s2 = s1\<lparr>tk_pending := map_insert (hr_id request) pending (tk_pending s1)\<rparr> in
             (Inr False, emit (EvProvider (hr_envelope request)) s2))
        | None \<Rightarrow>
            (case deny_server_request (re_codec env) event (tk_peer s1) of
               (Inl e, p) \<Rightarrow> (Inl e, s1\<lparr>tk_peer := p\<rparr>)
             | (Inr event1, p) \<Rightarrow> (Inr terminal, publish_normalized env event1 (s1\<lparr>tk_peer := p\<rparr>))))
     else (Inr terminal, publish_normalized env event s))"

fun publish_codex_events ::
  "RtEnv \<Rightarrow> ProviderEvent list \<Rightarrow> codex_task \<Rightarrow> (CodexError + bool) \<times> codex_task" where
  "publish_codex_events env [] s = (Inr False, s)"
| "publish_codex_events env (event # events) s =
    (case publish_codex_event env event s of
       (Inl e, s1) \<Rightarrow> (Inl e, s1)
     | (Inr t, s1) \<Rightarrow>
         (case publish_codex_events env events s1 of
            (Inl e, s2) \<Rightarrow> (Inl e, s2)
          | (Inr t', s2) \<Rightarrow> (Inr (t \<or> t'), s2)))"

section \<open>Answering and refusing\<close>

definition resolved_result :: "string \<Rightarrow> string \<Rightarrow> json" where
  "resolved_result action_id decision =
    jobj [(''resolved'', JBool True), (''id'', JString action_id), (''decision'', JString decision)]"

text \<open>The last steps of both responders: the answer, the table, the reply and the public event.\<close>

definition finish_codex_response ::
  "RtEnv \<Rightarrow> RequestId \<Rightarrow> string \<Rightarrow> string \<Rightarrow> HumanRequestKind \<Rightarrow> PendingCodexRequest \<Rightarrow> json \<Rightarrow> string
    \<Rightarrow> codex_task \<Rightarrow> codex_task" where
  "finish_codex_response env request_id action_id decision kind pending result failure s =
    (case respond_server_request (re_codec env) (pc_event pending) result (tk_peer s) of
       (Inl _, p) \<Rightarrow> request_failed env request_id PROVIDER_ERROR_CODE failure (s\<lparr>tk_peer := p\<rparr>)
     | (Inr _, p) \<Rightarrow>
         (let s1 = s\<lparr>tk_peer := p, tk_pending := map_remove action_id (tk_pending s)\<rparr>;
              s2 = respond_ok request_id (resolved_result action_id decision) s1 in
          emit_stamped env (\<lambda>now. resolved_event now (re_agent env) Codex kind action_id decision None) s2))"

definition respond_codex_approval ::
  "RtEnv \<Rightarrow> RequestId \<Rightarrow> string \<Rightarrow> string \<Rightarrow> string option \<Rightarrow> codex_task \<Rightarrow> codex_task" where
  "respond_codex_approval env request_id action_id decision message s =
    (case map_of (tk_pending s) action_id of
       None \<Rightarrow> request_rejected env request_id ''approval request is no longer pending'' s
     | Some pending \<Rightarrow>
         if pc_kind pending \<noteq> Approval then
           request_rejected env request_id ''pending request is not an approval'' s
         else
           (case codex_approval_response (pc_event pending) decision message of
              Inl e \<Rightarrow> request_rejected env request_id e s
            | Inr result \<Rightarrow> finish_codex_response env request_id action_id decision Approval pending result
                ''Codex approval response failed'' s))"

definition respond_codex_question ::
  "RtEnv \<Rightarrow> RequestId \<Rightarrow> string \<Rightarrow> string \<Rightarrow> (string \<times> json) list \<Rightarrow> codex_task \<Rightarrow> codex_task" where
  "respond_codex_question env request_id action_id decision answers s =
    (case map_of (tk_pending s) action_id of
       None \<Rightarrow> request_rejected env request_id ''question request is no longer pending'' s
     | Some pending \<Rightarrow>
         if pc_kind pending \<noteq> Question then
           request_rejected env request_id ''pending request is not a question'' s
         else
           (case codex_question_response (pc_event pending) decision answers of
              Inl e \<Rightarrow> request_rejected env request_id e s
            | Inr result \<Rightarrow> finish_codex_response env request_id action_id decision Question pending result
                ''Codex question response failed'' s))"

text \<open>One pending request is refused; a failed write is remembered but does not stop the loop.\<close>

definition deny_one_codex :: "RtEnv \<Rightarrow> string \<Rightarrow> string \<Rightarrow> codex_task \<Rightarrow> bool \<times> codex_task" where
  "deny_one_codex env reason action_id s =
    (case map_of (tk_pending s) action_id of
       None \<Rightarrow> (True, s)
     | Some pending \<Rightarrow>
         (case deny_server_request (re_codec env) (pc_event pending) (tk_peer s) of (r, p) \<Rightarrow>
            (is_ok r,
             emit_stamped env (\<lambda>now. resolved_event now (re_agent env) Codex (pc_kind pending) action_id
                 ''deny'' (Some reason))
               (s\<lparr>tk_peer := p, tk_pending := map_remove action_id (tk_pending s)\<rparr>))))"

fun deny_list_codex :: "RtEnv \<Rightarrow> string \<Rightarrow> string list \<Rightarrow> codex_task \<Rightarrow> bool \<times> codex_task" where
  "deny_list_codex env reason [] s = (True, s)"
| "deny_list_codex env reason (i # is) s =
    (case deny_one_codex env reason i s of (ok, s1) \<Rightarrow>
      (case deny_list_codex env reason is s1 of (ok', s2) \<Rightarrow> (ok \<and> ok', s2)))"

definition deny_all_codex_requests :: "RtEnv \<Rightarrow> string \<Rightarrow> codex_task \<Rightarrow> bool \<times> codex_task" where
  "deny_all_codex_requests env reason s = deny_list_codex env reason (map fst (tk_pending s)) s"

definition expire_codex_requests :: "RtEnv \<Rightarrow> codex_task \<Rightarrow> bool \<times> codex_task" where
  "expire_codex_requests env s =
    (let now = re_clock env (tk_ticks s); s1 = s\<lparr>tk_ticks := Suc (tk_ticks s)\<rparr>;
         expired = map fst (filter (\<lambda>(_, r). pc_deadline r \<le> now) (tk_pending s1)) in
     deny_list_codex env ''timeout'' expired s1)"

definition next_codex_deadline :: "codex_task \<Rightarrow> nat option" where
  "next_codex_deadline s =
    (if tk_pending s = [] then None else Some (min_list (map (pc_deadline \<circ> snd) (tk_pending s))))"

section \<open>Commands\<close>

text \<open>What every provider call does with the events collected while it waited.\<close>

definition codex_after_call ::
  "RtEnv \<Rightarrow> ProviderEvent list \<Rightarrow> string \<Rightarrow> codex_task \<Rightarrow> codex_task \<times> bool" where
  "codex_after_call env events failure s =
    (case publish_codex_events env events s of
       (Inr True, s1) \<Rightarrow> (s1\<lparr>tk_turn := None\<rparr>, True)
     | (Inr False, s1) \<Rightarrow> (s1, True)
     | (Inl _, s1) \<Rightarrow> (provider_failed env failure s1, False))"

definition codex_prompt ::
  "RtEnv \<Rightarrow> string \<Rightarrow> RequestId \<Rightarrow> string \<Rightarrow> json list \<Rightarrow> ProviderOptions \<Rightarrow> codex_task \<Rightarrow> codex_task \<times> bool" where
  "codex_prompt env session request_id text attachments options s =
    (if tk_turn s \<noteq> None then
       (request_rejected env request_id ''agent already has an active turn'' s, True)
     else
       (let rendered = render_input (cd_encode (re_codec env)) text attachments in
        case start_turn (re_codec env) session rendered (po_model options) (po_effort options) (tk_peer s) of
          (Inl _, p) \<Rightarrow>
            (request_failed env request_id PROVIDER_ERROR_CODE ''Codex rejected the prompt'' (s\<lparr>tk_peer := p\<rparr>), True)
        | (Inr outcome, p) \<Rightarrow>
            (case turn_id (ro_result outcome) of
               None \<Rightarrow>
                 (request_failed env request_id PROVIDER_ERROR_CODE
                    ''Codex turn creation omitted its identity'' (s\<lparr>tk_peer := p\<rparr>), True)
             | Some new_turn_id \<Rightarrow>
                 (let s1 = respond_ok request_id
                        (jobj [(''accepted'', JBool True), (''turn_id'', JString new_turn_id)]) (s\<lparr>tk_peer := p\<rparr>);
                      s2 = s1\<lparr>tk_turn := Some new_turn_id\<rparr> in
                  codex_after_call env (ro_events outcome) ''Codex turn events were invalid'' s2))))"

definition codex_steer_command ::
  "RtEnv \<Rightarrow> string \<Rightarrow> RequestId \<Rightarrow> string \<Rightarrow> json list \<Rightarrow> codex_task \<Rightarrow> codex_task \<times> bool" where
  "codex_steer_command env session request_id text attachments s =
    (case tk_turn s of
       None \<Rightarrow> (request_rejected env request_id ''agent has no active turn to steer'' s, True)
     | Some turn \<Rightarrow>
         (let rendered = render_input (cd_encode (re_codec env)) text attachments in
          case codex_steer (re_codec env) session turn rendered (tk_peer s) of
            (Inl _, p) \<Rightarrow>
              (request_failed env request_id PROVIDER_ERROR_CODE ''Codex rejected the steering input''
                 (s\<lparr>tk_peer := p\<rparr>), True)
          | (Inr outcome, p) \<Rightarrow>
              (let s1 = respond_ok request_id (jobj [(''accepted'', JBool True)]) (s\<lparr>tk_peer := p\<rparr>) in
               codex_after_call env (ro_events outcome) ''Codex steer events were invalid'' s1)))"

definition codex_interrupt ::
  "RtEnv \<Rightarrow> string \<Rightarrow> RequestId \<Rightarrow> codex_task \<Rightarrow> codex_task \<times> bool" where
  "codex_interrupt env session request_id s =
    (case deny_all_codex_requests env ''interrupt'' s of
       (False, s1) \<Rightarrow>
         (request_failed env request_id PROVIDER_ERROR_CODE
            ''Codex pending request cancellation failed'' s1, True)
     | (True, s1) \<Rightarrow>
         (case tk_turn s1 of
            None \<Rightarrow>
              (respond_ok request_id (jobj [(''interrupted'', JBool False),
                 (''reason'', JString ''no_active_turn'')]) s1, True)
          | Some turn \<Rightarrow>
              (case interrupt_with_events (re_codec env) session turn (tk_peer s1) of
                 (Inl _, p) \<Rightarrow>
                   (request_failed env request_id PROVIDER_ERROR_CODE ''Codex interrupt failed''
                      (s1\<lparr>tk_peer := p\<rparr>), True)
               | (Inr outcome, p) \<Rightarrow>
                   (let s2 = respond_ok request_id (jobj [(''interrupted'', JBool True)]) (s1\<lparr>tk_peer := p\<rparr>) in
                    codex_after_call env (ro_events outcome) ''Codex interrupt events were invalid'' s2))))"

text \<open>The events collected while the history was read are dropped with the outcome.\<close>

definition codex_history_command :: "RtEnv \<Rightarrow> string \<Rightarrow> RequestId \<Rightarrow> codex_task \<Rightarrow> codex_task \<times> bool" where
  "codex_history_command env session request_id s =
    (case read_thread (re_codec env) session (tk_peer s) of
       (Inl _, p) \<Rightarrow> (request_rejected env request_id ''Codex history request failed'' (s\<lparr>tk_peer := p\<rparr>), True)
     | (Inr outcome, p) \<Rightarrow>
         (respond_ok request_id (history_of Codex (ro_result outcome)) (s\<lparr>tk_peer := p\<rparr>), True))"

definition codex_command :: "RtEnv \<Rightarrow> string \<Rightarrow> AgentCommand \<Rightarrow> codex_task \<Rightarrow> codex_task \<times> bool" where
  "codex_command env session command s =
    (case command of
       CmdPrompt request_id text attachments options \<Rightarrow>
         codex_prompt env session request_id text attachments options s
     | CmdSteer request_id text attachments \<Rightarrow>
         codex_steer_command env session request_id text attachments s
     | CmdInterrupt request_id \<Rightarrow> codex_interrupt env session request_id s
     | CmdHistory request_id cursor limit \<Rightarrow> codex_history_command env session request_id s
     | CmdApproval request_id action_id decision updated_input message \<Rightarrow>
         (respond_codex_approval env request_id action_id decision message s, True)
     | CmdQuestion request_id action_id decision answers message \<Rightarrow>
         (respond_codex_question env request_id action_id decision answers s, True)
     | CmdClientDisconnected \<Rightarrow>
         (case deny_all_codex_requests env ''client_disconnect'' s of
            (True, s1) \<Rightarrow> (s1, True)
          | (False, s1) \<Rightarrow> (provider_failed env ''Codex client disconnect handling failed'' s1, False))
     | CmdShutdown \<Rightarrow> (snd (deny_all_codex_requests env ''shutdown'' s), False))"

section \<open>The loop\<close>

datatype task_input =
    InCommand AgentCommand
  | InCommandsClosed
  | InProvider
  | InDeadline
  | InReadDropped nat

text \<open>
  Buffers a pending provider read may have consumed when it is dropped: complete, without a newline,
  and not yet over the limit.
\<close>

definition droppable :: "nat \<Rightarrow> nat \<Rightarrow> Peer \<Rightarrow> bool" where
  "droppable lim n p =
    (n \<le> length (pr_reader p)
     \<and> list_all (\<lambda>b. case b of Some d \<Rightarrow> d \<noteq> [] \<and> newline \<notin> set d | None \<Rightarrow> False) (take n (pr_reader p))
     \<and> sum_list (map (\<lambda>b. length (unwrap_or [] b)) (take n (pr_reader p))) \<le> lim)"

definition codex_round :: "RtEnv \<Rightarrow> string \<Rightarrow> task_input \<Rightarrow> codex_task \<Rightarrow> codex_task \<times> bool" where
  "codex_round env session input s =
    (case input of
       InCommand command \<Rightarrow> codex_command env session command s
     | InCommandsClosed \<Rightarrow> (s, False)
     | InProvider \<Rightarrow>
         if tk_turn s = None then (s, True)
         else (case next_event (re_codec env) (tk_peer s) of
             (Inl _, p) \<Rightarrow> (provider_failed env ''Codex event stream disconnected'' (s\<lparr>tk_peer := p\<rparr>), False)
           | (Inr event, p) \<Rightarrow>
               (case publish_codex_event env event (s\<lparr>tk_peer := p\<rparr>) of
                  (Inr True, s1) \<Rightarrow> (s1\<lparr>tk_turn := None\<rparr>, True)
                | (Inr False, s1) \<Rightarrow> (s1, True)
                | (Inl _, s1) \<Rightarrow> (provider_failed env ''Codex event stream failed'' s1, False)))
     | InDeadline \<Rightarrow>
         if tk_pending s = [] then (s, True)
         else (case expire_codex_requests env s of
             (True, s1) \<Rightarrow> (s1, True)
           | (False, s1) \<Rightarrow> (provider_failed env ''Codex callback timeout handling failed'' s1, False))
     | InReadDropped n \<Rightarrow>
         if tk_turn s \<noteq> None \<and> droppable CODEX_MAX_FRAME_BYTES n (tk_peer s)
         then (s\<lparr>tk_peer := (tk_peer s)\<lparr>pr_reader := cancelled_after n (pr_reader (tk_peer s))\<rparr>\<rparr>, True)
         else (s, True))"

text \<open>After the loop: refuse what is still pending, then report the end.\<close>

definition codex_finish :: "RtEnv \<Rightarrow> codex_task \<Rightarrow> codex_task" where
  "codex_finish env s = runtime_stopped env (snd (deny_all_codex_requests env ''provider_exit'' s))"

definition codex_loop :: "RtEnv \<Rightarrow> string \<Rightarrow> task_input list \<Rightarrow> codex_task \<Rightarrow> codex_task \<times> bool" where
  "codex_loop env session inputs s = task_loop (codex_round env session) (codex_finish env) inputs s"

section \<open>Start\<close>

text \<open>\<open>run_codex\<close> up to the loop; \<open>spawned\<close> is the process, if it could be started.\<close>

definition codex_open ::
  "RtEnv \<Rightarrow> SessionLaunch \<Rightarrow> ProviderOptions \<Rightarrow> Peer \<Rightarrow> (CodexError + RequestOutcome) \<times> Peer" where
  "codex_open env launch options p =
    (case launch of
       LaunchStart \<Rightarrow> start_thread (re_codec env) (re_cwd env) (po_model options) p
     | LaunchResume session \<Rightarrow> resume_thread (re_codec env) session (re_cwd env) (po_model options) p
     | LaunchFork session \<Rightarrow> fork_thread (re_codec env) session (re_cwd env) (po_model options) p)"

definition new_task :: "Peer \<Rightarrow> bool \<Rightarrow> 'p Task" where
  "new_task p listening = \<lparr>tk_peer = p, tk_pending = [], tk_events = [], tk_listening = listening,
     tk_turn = None, tk_ticks = 0\<rparr>"

definition abort_start :: "RtEnv \<Rightarrow> RequestId \<Rightarrow> string \<Rightarrow> 'p Task \<Rightarrow> 'p Task \<times> string option" where
  "abort_start env request_id message s = (runtime_stopped env (start_failed env request_id message s), None)"

text \<open>The result is the task and, when it enters the loop, the provider's session identifier.\<close>

definition codex_start ::
  "RtEnv \<Rightarrow> (string \<Rightarrow> string option) \<Rightarrow> string \<Rightarrow> RequestId \<Rightarrow> SessionLaunch \<Rightarrow> ProviderOptions
    \<Rightarrow> Peer option \<Rightarrow> bool \<Rightarrow> codex_task \<times> string option" where
  "codex_start env resolve program request_id launch options spawned listening =
    (case spawned of
       None \<Rightarrow> abort_start env request_id ''Codex App Server could not be started''
           (new_task \<lparr>pr_reader = [], pr_written = [], pr_accepts = Some 0, pr_next_id = 1\<rparr> listening)
     | Some p0 \<Rightarrow>
         (case codex_initialize (re_codec env) p0 of
            (Inl _, p) \<Rightarrow> abort_start env request_id ''Codex App Server initialization failed'' (new_task p listening)
          | (Inr initialized, p) \<Rightarrow>
              (case codex_runtime_identity resolve program initialized of
                 Inl _ \<Rightarrow> abort_start env request_id
                   ''Codex App Server is outside the supported compatibility profile'' (new_task p listening)
               | Inr runtime \<Rightarrow>
                   (case codex_open env launch options p of
                      (Inl _, p1) \<Rightarrow> abort_start env request_id ''Codex session open failed'' (new_task p1 listening)
                    | (Inr started, p1) \<Rightarrow>
                        (case thread_id (ro_result started) of
                           None \<Rightarrow> abort_start env request_id
                             ''Codex session open omitted its identity'' (new_task p1 listening)
                         | Some session \<Rightarrow>
                             if \<not> listening then (new_task p1 listening, None)
                             else
                               (let s1 = emit (EvStarted request_id (re_agent env) session runtime) (new_task p1 listening) in
                                case publish_codex_events env (ro_events started) s1 of
                                  (Inl _, s2) \<Rightarrow>
                                    (runtime_stopped env
                                       (provider_failed env ''Codex startup events were invalid'' s2), None)
                                | (Inr _, s2) \<Rightarrow> (s2, Some session)))))))"

section \<open>The desk stays balanced\<close>

definition live :: "RtEnv \<Rightarrow> 'p Task \<Rightarrow> bool" where
  "live env s = (task_ok env s \<and> inj (re_uuid env))"

lemma normalized_quiet: "quiet (EvProvider (normalize_event now agent event))"
  by (simp add: quiet_def asked_id_def settled_id_def normalize_event_def jget_jobj)

lemma live_normalized: "live env s \<Longrightarrow> live env (publish_normalized env event s)"
  by (simp add: live_def publish_normalized_def task_ok_emit_stamped normalized_quiet)

lemma live_peer [simp]: "live env (s\<lparr>tk_peer := p\<rparr>) = live env s"
  by (simp add: live_def)

lemma live_turn [simp]: "live env (s\<lparr>tk_turn := t\<rparr>) = live env s"
  by (simp add: live_def)

lemma live_tick: "live env s \<Longrightarrow> live env (s\<lparr>tk_ticks := Suc (tk_ticks s)\<rparr>)"
  by (simp add: live_def task_ok_tick)

lemma live_quiet:
  "live env s \<Longrightarrow> live env (respond_ok i r s)" "live env s \<Longrightarrow> live env (request_failed env i c m s)"
  "live env s \<Longrightarrow> live env (request_rejected env i m s)" "live env s \<Longrightarrow> live env (provider_failed env m s)"
  "live env s \<Longrightarrow> live env (runtime_stopped env s)" "live env s \<Longrightarrow> live env (start_failed env i m s)"
  by (simp_all add: live_def task_ok_quiet)

lemma live_publish:
  assumes "live env s" and "publish_codex_event env event s = (r, s')"
  shows "live env s'"
proof (cases "pe_response_required event")
  case False
  with assms show ?thesis
    by (auto simp: publish_codex_event_def intro: live_normalized)
next
  case True
  let ?n = "tk_ticks s"
  show ?thesis
  proof (cases "codex_human_request (re_stamp env ?n) (re_agent env) (re_uuid env ?n) event")
    case None
    have "live env (s\<lparr>tk_ticks := Suc ?n\<rparr>)"
      using assms(1) by (rule live_tick)
    then have l: "live env (s\<lparr>tk_ticks := Suc ?n, tk_peer := p\<rparr>)" for p
      by simp
    from True None assms(2) l show ?thesis
      by (auto simp: publish_codex_event_def Let_def intro: live_normalized split: sum.splits prod.splits)
  next
    case (Some request)
    note ask = codex_human_request_asks [OF Some]
    let ?p = "\<lparr>pc_kind = hr_kind request, pc_event = event, pc_deadline = re_clock env ?n + re_timeout env\<rparr>"
    have s': "s' = (emit (EvProvider (hr_envelope request)) s)\<lparr>tk_ticks := Suc ?n,
        tk_pending := map_insert (re_uuid env ?n) ?p (tk_pending s)\<rparr>"
      using True Some assms(2) ask(1) by (auto simp: publish_codex_event_def emit_def Let_def)
    show ?thesis
      using assms(1) task_ok_open [OF _ _ refl ask(2,3) s'] by (simp add: live_def)
  qed
qed

lemma live_publish_all:
  "live env s \<Longrightarrow> publish_codex_events env events s = (r, s') \<Longrightarrow> live env s'"
proof (induction events arbitrary: s r)
  case (Cons event events)
  obtain x s1 where p: "publish_codex_event env event s = (x, s1)" by fastforce
  have "live env s1" by (rule live_publish [OF Cons.prems(1) p])
  with Cons p show ?case
    by (auto split: sum.splits prod.splits)
qed simp

lemma live_settle:
  assumes "live env s" and "map_of (tk_pending s) i = Some p"
    and "tk_events s1 = tk_events s" "tk_pending s1 = map_remove i (tk_pending s)"
      "tk_listening s1" "tk_ticks s1 = tk_ticks s"
  shows "live env (emit_stamped env (\<lambda>now. resolved_event now agent provider kind i d r) s1)"
  using task_ok_settle_stamped [of env s i p s1] assms by (simp add: live_def)

lemma live_listening: "live env s \<Longrightarrow> tk_listening s"
  by (simp add: live_def task_ok_def)

lemma emit_stamped_pending [simp]: "tk_pending (emit_stamped env mk s) = tk_pending s"
  by (simp add: emit_stamped_def)

lemma live_deny_one:
  assumes "live env s" and "deny_one_codex env reason i s = (ok, s')"
  shows "live env s' \<and> map fst (tk_pending s') = filter (\<lambda>x. x \<noteq> i) (map fst (tk_pending s))"
proof (cases "map_of (tk_pending s) i")
  case None
  then have "i \<notin> set (map fst (tk_pending s))"
    by (simp add: map_of_eq_None_iff)
  then have "filter (\<lambda>x. x \<noteq> i) (map fst (tk_pending s)) = map fst (tk_pending s)"
    by (auto intro: filter_True)
  with None assms show ?thesis by (auto simp: deny_one_codex_def)
next
  case (Some pending)
  let ?s1 = "\<lambda>p. s\<lparr>tk_peer := p, tk_pending := map_remove i (tk_pending s)\<rparr>"
  have "live env (emit_stamped env (\<lambda>now. resolved_event now (re_agent env) Codex (pc_kind pending) i
      ''deny'' (Some reason)) (?s1 p))" for p
    by (rule live_settle [OF assms(1) Some]) (simp_all add: live_listening [OF assms(1)])
  then show ?thesis
    using Some assms(2) by (auto simp: deny_one_codex_def keys_map_remove split: prod.splits)
qed

lemma live_deny_list:
  "live env s \<Longrightarrow> deny_list_codex env reason is s = (ok, s') \<Longrightarrow>
   live env s' \<and> map fst (tk_pending s') = filter (\<lambda>x. x \<notin> set is) (map fst (tk_pending s))"
proof (induction "is" arbitrary: s ok s')
  case (Cons i "is")
  obtain ok1 s1 where d: "deny_one_codex env reason i s = (ok1, s1)" by fastforce
  obtain ok2 s2 where d2: "deny_list_codex env reason is s1 = (ok2, s2)" by fastforce
  note one = live_deny_one [OF Cons.prems(1) d]
  note rest = Cons.IH [OF conjunct1 [OF one] d2]
  have "s' = s2"
    using Cons.prems(2) d d2 by simp
  then show ?case
    using one rest by (auto intro: filter_cong)
qed simp

lemma live_deny_all:
  assumes "live env s" and "deny_all_codex_requests env reason s = (ok, s')"
  shows "live env s' \<and> tk_pending s' = []"
proof -
  have "live env s' \<and> map fst (tk_pending s') = filter (\<lambda>x. x \<notin> set (map fst (tk_pending s))) (map fst (tk_pending s))"
    using live_deny_list [OF assms(1)] assms(2) unfolding deny_all_codex_requests_def by blast
  then have "live env s'" "map fst (tk_pending s') = []"
    by (simp_all add: filter_empty_conv)
  then show ?thesis by simp
qed

lemma live_expire: "live env s \<Longrightarrow> expire_codex_requests env s = (ok, s') \<Longrightarrow> live env s'"
  using live_deny_list [OF live_tick] by (fastforce simp: expire_codex_requests_def Let_def)

lemma live_finish_response:
  assumes "live env s" and "map_of (tk_pending s) i = Some p"
  shows "live env (finish_codex_response env r i d kind p result failure s)"
proof -
  let ?s2 = "\<lambda>q. respond_ok r (resolved_result i d) (s\<lparr>tk_peer := q, tk_pending := map_remove i (tk_pending s)\<rparr>)"
  have settle: "live env (emit_stamped env (\<lambda>now. resolved_event now (re_agent env) Codex kind i d None) (?s2 q))" for q
  proof -
    have l: "live env (s\<lparr>tk_events := tk_events s @ [EvResponse r (resolved_result i d)]\<rparr>)"
      using live_quiet(1) [OF assms(1), of r "resolved_result i d"] live_listening [OF assms(1)]
      by (simp add: respond_ok_def emit_def)
    show ?thesis
      by (rule live_settle [OF l]) (simp_all add: assms(2) respond_ok_def emit_def live_listening [OF assms(1)])
  qed
  show ?thesis
    using settle assms(1)
    by (auto simp: finish_codex_response_def Let_def intro!: live_quiet(2) split: sum.splits prod.splits)
qed

lemma live_after_call:
  "live env s \<Longrightarrow> codex_after_call env events failure s = (s', c) \<Longrightarrow> live env s'"
  by (auto simp: codex_after_call_def dest: live_publish_all live_quiet(4)
      split: sum.splits prod.splits bool.splits)

lemma live_command:
  assumes l: "live env s" and c: "codex_command env session command s = (s', c)"
  shows "live env s'"
proof (cases command)
  case (CmdPrompt i t a options)
  show ?thesis
    using c l unfolding CmdPrompt codex_command_def
    by (auto simp: codex_prompt_def Let_def intro!: live_quiet
        dest!: live_after_call [rotated] split: if_splits sum.splits prod.splits option.splits)
next
  case (CmdSteer i t a)
  show ?thesis
    using c l unfolding CmdSteer codex_command_def
    by (auto simp: codex_steer_command_def Let_def intro: live_quiet
        dest!: live_after_call [rotated] split: if_splits sum.splits prod.splits option.splits)
next
  case (CmdInterrupt i)
  obtain ok s1 where d: "deny_all_codex_requests env ''interrupt'' s = (ok, s1)" by fastforce
  have l1: "live env s1"
    using live_deny_all [OF l d] by simp
  show ?thesis
    using c l1 d unfolding CmdInterrupt codex_command_def
    by (auto simp: codex_interrupt_def Let_def intro: live_quiet
        dest!: live_after_call [rotated] split: if_splits sum.splits prod.splits option.splits bool.splits)
next
  case (CmdHistory i cur lim)
  show ?thesis
    using c l unfolding CmdHistory codex_command_def
    by (auto simp: codex_history_command_def intro: live_quiet split: sum.splits prod.splits)
next
  case (CmdApproval r i d u m)
  show ?thesis
    using c l unfolding CmdApproval codex_command_def
    by (auto simp: respond_codex_approval_def intro: live_quiet live_finish_response
        split: if_splits sum.splits option.splits)
next
  case (CmdQuestion r i d a m)
  show ?thesis
    using c l unfolding CmdQuestion codex_command_def
    by (auto simp: respond_codex_question_def intro: live_quiet live_finish_response
        split: if_splits sum.splits option.splits)
next
  case CmdClientDisconnected
  show ?thesis
    using c l unfolding CmdClientDisconnected codex_command_def
    by (auto dest: live_deny_all intro: live_quiet split: prod.splits bool.splits)
next
  case CmdShutdown
  obtain ok s1 where d: "deny_all_codex_requests env ''shutdown'' s = (ok, s1)" by fastforce
  show ?thesis
    using c live_deny_all [OF l d] d unfolding CmdShutdown codex_command_def by simp
qed

lemma live_round:
  assumes l: "live env s" and c: "codex_round env session input s = (s', c)"
  shows "live env s'"
proof (cases input)
  case (InCommand command)
  with l c show ?thesis by (auto simp: codex_round_def intro: live_command)
next
  case InProvider
  have pub: "publish_codex_event env event (s\<lparr>tk_peer := q\<rparr>) = (r, s1) \<Longrightarrow> live env s1" for event q r s1
    using l live_publish [of env "s\<lparr>tk_peer := q\<rparr>" event r s1] by simp
  with l c InProvider show ?thesis
    by (auto simp: codex_round_def intro: live_quiet dest: pub
        split: if_splits sum.splits prod.splits bool.splits)
next
  case InDeadline
  with l c show ?thesis
    by (auto simp: codex_round_def intro: live_quiet dest: live_expire split: if_splits prod.splits bool.splits)
qed (use l c in \<open>auto simp: codex_round_def split: if_splits\<close>)

lemma finish_live:
  assumes "live env s"
  shows "live env (codex_finish env s)" and "tk_pending (codex_finish env s) = []"
proof -
  obtain ok s1 where d: "deny_all_codex_requests env ''provider_exit'' s = (ok, s1)" by fastforce
  show "live env (codex_finish env s)" "tk_pending (codex_finish env s) = []"
    using live_deny_all [OF assms d] live_quiet(5) [of env s1] by (simp_all add: codex_finish_def d runtime_stopped_def)
qed

interpretation codex_task: provider_task "codex_round env session" "codex_finish env" "live env" for env session
proof unfold_locales
  fix s :: codex_task
  assume l: "live env s"
  then show "desk s \<and> distinct (asked (tk_events s))"
    by (simp add: live_def task_ok_def)
  show "live env (codex_finish env s)" "tk_pending (codex_finish env s) = []"
    using finish_live [OF l] by simp_all
  show "codex_round env session input s = (s', c) \<Longrightarrow> live env s'" for input s' c
    using live_round [OF l] by blast
qed

lemma live_new_task: "inj (re_uuid env) \<Longrightarrow> live env (new_task p True)"
  by (simp add: live_def task_ok_def desk_def known_ids_def new_task_def)

lemma codex_start_live:
  assumes "inj (re_uuid env)"
    and "codex_start env resolve program request_id launch options spawned True = (s, Some session)"
  shows "live env s"
proof -
  obtain p runtime r and started :: RequestOutcome where pub: "publish_codex_events env (ro_events started)
      (emit (EvStarted request_id (re_agent env) session runtime) (new_task p True)) = (r, s)"
    using assms(2)
    by (auto simp: codex_start_def abort_start_def Let_def
        split: option.splits sum.splits prod.splits if_splits)
  have "live env (emit (EvStarted request_id (re_agent env) session runtime) (new_task p True))"
    using assms(1) by (simp add: live_def task_ok_emit live_new_task [unfolded live_def])
  from live_publish_all [OF this pub] show ?thesis .
qed


text \<open>A concrete conversation: start, one prompt, one approval request, then shutdown.\<close>

definition demo_init :: json where
  "demo_init = jobj [(''id'', jnat 1), (''result'', jobj [(''userAgent'',
     JString (''codex'' @ ''/'' @ dotted (0, 152, 0) @ '' '' @ ''x''))])]"

definition demo_thread :: json where
  "demo_thread = jobj [(''id'', jnat 2), (''result'', jobj [(''thread'', jobj [(''id'', JString ''T'')])])]"

definition demo_turn :: json where
  "demo_turn = jobj [(''id'', jnat 3), (''result'', jobj [(''turn'', jobj [(''id'', JString ''U'')])])]"

definition demo_decode :: "string \<Rightarrow> json option" where
  "demo_decode f = (if f = ''i'' then Some demo_init else if f = ''t'' then Some demo_thread
     else if f = ''p'' then Some demo_turn else if f = ''a'' then Some sample_approval else None)"

definition demo_codec :: codec where
  "demo_codec = script_codec demo_decode"

definition demo_env :: RtEnv where
  "demo_env = \<lparr>re_codec = demo_codec, re_agent = ''a'', re_cwd = ''/w'', re_uuid = \<lambda>n. replicate n CHR ''u'',
     re_stamp = \<lambda>_. ''now'', re_clock = \<lambda>_. 0, re_timeout = 300\<rparr>"

lemmas demo_request = scripted_request [where decode = demo_decode, folded demo_codec_def]

lemma demo_inj: "inj (re_uuid demo_env)"
  by (auto simp: demo_env_def inj_def)

lemmas demo_facts = demo_decode_def demo_init_def demo_thread_def demo_turn_def is_response_to_def
  response_value_def jget_jobj jnat_def

lemma demo_values:
  "demo_decode ''i'' = Some demo_init" "demo_decode ''t'' = Some demo_thread" "demo_decode ''p'' = Some demo_turn"
  "is_object demo_init" "is_object demo_thread" "is_object demo_turn"
  "is_response_to 1 demo_init" "is_response_to 2 demo_thread" "is_response_to 3 demo_turn"
  by (simp_all add: demo_facts)

lemma demo_start:
  "\<exists>out runtime. codex_start demo_env (\<lambda>_. None) ''codex'' (Integer 1) LaunchStart default_options
      (Some (demo_peer [frame_line CHR ''i'', frame_line CHR ''t'', frame_line CHR ''p'', frame_line CHR ''a''] 1 [])) True
    = (emit (EvStarted (Integer 1) ''a'' ''T'' runtime)
        (new_task (demo_peer [frame_line CHR ''p'', frame_line CHR ''a''] 3 out) True), Some ''T'')"
proof -
  let ?init = "jobj [(''userAgent'', JString (''codex'' @ ''/'' @ dotted (0, 152, 0) @ '' '' @ ''x''))]"
  let ?thread = "jobj [(''thread'', jobj [(''id'', JString ''T'')])]"
  have neq: "(1 :: u64) \<noteq> u64_max" "(2 :: u64) \<noteq> u64_max"
    by (simp_all add: u64_max_def)
  have rv: "response_value demo_init = Inr ?init" "response_value demo_thread = Inr ?thread"
    by (simp_all add: demo_facts)
  have g: "get_str ''userAgent'' (jobj [(''userAgent'', JString u)]) = Some u" for u
    by (simp add: get_str_def jget_jobj)
  have "codex_runtime_identity (\<lambda>_. None) ''codex'' ?init
      = Inr \<lparr>rt_compatibility_profile = CODEX_COMPATIBILITY_PROFILE, rt_provider_version = dotted (0, 152, 0),
          rt_adapter_version = None, rt_executable = None\<rparr>"
    by (subst codex_identity_dotted [OF g]) (simp_all add: is_cont_def)
  then obtain runtime where rt: "codex_runtime_identity (\<lambda>_. None) ''codex'' ?init = Inr runtime"
    by blast
  have notify: "codex_notify demo_codec meth params (demo_peer r n out) = (Inr (), demo_peer r n
      (out @ [jobj [(''method'', JString meth), (''params'', params)]]))" for meth params r n out
    by (simp add: codex_notify_def codex_write_def demo_codec_def script_codec_def pipe_write_def demo_peer_def)
  have init: "\<exists>out. codex_initialize demo_codec (demo_peer (frame_line CHR ''i'' # rest) 1 []) = (Inr ?init, demo_peer rest 2 out)" for rest
    by (simp add: codex_initialize_def demo_request [OF demo_values(1,4,7) rv(1) _ _ neq(1)] notify) blast
  have th: "\<exists>out'. start_thread demo_codec cwd m (demo_peer (frame_line CHR ''t'' # rest) 2 out)
      = (Inr \<lparr>ro_result = ?thread, ro_events = []\<rparr>, demo_peer rest 3 out')" for cwd m rest out
    by (simp add: start_thread_def demo_request [OF demo_values(2,5,8) rv(2) _ _ neq(2)]) blast
  have tid: "thread_id ?thread = Some ''T''"
    by (simp add: thread_id_def get_str_def jget_jobj)
  let ?rest = "[frame_line CHR ''p'', frame_line CHR ''a'']"
  obtain out where i: "codex_initialize demo_codec (demo_peer (frame_line CHR ''i'' # frame_line CHR ''t'' # ?rest) 1 [])
      = (Inr ?init, demo_peer (frame_line CHR ''t'' # ?rest) 2 out)"
    using init by blast
  obtain out' where t: "start_thread demo_codec ''/w'' None (demo_peer (frame_line CHR ''t'' # ?rest) 2 out)
      = (Inr \<lparr>ro_result = ?thread, ro_events = []\<rparr>, demo_peer ?rest 3 out')"
    using th by blast
  show ?thesis
    using i t tid rt by (simp add: codex_start_def demo_env_def codex_open_def default_options_def) blast
qed

lemma demo_approval_event:
  "next_event demo_codec (demo_peer [frame_line CHR ''a''] n out)
    = (Inr (sample_event_approval\<lparr>pe_response_required := True\<rparr>), demo_peer [] n out)"
proof -
  have "codex_read demo_codec (demo_peer [frame_line CHR ''a''] n out) = (Inr sample_approval, demo_peer [] n out)"
    using codex_next_frame [of "demo_peer [frame_line CHR ''a''] n out" "''a''" "[]" demo_codec sample_approval]
    by (simp add: demo_peer_def demo_codec_def script_codec_def demo_decode_def sample_approval_def CODEX_MAX_FRAME_BYTES_def)
  moreover have "parse_event_or_request sample_approval = Inr (sample_event_approval\<lparr>pe_response_required := True\<rparr>)"
    by (simp add: sample_approval_def parse_event_or_request_def get_str_def jget_jobj Let_def
        sample_event_approval_def jnat_def)
  ultimately show ?thesis
    by (simp add: next_event_def)
qed

text \<open>A task in a turn, with the approval request next in the pipe.\<close>

definition demo_turn_task :: codex_task where
  "demo_turn_task = (new_task (demo_peer [frame_line CHR ''a''] 4 []) True)\<lparr>tk_turn := Some ''U''\<rparr>"

lemma demo_asks:
  "\<exists>p e. codex_round demo_env ''T'' InProvider demo_turn_task
     = (\<lparr>tk_peer = demo_peer [] 4 [], tk_pending = [([], p)], tk_events = [EvProvider e], tk_listening = True,
         tk_turn = Some ''U'', tk_ticks = 1\<rparr>, True)
     \<and> pc_event p = sample_event_approval\<lparr>pe_response_required := True\<rparr> \<and> pc_kind p = Approval"
proof -
  let ?e = "sample_event_approval\<lparr>pe_response_required := True\<rparr>"
  obtain r where hr: "codex_human_request ''now'' ''a'' [] ?e = Some r" "hr_id r = []" "hr_kind r = Approval"
    by (simp add: codex_human_request_def sample_event_approval_def is_codex_approval_def)
  have req: "pe_response_required ?e"
    by (simp add: sample_event_approval_def)
  show ?thesis
    using hr req
    by (simp add: codex_round_def demo_turn_task_def new_task_def demo_env_def demo_approval_event
        publish_codex_event_def Let_def map_insert_def emit_def)
qed


section \<open>Only an explicit answer grants\<close>

definition harmless_frame :: "json \<Rightarrow> bool" where
  "harmless_frame f = (jget ''method'' f \<noteq> None
     \<or> (case jget ''result'' f of None \<Rightarrow> True | Some r \<Rightarrow> \<not> codex_grants r))"

abbreviation only_harmless :: "Peer \<Rightarrow> Peer \<Rightarrow> bool" where
  "only_harmless \<equiv> writes_only harmless_frame"

lemmas only_harmless_refl = writes_only_refl [where P = harmless_frame]
lemmas only_harmless_trans = writes_only_trans [where P = harmless_frame]

lemma harmless_write:
  "codex_write cd m p = (r, p') \<Longrightarrow> harmless_frame m \<Longrightarrow> only_harmless p p'"
  by (auto simp: codex_write_def pipe_write_def writes_only_def split: if_splits)

lemma denial_harmless: "harmless_frame (denial_frame method i)"
proof -
  have "\<not> codex_grants (jobj [(''decision'', JString ''decline'')])"
    by (simp add: codex_grants_def jget_jobj)
  then show ?thesis
    by (auto simp: harmless_frame_def denial_frame_def safe_server_request_response_def jget_jobj
        split: option.splits)
qed

lemmas harmless_deny = deny_server_request_only [where P = harmless_frame, OF denial_harmless]
lemmas harmless_await = codex_await_only [where P = harmless_frame, OF denial_harmless]

lemma request_frame_harmless: "harmless_frame (codex_request_frame i method params)"
  by (simp add: harmless_frame_def codex_request_frame_def jget_jobj)

lemmas harmless_request =
  codex_request_only [where P = harmless_frame, OF denial_harmless request_frame_harmless]

abbreviation harmless_step :: "codex_task \<Rightarrow> codex_task \<Rightarrow> bool" where
  "harmless_step s s' \<equiv> only_harmless (tk_peer s) (tk_peer s')"

lemma harmless_publish:
  "publish_codex_event env event s = (r, s') \<Longrightarrow> harmless_step s s'"
  by (auto simp: publish_codex_event_def publish_normalized_def Let_def only_harmless_refl
      dest: harmless_deny split: if_splits option.splits sum.splits prod.splits)

lemma harmless_publish_all:
  "publish_codex_events env events s = (r, s') \<Longrightarrow> harmless_step s s'"
proof (induction events arbitrary: s r)
  case (Cons event events)
  obtain x s1 where p: "publish_codex_event env event s = (x, s1)" by fastforce
  note h = harmless_publish [OF p]
  from Cons p h show ?case
    by (auto split: sum.splits prod.splits intro: only_harmless_trans)
qed (simp add: only_harmless_refl)

lemma harmless_after_call:
  "codex_after_call env events failure s = (s', c) \<Longrightarrow> harmless_step s s'"
  by (auto simp: codex_after_call_def dest: harmless_publish_all split: sum.splits prod.splits bool.splits)

lemma harmless_deny_list:
  "deny_list_codex env reason is s = (ok, s') \<Longrightarrow> harmless_step s s'"
proof (induction "is" arbitrary: s ok s')
  case (Cons i "is")
  obtain ok1 s1 where d: "deny_one_codex env reason i s = (ok1, s1)" by fastforce
  have "harmless_step s s1"
    using d by (auto simp: deny_one_codex_def only_harmless_refl dest: harmless_deny
        split: option.splits prod.splits)
  with Cons d show ?case
    by (auto split: prod.splits intro: only_harmless_trans)
qed (simp add: only_harmless_refl)

lemma harmless_deny_all: "deny_all_codex_requests env reason s = (ok, s') \<Longrightarrow> harmless_step s s'"
  by (simp add: deny_all_codex_requests_def harmless_deny_list)

lemma harmless_expire: "expire_codex_requests env s = (ok, s') \<Longrightarrow> harmless_step s s'"
  using harmless_deny_list by (fastforce simp: expire_codex_requests_def Let_def)

lemma question_answer_harmless:
  "codex_question_response event decision answers = Inr r \<Longrightarrow> harmless_frame (jobj [(''id'', i), (''result'', r)])"
  by (auto simp: codex_question_response_def harmless_frame_def codex_grants_def jget_jobj Let_def split: if_splits)

lemma deny_answer_harmless:
  "codex_approval_response event decision message = Inr r \<Longrightarrow> decision \<noteq> ''allow'' \<Longrightarrow>
   harmless_frame (jobj [(''id'', i), (''result'', r)])"
  by (auto simp: codex_approval_response_def harmless_frame_def codex_grants_def jget_jobj Let_def split: if_splits)

lemma harmless_finish_response:
  assumes "\<And>i. harmless_frame (jobj [(''id'', i), (''result'', result)])"
  shows "harmless_step s (finish_codex_response env r i d kind p result failure s)"
proof -
  have "only_harmless (tk_peer s) q"
    if "respond_server_request (re_codec env) (pc_event p) result (tk_peer s) = (x, q)" for x q
    using that assms by (auto simp: respond_server_request_def only_harmless_refl
        dest: harmless_write split: sum.splits prod.splits)
  then show ?thesis
    by (auto simp: finish_codex_response_def Let_def split: sum.splits prod.splits)
qed

definition explicit_allow :: "task_input \<Rightarrow> bool" where
  "explicit_allow input = (case input of
     InCommand (CmdApproval r i decision u m) \<Rightarrow> decision = ''allow''
   | _ \<Rightarrow> False)"

lemmas codex_calls = start_turn_def codex_steer_def interrupt_with_events_def read_thread_def

lemma harmless_command:
  assumes c: "codex_command env session command s = (s', c)" and na: "\<not> explicit_allow (InCommand command)"
  shows "harmless_step s s'"
proof (cases command)
  case (CmdPrompt i t a options)
  show ?thesis
    using c unfolding CmdPrompt codex_command_def
    by (auto simp: codex_prompt_def codex_calls Let_def only_harmless_refl
        dest!: harmless_after_call harmless_request intro: only_harmless_trans
        split: if_splits sum.splits prod.splits option.splits)
next
  case (CmdSteer i t a)
  show ?thesis
    using c unfolding CmdSteer codex_command_def
    by (auto simp: codex_steer_command_def codex_calls Let_def only_harmless_refl
        dest!: harmless_after_call harmless_request intro: only_harmless_trans
        split: if_splits sum.splits prod.splits option.splits)
next
  case (CmdInterrupt i)
  obtain ok s1 where d: "deny_all_codex_requests env ''interrupt'' s = (ok, s1)" by fastforce
  have h: "harmless_step s s1"
    by (rule harmless_deny_all [OF d])
  have "harmless_step s1 s'"
    using c d unfolding CmdInterrupt codex_command_def
    by (auto simp: codex_interrupt_def codex_calls Let_def only_harmless_refl
        dest!: harmless_after_call harmless_request intro: only_harmless_trans
        split: if_splits sum.splits prod.splits option.splits bool.splits)
  with h show ?thesis by (rule only_harmless_trans)
next
  case (CmdHistory i cur lim)
  show ?thesis
    using c unfolding CmdHistory codex_command_def
    by (auto simp: codex_history_command_def codex_calls dest: harmless_request split: sum.splits prod.splits)
next
  case (CmdApproval r i d u m)
  then have "d \<noteq> ''allow''"
    using na by (simp add: explicit_allow_def)
  then show ?thesis
    using c unfolding CmdApproval codex_command_def
    by (auto simp: respond_codex_approval_def only_harmless_refl
        intro!: harmless_finish_response deny_answer_harmless split: if_splits sum.splits option.splits)
next
  case (CmdQuestion r i d a m)
  show ?thesis
    using c unfolding CmdQuestion codex_command_def
    by (auto simp: respond_codex_question_def only_harmless_refl
        intro!: harmless_finish_response question_answer_harmless split: if_splits sum.splits option.splits)
next
  case CmdClientDisconnected
  show ?thesis
    using c unfolding CmdClientDisconnected codex_command_def
    by (auto dest: harmless_deny_all split: prod.splits bool.splits)
next
  case CmdShutdown
  obtain ok s1 where d: "deny_all_codex_requests env ''shutdown'' s = (ok, s1)" by fastforce
  show ?thesis
    using c harmless_deny_all [OF d] d unfolding CmdShutdown codex_command_def by simp
qed

text \<open>
  C3.  Nothing is granted without an explicit answer.  In every round of the loop other than the
  one that handles an approval command whose decision is \<open>allow\<close> (so on prompts, steering,
  interrupts, history, refusals, answers to questions, provider traffic, timeouts, disconnection
  and shutdown), each frame written to Codex is a request of the broker or an answer that grants
  nothing; and so is everything written when the task ends.
\<close>

theorem codex_grants_only_on_allow:
  assumes "codex_round env session input s = (s', running)" and "\<not> explicit_allow input"
  shows "(\<exists>new. pr_written (tk_peer s') = pr_written (tk_peer s) @ new \<and> (\<forall>f\<in>set new. harmless_frame f))
    \<and> (\<exists>new. pr_written (tk_peer (codex_finish env s')) = pr_written (tk_peer s') @ new
         \<and> (\<forall>f\<in>set new. harmless_frame f))"
proof -
  have "harmless_step s s'"
  proof (cases input)
    case (InCommand command)
    then show ?thesis
      using assms harmless_command by (simp add: codex_round_def)
  next
    case InProvider
    have "only_harmless (tk_peer s) q" if "next_event (re_codec env) (tk_peer s) = (r, q)" for r q
      using that by (auto simp: next_event_def dest: codex_read_keeps intro: only_harmless_refl
          split: sum.splits prod.splits)
    then show ?thesis
      using InProvider assms(1)
      by (auto simp: codex_round_def only_harmless_refl dest!: harmless_publish intro: only_harmless_trans
          split: if_splits sum.splits prod.splits bool.splits)
  next
    case InDeadline
    then show ?thesis
      using assms(1) by (auto simp: codex_round_def only_harmless_refl dest: harmless_expire
          split: if_splits prod.splits bool.splits)
  qed (use assms(1) in \<open>auto simp: codex_round_def only_harmless_refl split: if_splits\<close>)
  moreover have "harmless_step s' (codex_finish env s')"
    using harmless_deny_all [of env "''provider_exit''" s'] by (simp add: codex_finish_def prod_eq_iff)
  ultimately show ?thesis
    by (simp add: writes_only_def)
qed

text \<open>The pending approval of the demonstration is refused when the client disconnects.\<close>

theorem codex_grants_only_on_allow_witness:
  "\<exists>s s'. codex_round demo_env ''T'' InProvider demo_turn_task = (s, True) \<and> tk_pending s \<noteq> []
     \<and> codex_round demo_env ''T'' (InCommand CmdClientDisconnected) s = (s', True)
     \<and> (\<exists>new. pr_written (tk_peer s') = pr_written (tk_peer s) @ new \<and> (\<forall>f\<in>set new. harmless_frame f))"
proof -
  obtain s p e where s: "codex_round demo_env ''T'' InProvider demo_turn_task = (s, True)"
    and s_def: "s = \<lparr>tk_peer = demo_peer [] 4 [], tk_pending = [([], p)], tk_events = [EvProvider e],
        tk_listening = True, tk_turn = Some ''U'', tk_ticks = 1\<rparr>"
    and p: "pc_event p = sample_event_approval\<lparr>pe_response_required := True\<rparr>"
    using demo_asks by blast
  have "\<exists>s'. codex_round demo_env ''T'' (InCommand CmdClientDisconnected) s = (s', True)"
    by (simp add: codex_round_def codex_command_def deny_all_codex_requests_def s_def deny_one_codex_def p
        deny_server_request_def unanswered_request_id_def sample_event_approval_def codex_write_def
        demo_env_def demo_codec_def script_codec_def pipe_write_def demo_peer_def)
  then obtain s' where r: "codex_round demo_env ''T'' (InCommand CmdClientDisconnected) s = (s', True)"
    by blast
  then show ?thesis
    using codex_grants_only_on_allow [OF r] s by (auto simp: s_def explicit_allow_def)
qed

section \<open>Two things the code does not do\<close>

text \<open>
  Provider events that arrive while the history is read are lost: the command adds one event, its
  reply, and leaves the active turn as it was, whatever \<open>turn/completed\<close> the outcome carried.
\<close>

lemma history_loses_events:
  assumes "tk_listening s" and "codex_history_command env session i s = (s', c)"
  shows "length (tk_events s') = Suc (length (tk_events s)) \<and> tk_turn s' = tk_turn s"
  using assms
  by (auto simp: codex_history_command_def respond_ok_def request_rejected_def emit_def
      split: sum.splits prod.splits)

text \<open>
  An approval that \<open>request\<close> refused by itself is still announced as \<open>approval.requested\<close>: no
  action is pending for it, it has no identifier to answer, and no resolution will follow.
\<close>

lemma refused_approval_still_announced:
  assumes "tk_listening s" and "\<not> pe_response_required event" and "is_codex_approval (pe_method event)"
  shows "\<exists>s' v. publish_codex_event env event s = (Inr False, s') \<and> tk_events s' = tk_events s @ [EvProvider v]
    \<and> ev_type v = ''approval.requested'' \<and> asked_id (EvProvider v) = None \<and> tk_pending s' = tk_pending s"
proof -
  have "normalized_event_type (pe_method event) (pe_params event) = ''approval.requested''"
    "\<not> is_terminal_method (pe_method event)"
    using assms(3) by (auto simp: is_codex_approval_def normalized_event_type_def is_terminal_method_def)
  moreover have "asked_id (EvProvider (normalize_event now agent event)) = None" for now agent
    using normalized_quiet by (simp add: quiet_def)
  ultimately show ?thesis
    using assms(1,2)
    by (simp add: publish_codex_event_def publish_normalized_def emit_stamped_def emit_def normalize_event_def)
qed

end
