(* ===== verification/ClaudeRuntime.thy ===== *)
theory ClaudeRuntime
  imports CodexRuntime
begin

text \<open>
  The task that runs one Claude agent: \<open>run_claude\<close> and its helpers in \<open>runtime.rs\<close>.  It has the
  shape of the Codex task; a pending request is a worker callback, callbacks that arrive while a
  request waits are published afterwards instead of being refused, and the turn identifier is the
  broker's own.
\<close>

record PendingWorkerRequest =
  pw_kind :: HumanRequestKind
  pw_inbound :: WorkerInbound
  pw_deadline :: nat

type_synonym claude_task = "PendingWorkerRequest Task"

section \<open>Normalisation\<close>

definition worker_event_changes_file :: "json \<Rightarrow> bool" where
  "worker_event_changes_file payload =
    (Option.bind (or_else (or_else (jget ''tool_name'' payload) (jget ''toolName'' payload)) (jget ''tool'' payload))
       as_str \<in> {Some ''Write'', Some ''Edit'', Some ''MultiEdit'', Some ''NotebookEdit''})"

definition session_event_type :: "json \<Rightarrow> string" where
  "session_event_type params =
    (let payload = jindex params ''payload'' in
     case as_str (jindex params ''event_type'') of
       None \<Rightarrow> ''provider.notice''
     | Some t \<Rightarrow>
         if t = ''message.assistant'' then ''message.completed''
         else if t = ''stream.event'' then ''message.delta''
         else if t = ''file.changed'' \<or> t = ''file_change'' then ''file.changed''
         else if t = ''diff.changed'' \<or> t = ''diff'' then ''diff.changed''
         else if t = ''result'' then
           (if jindex payload ''is_error'' = JBool True then ''turn.failed'' else ''turn.completed'')
         else if t = ''task.started'' then ''tool.started''
         else if t = ''hook.event'' \<and> worker_event_changes_file payload then ''file.changed''
         else if t = ''task.progress'' \<or> t = ''hook.event'' then ''tool.progress''
         else if t = ''task.notification'' then ''tool.completed''
         else if t = ''rate_limit'' then ''usage.updated''
         else if t = ''provider.error'' then ''turn.failed''
         else ''provider.notice'')"

definition normalized_worker_event_type :: "WorkerInbound \<Rightarrow> string" where
  "normalized_worker_event_type inbound =
    (if wi_method inbound = ''approval/request'' then ''approval.requested''
     else if wi_method inbound = ''question/request'' then ''question.requested''
     else if wi_method inbound = ''session/event'' then session_event_type (wi_params inbound)
     else ''provider.notice'')"

definition synthetic_claude_event :: "string \<Rightarrow> string \<Rightarrow> string \<Rightarrow> json \<Rightarrow> string \<Rightarrow> EventEnvelope" where
  "synthetic_claude_event now agent_id event_type payload provider_method =
    new_event now agent_id Claude event_type payload
      (jobj [(''kind'', JString ''synthetic''), (''method'', JString provider_method)])"

definition worker_envelope :: "string \<Rightarrow> string \<Rightarrow> WorkerInbound \<Rightarrow> EventEnvelope" where
  "worker_envelope now agent_id inbound =
    new_event now agent_id Claude (normalized_worker_event_type inbound)
      (if wi_method inbound = ''session/event'' then unwrap_or (jobj []) (jget ''payload'' (wi_params inbound))
       else wi_params inbound)
      (jobj [(''kind'', JString (if wi_id inbound \<noteq> None then ''request'' else ''notification'')),
             (''request_id'', jopt json_of_request_id (wi_id inbound)),
             (''response_required'', JBool False), (''method'', JString (wi_method inbound)),
             (''params'', wi_params inbound)])"

section \<open>Publishing worker messages\<close>

definition publish_worker_normalized :: "RtEnv \<Rightarrow> WorkerInbound \<Rightarrow> claude_task \<Rightarrow> bool \<times> claude_task" where
  "publish_worker_normalized env inbound s =
    (normalized_worker_event_type inbound \<in> {''turn.completed'', ''turn.failed''},
     emit_stamped env (\<lambda>now. worker_envelope now (re_agent env) inbound) s)"

definition publish_worker_event ::
  "RtEnv \<Rightarrow> WorkerInbound \<Rightarrow> claude_task \<Rightarrow> (WorkerError + bool) \<times> claude_task" where
  "publish_worker_event env inbound s =
    (case wi_id inbound of
       None \<Rightarrow> apfst Inr (publish_worker_normalized env inbound s)
     | Some callback_id \<Rightarrow>
         (let n = tk_ticks s; s1 = s\<lparr>tk_ticks := Suc n\<rparr> in
          case claude_human_request (re_stamp env n) (re_agent env) (re_uuid env n) inbound of
            Some request \<Rightarrow>
              (let pending = \<lparr>pw_kind = hr_kind request, pw_inbound = inbound,
                              pw_deadline = re_clock env n + re_timeout env\<rparr>;
                   s2 = s1\<lparr>tk_pending := map_insert (hr_id request) pending (tk_pending s1)\<rparr> in
               (Inr False, emit (EvProvider (hr_envelope request)) s2))
          | None \<Rightarrow>
              (case deny_callback (re_codec env) callback_id ''Unsupported callback denied by Agent Manager''
                  (tk_peer s1) of
                 (Inl e, p) \<Rightarrow> (Inl e, s1\<lparr>tk_peer := p\<rparr>)
               | (Inr _, p) \<Rightarrow> apfst Inr (publish_worker_normalized env inbound (s1\<lparr>tk_peer := p\<rparr>)))))"

fun publish_worker_inbound ::
  "RtEnv \<Rightarrow> WorkerInbound list \<Rightarrow> claude_task \<Rightarrow> (WorkerError + bool) \<times> claude_task" where
  "publish_worker_inbound env [] s = (Inr False, s)"
| "publish_worker_inbound env (event # events) s =
    (case publish_worker_event env event s of
       (Inl e, s1) \<Rightarrow> (Inl e, s1)
     | (Inr t, s1) \<Rightarrow>
         (case publish_worker_inbound env events s1 of
            (Inl e, s2) \<Rightarrow> (Inl e, s2)
          | (Inr t', s2) \<Rightarrow> (Inr (t \<or> t'), s2)))"

section \<open>Answering and refusing\<close>

definition finish_worker_response ::
  "RtEnv \<Rightarrow> RequestId \<Rightarrow> string \<Rightarrow> string \<Rightarrow> HumanRequestKind \<Rightarrow> PendingWorkerRequest \<Rightarrow> json \<Rightarrow> string
    \<Rightarrow> claude_task \<Rightarrow> claude_task" where
  "finish_worker_response env request_id action_id decision kind pending result failure s =
    (case wi_id (pw_inbound pending) of
       None \<Rightarrow> request_rejected env request_id ''provider callback omitted its identity'' s
     | Some callback_id \<Rightarrow>
         (case respond_callback (re_codec env) callback_id result (tk_peer s) of
            (Inl _, p) \<Rightarrow> request_failed env request_id PROVIDER_ERROR_CODE failure (s\<lparr>tk_peer := p\<rparr>)
          | (Inr _, p) \<Rightarrow>
              (let s1 = s\<lparr>tk_peer := p, tk_pending := map_remove action_id (tk_pending s)\<rparr>;
                   s2 = respond_ok request_id (resolved_result action_id decision) s1 in
               emit_stamped env (\<lambda>now. resolved_event now (re_agent env) Claude kind action_id decision None) s2)))"

definition respond_worker_approval ::
  "RtEnv \<Rightarrow> RequestId \<Rightarrow> string \<Rightarrow> string \<Rightarrow> json option \<Rightarrow> string option \<Rightarrow> claude_task \<Rightarrow> claude_task" where
  "respond_worker_approval env request_id action_id decision updated_input message s =
    (case map_of (tk_pending s) action_id of
       None \<Rightarrow> request_rejected env request_id ''approval request is no longer pending'' s
     | Some pending \<Rightarrow>
         if pw_kind pending \<noteq> Approval then
           request_rejected env request_id ''pending request is not an approval'' s
         else
           (case claude_approval_response decision updated_input message of
              Inl e \<Rightarrow> request_rejected env request_id e s
            | Inr result \<Rightarrow> finish_worker_response env request_id action_id decision Approval pending result
                ''Claude approval response failed'' s))"

definition respond_worker_question ::
  "RtEnv \<Rightarrow> RequestId \<Rightarrow> string \<Rightarrow> string \<Rightarrow> (string \<times> json) list \<Rightarrow> string option \<Rightarrow> claude_task \<Rightarrow> claude_task" where
  "respond_worker_question env request_id action_id decision answers message s =
    (case map_of (tk_pending s) action_id of
       None \<Rightarrow> request_rejected env request_id ''question request is no longer pending'' s
     | Some pending \<Rightarrow>
         if pw_kind pending \<noteq> Question then
           request_rejected env request_id ''pending request is not a question'' s
         else
           (case claude_question_response decision answers message of
              Inl e \<Rightarrow> request_rejected env request_id e s
            | Inr result \<Rightarrow> finish_worker_response env request_id action_id decision Question pending result
                ''Claude question response failed'' s))"

definition deny_one_worker :: "RtEnv \<Rightarrow> string \<Rightarrow> string \<Rightarrow> string \<Rightarrow> claude_task \<Rightarrow> bool \<times> claude_task" where
  "deny_one_worker env reason message action_id s =
    (case map_of (tk_pending s) action_id of
       None \<Rightarrow> (True, s)
     | Some pending \<Rightarrow>
         (case (case wi_id (pw_inbound pending) of
              None \<Rightarrow> (Inr (), tk_peer s)
            | Some callback_id \<Rightarrow> deny_callback (re_codec env) callback_id message (tk_peer s)) of (r, p) \<Rightarrow>
            (is_ok r,
             emit_stamped env (\<lambda>now. resolved_event now (re_agent env) Claude (pw_kind pending) action_id
                 ''deny'' (Some reason))
               (s\<lparr>tk_peer := p, tk_pending := map_remove action_id (tk_pending s)\<rparr>))))"

fun deny_list_worker :: "RtEnv \<Rightarrow> string \<Rightarrow> string \<Rightarrow> string list \<Rightarrow> claude_task \<Rightarrow> bool \<times> claude_task" where
  "deny_list_worker env reason message [] s = (True, s)"
| "deny_list_worker env reason message (i # is) s =
    (case deny_one_worker env reason message i s of (ok, s1) \<Rightarrow>
      (case deny_list_worker env reason message is s1 of (ok', s2) \<Rightarrow> (ok \<and> ok', s2)))"

definition deny_all_worker_requests :: "RtEnv \<Rightarrow> string \<Rightarrow> claude_task \<Rightarrow> bool \<times> claude_task" where
  "deny_all_worker_requests env reason s =
    deny_list_worker env reason ''Agent Manager closed the pending request'' (map fst (tk_pending s)) s"

definition expire_worker_requests :: "RtEnv \<Rightarrow> claude_task \<Rightarrow> bool \<times> claude_task" where
  "expire_worker_requests env s =
    (let now = re_clock env (tk_ticks s); s1 = s\<lparr>tk_ticks := Suc (tk_ticks s)\<rparr>;
         expired = map fst (filter (\<lambda>(_, r). pw_deadline r \<le> now) (tk_pending s1)) in
     deny_list_worker env ''timeout'' ''Agent Manager callback timed out'' expired s1)"

definition next_worker_deadline :: "claude_task \<Rightarrow> nat option" where
  "next_worker_deadline s =
    (if tk_pending s = [] then None else Some (min_list (map (pw_deadline \<circ> snd) (tk_pending s))))"

section \<open>Commands\<close>

definition claude_after_call ::
  "RtEnv \<Rightarrow> WorkerInbound list \<Rightarrow> string \<Rightarrow> claude_task \<Rightarrow> claude_task \<times> bool" where
  "claude_after_call env inbound failure s =
    (case publish_worker_inbound env inbound s of
       (Inr True, s1) \<Rightarrow> (s1\<lparr>tk_turn := None\<rparr>, True)
     | (Inr False, s1) \<Rightarrow> (s1, True)
     | (Inl _, s1) \<Rightarrow> (provider_failed env failure s1, False))"

definition claude_prompt ::
  "RtEnv \<Rightarrow> RequestId \<Rightarrow> string \<Rightarrow> json list \<Rightarrow> ProviderOptions \<Rightarrow> claude_task \<Rightarrow> claude_task \<times> bool" where
  "claude_prompt env request_id text attachments options s =
    (if tk_turn s \<noteq> None then
       (request_rejected env request_id ''agent already has an active turn'' s, True)
     else
       (let rendered = render_input (cd_encode (re_codec env)) text attachments in
        case worker_request (re_codec env) ''turn/prompt''
            (jobj [(''agent_id'', JString (re_agent env)), (''text'', JString rendered),
                   (''model'', jopt JString (po_model options)), (''effort'', jopt JString (po_effort options))])
            (tk_peer s) of
          (Inl _, p) \<Rightarrow>
            (request_failed env request_id PROVIDER_ERROR_CODE ''Claude rejected the prompt'' (s\<lparr>tk_peer := p\<rparr>), True)
        | (Inr outcome, p) \<Rightarrow>
            (let n = tk_ticks s; new_turn_id = re_uuid env n;
                 s1 = respond_ok request_id
                   (jobj [(''accepted'', JBool True), (''turn_id'', JString new_turn_id)])
                   (s\<lparr>tk_peer := p, tk_ticks := Suc n\<rparr>);
                 s2 = s1\<lparr>tk_turn := Some new_turn_id\<rparr>;
                 s3 = emit_stamped env (\<lambda>now. synthetic_claude_event now (re_agent env) ''turn.started''
                   (jobj [(''turn'', jobj [(''id'', JString new_turn_id)])]) ''turn/prompt'') s2 in
             claude_after_call env (wo_inbound outcome) ''Claude turn events were invalid'' s3)))"

definition claude_steer ::
  "RtEnv \<Rightarrow> RequestId \<Rightarrow> string \<Rightarrow> json list \<Rightarrow> claude_task \<Rightarrow> claude_task \<times> bool" where
  "claude_steer env request_id text attachments s =
    (if tk_turn s = None then
       (request_rejected env request_id ''agent has no active turn to steer'' s, True)
     else
       (let rendered = render_input (cd_encode (re_codec env)) text attachments in
        case worker_request (re_codec env) ''turn/steer''
            (jobj [(''agent_id'', JString (re_agent env)), (''text'', JString rendered)]) (tk_peer s) of
          (Inl _, p) \<Rightarrow>
            (request_failed env request_id PROVIDER_ERROR_CODE ''Claude rejected the steering input''
               (s\<lparr>tk_peer := p\<rparr>), True)
        | (Inr outcome, p) \<Rightarrow>
            (let s1 = respond_ok request_id (jobj [(''accepted'', JBool True)]) (s\<lparr>tk_peer := p\<rparr>) in
             claude_after_call env (wo_inbound outcome) ''Claude steer events were invalid'' s1)))"

definition claude_interrupt :: "RtEnv \<Rightarrow> RequestId \<Rightarrow> claude_task \<Rightarrow> claude_task \<times> bool" where
  "claude_interrupt env request_id s =
    (case deny_all_worker_requests env ''interrupt'' s of
       (False, s1) \<Rightarrow>
         (request_failed env request_id PROVIDER_ERROR_CODE
            ''Claude pending request cancellation failed'' s1, True)
     | (True, s1) \<Rightarrow>
         if tk_turn s1 = None then
           (respond_ok request_id (jobj [(''interrupted'', JBool False),
              (''reason'', JString ''no_active_turn'')]) s1, True)
         else
           (case worker_request (re_codec env) ''turn/interrupt''
               (jobj [(''agent_id'', JString (re_agent env))]) (tk_peer s1) of
              (Inl _, p) \<Rightarrow>
                (request_failed env request_id PROVIDER_ERROR_CODE ''Claude interrupt failed''
                   (s1\<lparr>tk_peer := p\<rparr>), True)
            | (Inr outcome, p) \<Rightarrow>
                claude_after_call env (wo_inbound outcome) ''Claude interrupt events were invalid''
                  (respond_ok request_id (wo_result outcome) (s1\<lparr>tk_peer := p\<rparr>))))"

definition claude_history_command ::
  "RtEnv \<Rightarrow> string \<Rightarrow> RequestId \<Rightarrow> string option \<Rightarrow> u32 option \<Rightarrow> claude_task \<Rightarrow> claude_task \<times> bool" where
  "claude_history_command env session request_id cursor limit s =
    (let offset = unwrap_or 0 (Option.bind cursor parse_u64) in
     case worker_request (re_codec env) ''session/history''
         (jobj [(''session_id'', JString session), (''directory'', JString (re_cwd env)),
                (''limit'', jopt ju32 limit), (''offset'', ju64 offset)]) (tk_peer s) of
       (Inl _, p) \<Rightarrow> (request_rejected env request_id ''Claude history request failed'' (s\<lparr>tk_peer := p\<rparr>), True)
     | (Inr outcome, p) \<Rightarrow>
         (respond_ok request_id (history_of Claude (wo_result outcome)) (s\<lparr>tk_peer := p\<rparr>), True))"

definition claude_command :: "RtEnv \<Rightarrow> string \<Rightarrow> AgentCommand \<Rightarrow> claude_task \<Rightarrow> claude_task \<times> bool" where
  "claude_command env session command s =
    (case command of
       CmdPrompt request_id text attachments options \<Rightarrow>
         claude_prompt env request_id text attachments options s
     | CmdSteer request_id text attachments \<Rightarrow> claude_steer env request_id text attachments s
     | CmdInterrupt request_id \<Rightarrow> claude_interrupt env request_id s
     | CmdHistory request_id cursor limit \<Rightarrow> claude_history_command env session request_id cursor limit s
     | CmdApproval request_id action_id decision updated_input message \<Rightarrow>
         (respond_worker_approval env request_id action_id decision updated_input message s, True)
     | CmdQuestion request_id action_id decision answers message \<Rightarrow>
         (respond_worker_question env request_id action_id decision answers message s, True)
     | CmdClientDisconnected \<Rightarrow>
         (case deny_all_worker_requests env ''client_disconnect'' s of
            (True, s1) \<Rightarrow> (s1, True)
          | (False, s1) \<Rightarrow> (provider_failed env ''Claude client disconnect handling failed'' s1, False))
     | CmdShutdown \<Rightarrow> (snd (deny_all_worker_requests env ''shutdown'' s), False))"

section \<open>The loop\<close>

definition claude_round :: "RtEnv \<Rightarrow> string \<Rightarrow> task_input \<Rightarrow> claude_task \<Rightarrow> claude_task \<times> bool" where
  "claude_round env session input s =
    (case input of
       InCommand command \<Rightarrow> claude_command env session command s
     | InCommandsClosed \<Rightarrow> (s, False)
     | InProvider \<Rightarrow>
         if tk_turn s = None then (s, True)
         else (case next_inbound (re_codec env) (tk_peer s) of
             (Inl _, p) \<Rightarrow> (provider_failed env ''Claude event stream disconnected'' (s\<lparr>tk_peer := p\<rparr>), False)
           | (Inr inbound, p) \<Rightarrow>
               (case publish_worker_event env inbound (s\<lparr>tk_peer := p\<rparr>) of
                  (Inr True, s1) \<Rightarrow> (s1\<lparr>tk_turn := None\<rparr>, True)
                | (Inr False, s1) \<Rightarrow> (s1, True)
                | (Inl _, s1) \<Rightarrow> (provider_failed env ''Claude event stream failed'' s1, False)))
     | InDeadline \<Rightarrow>
         if tk_pending s = [] then (s, True)
         else (case expire_worker_requests env s of
             (True, s1) \<Rightarrow> (s1, True)
           | (False, s1) \<Rightarrow> (provider_failed env ''Claude callback timeout handling failed'' s1, False))
     | InReadDropped n \<Rightarrow>
         if tk_turn s \<noteq> None \<and> droppable WORKER_MAX_FRAME_BYTES n (tk_peer s)
         then (s\<lparr>tk_peer := (tk_peer s)\<lparr>pr_reader := cancelled_after n (pr_reader (tk_peer s))\<rparr>\<rparr>, True)
         else (s, True))"

definition claude_finish :: "RtEnv \<Rightarrow> claude_task \<Rightarrow> claude_task" where
  "claude_finish env s = runtime_stopped env (snd (deny_all_worker_requests env ''provider_exit'' s))"

definition claude_loop :: "RtEnv \<Rightarrow> string \<Rightarrow> task_input list \<Rightarrow> claude_task \<Rightarrow> claude_task \<times> bool" where
  "claude_loop env session inputs s = task_loop (claude_round env session) (claude_finish env) inputs s"

section \<open>Start\<close>

definition open_params :: "RtEnv \<Rightarrow> string list \<Rightarrow> ProviderOptions \<Rightarrow> string option \<Rightarrow> json" where
  "open_params env setting_sources options session =
    jobj ([(''agent_id'', JString (re_agent env)), (''cwd'', JString (re_cwd env))]
      @ (case session of None \<Rightarrow> [] | Some sid \<Rightarrow> [(''session_id'', JString sid)])
      @ [(''model'', jopt JString (po_model options)), (''effort'', jopt JString (po_effort options)),
         (''setting_sources'', JArray (map JString setting_sources))])"

definition claude_open ::
  "RtEnv \<Rightarrow> string list \<Rightarrow> SessionLaunch \<Rightarrow> ProviderOptions \<Rightarrow> Peer \<Rightarrow> (WorkerError + WorkerRequestOutcome) \<times> Peer" where
  "claude_open env setting_sources launch options p =
    (case launch of
       LaunchStart \<Rightarrow> worker_request (re_codec env) ''session/start'' (open_params env setting_sources options None) p
     | LaunchResume sid \<Rightarrow>
         worker_request (re_codec env) ''session/resume'' (open_params env setting_sources options (Some sid)) p
     | LaunchFork sid \<Rightarrow>
         worker_request (re_codec env) ''session/fork'' (open_params env setting_sources options (Some sid)) p)"

definition claude_start ::
  "RtEnv \<Rightarrow> string \<Rightarrow> string list \<Rightarrow> RequestId \<Rightarrow> SessionLaunch \<Rightarrow> ProviderOptions
    \<Rightarrow> Peer option \<Rightarrow> bool \<Rightarrow> claude_task \<times> string option" where
  "claude_start env nonce setting_sources request_id launch options spawned listening =
    (case spawned of
       None \<Rightarrow> abort_start env request_id ''Claude worker could not be started''
           (new_task \<lparr>pr_reader = [], pr_written = [], pr_accepts = Some 0, pr_next_id = 1\<rparr> listening)
     | Some p0 \<Rightarrow>
         (case worker_initialize (re_codec env) nonce p0 of
            (Inl _, p) \<Rightarrow> abort_start env request_id ''Claude worker initialization failed'' (new_task p listening)
          | (Inr initialized, p) \<Rightarrow>
              (case worker_runtime_identity initialized of
                 Inl _ \<Rightarrow> abort_start env request_id
                   ''Claude worker is outside the supported compatibility profile'' (new_task p listening)
               | Inr runtime \<Rightarrow>
                   (case claude_open env setting_sources launch options p of
                      (Inl _, p1) \<Rightarrow> abort_start env request_id ''Claude session open failed'' (new_task p1 listening)
                    | (Inr started, p1) \<Rightarrow>
                        (case get_str ''provider_session_id'' (wo_result started) of
                           None \<Rightarrow> abort_start env request_id
                             ''Claude session open omitted its identity'' (new_task p1 listening)
                         | Some session \<Rightarrow>
                             if \<not> listening then (new_task p1 listening, None)
                             else
                               (let s1 = emit (EvStarted request_id (re_agent env) session runtime) (new_task p1 listening) in
                                case publish_worker_inbound env (wo_inbound started) s1 of
                                  (Inl _, s2) \<Rightarrow>
                                    (runtime_stopped env
                                       (provider_failed env ''Claude startup events were invalid'' s2), None)
                                | (Inr _, s2) \<Rightarrow> (s2, Some session)))))))"

section \<open>The desk stays balanced\<close>

lemma worker_envelope_quiet: "quiet (EvProvider (worker_envelope now agent inbound))"
  by (simp add: quiet_def asked_id_def settled_id_def worker_envelope_def jget_jobj)

lemma synthetic_quiet: "quiet (EvProvider (synthetic_claude_event now agent ty payload m))"
  by (simp add: quiet_def asked_id_def settled_id_def synthetic_claude_event_def jget_jobj)

lemma live_stamped_quiet:
  "live env s \<Longrightarrow> (\<And>t. quiet (EvProvider (mk t))) \<Longrightarrow> live env (emit_stamped env mk s)"
  by (simp add: live_def task_ok_emit_stamped)

lemma live_worker_normalized:
  "live env s \<Longrightarrow> publish_worker_normalized env inbound s = (t, s') \<Longrightarrow> live env s'"
  by (auto simp: publish_worker_normalized_def intro: live_stamped_quiet worker_envelope_quiet)

lemma live_publish_worker:
  assumes "live env s" and "publish_worker_event env inbound s = (r, s')"
  shows "live env s'"
proof (cases "wi_id inbound")
  case None
  with assms show ?thesis
    by (cases "publish_worker_normalized env inbound s")
       (auto simp: publish_worker_event_def dest: live_worker_normalized)
next
  case (Some callback)
  let ?n = "tk_ticks s"
  have l: "live env (s\<lparr>tk_ticks := Suc ?n, tk_peer := p\<rparr>)" for p
    using live_tick [OF assms(1)] by simp
  show ?thesis
  proof (cases "claude_human_request (re_stamp env ?n) (re_agent env) (re_uuid env ?n) inbound")
    case None
    have pub: "publish_worker_normalized env inbound (s\<lparr>tk_ticks := Suc ?n, tk_peer := p\<rparr>) = (t, s1) \<Longrightarrow> live env s1"
      for p t s1
      using live_worker_normalized [OF l] by blast
    have "live env (s\<lparr>tk_ticks := Suc ?n\<rparr>)"
      by (rule live_tick [OF assms(1)])
    then show ?thesis
      using assms(2) \<open>wi_id inbound = Some callback\<close> None
      by (auto simp: publish_worker_event_def Let_def apfst_def map_prod_def
          dest: pub split: sum.splits prod.splits)
  next
    case (Some request)
    note ask = claude_human_request_asks [OF Some]
    let ?p = "\<lparr>pw_kind = hr_kind request, pw_inbound = inbound, pw_deadline = re_clock env ?n + re_timeout env\<rparr>"
    have s': "s' = (emit (EvProvider (hr_envelope request)) s)\<lparr>tk_ticks := Suc ?n,
        tk_pending := map_insert (re_uuid env ?n) ?p (tk_pending s)\<rparr>"
      using Some \<open>wi_id inbound = Some callback\<close> assms(2) ask(1)
      by (auto simp: publish_worker_event_def emit_def Let_def)
    show ?thesis
      using assms(1) task_ok_open [OF _ _ refl ask(2,3) s'] by (simp add: live_def)
  qed
qed

lemma live_publish_inbound:
  "live env s \<Longrightarrow> publish_worker_inbound env events s = (r, s') \<Longrightarrow> live env s'"
proof (induction events arbitrary: s r)
  case (Cons event events)
  obtain x s1 where p: "publish_worker_event env event s = (x, s1)" by fastforce
  have "live env s1" by (rule live_publish_worker [OF Cons.prems(1) p])
  with Cons p show ?case
    by (auto split: sum.splits prod.splits)
qed simp

lemma live_deny_one_worker:
  assumes "live env s" and "deny_one_worker env reason message i s = (ok, s')"
  shows "live env s' \<and> map fst (tk_pending s') = filter (\<lambda>x. x \<noteq> i) (map fst (tk_pending s))"
proof (cases "map_of (tk_pending s) i")
  case None
  then have "i \<notin> set (map fst (tk_pending s))"
    by (simp add: map_of_eq_None_iff)
  then have "filter (\<lambda>x. x \<noteq> i) (map fst (tk_pending s)) = map fst (tk_pending s)"
    by (auto intro: filter_True)
  with None assms show ?thesis by (auto simp: deny_one_worker_def)
next
  case (Some pending)
  let ?s1 = "\<lambda>p. s\<lparr>tk_peer := p, tk_pending := map_remove i (tk_pending s)\<rparr>"
  have "live env (emit_stamped env (\<lambda>now. resolved_event now (re_agent env) Claude (pw_kind pending) i
      ''deny'' (Some reason)) (?s1 p))" for p
    by (rule live_settle [OF assms(1) Some]) (simp_all add: live_listening [OF assms(1)])
  then show ?thesis
    using Some assms(2) by (auto simp: deny_one_worker_def keys_map_remove split: prod.splits)
qed

lemma live_deny_list_worker:
  "live env s \<Longrightarrow> deny_list_worker env reason message is s = (ok, s') \<Longrightarrow>
   live env s' \<and> map fst (tk_pending s') = filter (\<lambda>x. x \<notin> set is) (map fst (tk_pending s))"
proof (induction "is" arbitrary: s ok s')
  case (Cons i "is")
  obtain ok1 s1 where d: "deny_one_worker env reason message i s = (ok1, s1)" by fastforce
  obtain ok2 s2 where d2: "deny_list_worker env reason message is s1 = (ok2, s2)" by fastforce
  note one = live_deny_one_worker [OF Cons.prems(1) d]
  note rest = Cons.IH [OF conjunct1 [OF one] d2]
  have "s' = s2"
    using Cons.prems(2) d d2 by simp
  then show ?case
    using one rest by (auto intro: filter_cong)
qed simp

lemma live_deny_all_worker:
  assumes "live env s" and "deny_all_worker_requests env reason s = (ok, s')"
  shows "live env s' \<and> tk_pending s' = []"
proof -
  have "live env s' \<and> map fst (tk_pending s') = filter (\<lambda>x. x \<notin> set (map fst (tk_pending s))) (map fst (tk_pending s))"
    using live_deny_list_worker [OF assms(1)] assms(2) unfolding deny_all_worker_requests_def by blast
  then have "live env s'" "map fst (tk_pending s') = []"
    by (simp_all add: filter_empty_conv)
  then show ?thesis by simp
qed

lemma live_expire_worker: "live env s \<Longrightarrow> expire_worker_requests env s = (ok, s') \<Longrightarrow> live env s'"
  using live_deny_list_worker [OF live_tick] by (fastforce simp: expire_worker_requests_def Let_def)

lemma live_finish_worker:
  assumes "live env s" and "map_of (tk_pending s) i = Some p"
  shows "live env (finish_worker_response env r i d kind p result failure s)"
proof -
  let ?s2 = "\<lambda>q. respond_ok r (resolved_result i d) (s\<lparr>tk_peer := q, tk_pending := map_remove i (tk_pending s)\<rparr>)"
  have settle: "live env (emit_stamped env (\<lambda>now. resolved_event now (re_agent env) Claude kind i d None) (?s2 q))" for q
  proof -
    have l: "live env (s\<lparr>tk_events := tk_events s @ [EvResponse r (resolved_result i d)]\<rparr>)"
      using live_quiet(1) [OF assms(1), of r "resolved_result i d"] live_listening [OF assms(1)]
      by (simp add: respond_ok_def emit_def)
    show ?thesis
      by (rule live_settle [OF l]) (simp_all add: assms(2) respond_ok_def emit_def live_listening [OF assms(1)])
  qed
  show ?thesis
    using settle assms(1)
    by (auto simp: finish_worker_response_def Let_def intro!: live_quiet(2,3)
        split: sum.splits prod.splits option.splits)
qed

lemma live_after_claude_call:
  "live env s \<Longrightarrow> claude_after_call env events failure s = (s', c) \<Longrightarrow> live env s'"
  by (auto simp: claude_after_call_def dest: live_publish_inbound live_quiet(4)
      split: sum.splits prod.splits bool.splits)

lemma live_claude_command:
  assumes l: "live env s" and c: "claude_command env session command s = (s', c)"
  shows "live env s'"
proof (cases command)
  case (CmdPrompt i t a options)
  have t: "live env (s\<lparr>tk_peer := q, tk_ticks := Suc (tk_ticks s)\<rparr>)" for q
    using live_tick [of env "s\<lparr>tk_peer := q\<rparr>"] l by simp
  show ?thesis
    using c l t unfolding CmdPrompt claude_command_def
    by (auto simp: claude_prompt_def Let_def intro!: live_quiet live_stamped_quiet synthetic_quiet
        dest!: live_after_claude_call [rotated] split: if_splits sum.splits prod.splits option.splits)
next
  case (CmdSteer i t a)
  show ?thesis
    using c l unfolding CmdSteer claude_command_def
    by (auto simp: claude_steer_def Let_def intro!: live_quiet
        dest!: live_after_claude_call [rotated] split: if_splits sum.splits prod.splits option.splits)
next
  case (CmdInterrupt i)
  obtain ok s1 where d: "deny_all_worker_requests env ''interrupt'' s = (ok, s1)" by fastforce
  have l1: "live env s1"
    using live_deny_all_worker [OF l d] by simp
  show ?thesis
    using c l1 d unfolding CmdInterrupt claude_command_def
    by (auto simp: claude_interrupt_def Let_def intro!: live_quiet
        dest!: live_after_claude_call [rotated] split: if_splits sum.splits prod.splits option.splits bool.splits)
next
  case (CmdHistory i cur lim)
  show ?thesis
    using c l unfolding CmdHistory claude_command_def
    by (auto simp: claude_history_command_def Let_def intro: live_quiet split: sum.splits prod.splits)
next
  case (CmdApproval r i d u m)
  show ?thesis
    using c l unfolding CmdApproval claude_command_def
    by (auto simp: respond_worker_approval_def intro: live_quiet live_finish_worker
        split: if_splits sum.splits option.splits)
next
  case (CmdQuestion r i d a m)
  show ?thesis
    using c l unfolding CmdQuestion claude_command_def
    by (auto simp: respond_worker_question_def intro: live_quiet live_finish_worker
        split: if_splits sum.splits option.splits)
next
  case CmdClientDisconnected
  show ?thesis
    using c l unfolding CmdClientDisconnected claude_command_def
    by (auto dest: live_deny_all_worker intro: live_quiet split: prod.splits bool.splits)
next
  case CmdShutdown
  obtain ok s1 where d: "deny_all_worker_requests env ''shutdown'' s = (ok, s1)" by fastforce
  show ?thesis
    using c live_deny_all_worker [OF l d] d unfolding CmdShutdown claude_command_def by simp
qed

lemma live_claude_round:
  assumes l: "live env s" and c: "claude_round env session input s = (s', c)"
  shows "live env s'"
proof (cases input)
  case (InCommand command)
  with l c show ?thesis by (auto simp: claude_round_def intro: live_claude_command)
next
  case InProvider
  have pub: "publish_worker_event env event (s\<lparr>tk_peer := q\<rparr>) = (r, s1) \<Longrightarrow> live env s1" for event q r s1
    using l live_publish_worker [of env "s\<lparr>tk_peer := q\<rparr>" event r s1] by simp
  with l c InProvider show ?thesis
    by (auto simp: claude_round_def intro: live_quiet dest: pub
        split: if_splits sum.splits prod.splits bool.splits)
next
  case InDeadline
  with l c show ?thesis
    by (auto simp: claude_round_def intro: live_quiet dest: live_expire_worker split: if_splits prod.splits bool.splits)
qed (use l c in \<open>auto simp: claude_round_def split: if_splits\<close>)

lemma claude_finish_live:
  assumes "live env s"
  shows "live env (claude_finish env s)" and "tk_pending (claude_finish env s) = []"
proof -
  obtain ok s1 where d: "deny_all_worker_requests env ''provider_exit'' s = (ok, s1)" by fastforce
  show "live env (claude_finish env s)" "tk_pending (claude_finish env s) = []"
    using live_deny_all_worker [OF assms d] live_quiet(5) [of env s1]
    by (simp_all add: claude_finish_def d runtime_stopped_def)
qed

interpretation claude_task: provider_task "claude_round env session" "claude_finish env" "live env" for env session
proof unfold_locales
  fix s :: claude_task
  assume l: "live env s"
  then show "desk s \<and> distinct (asked (tk_events s))"
    by (simp add: live_def task_ok_def)
  show "live env (claude_finish env s)" "tk_pending (claude_finish env s) = []"
    using claude_finish_live [OF l] by simp_all
  show "claude_round env session input s = (s', c) \<Longrightarrow> live env s'" for input s' c
    using live_claude_round [OF l] by blast
qed

lemma claude_start_live:
  assumes "inj (re_uuid env)"
    and "claude_start env nonce sources request_id launch options spawned True = (s, Some session)"
  shows "live env s"
proof -
  obtain p runtime r and started :: WorkerRequestOutcome where pub: "publish_worker_inbound env (wo_inbound started)
      (emit (EvStarted request_id (re_agent env) session runtime) (new_task p True)) = (r, s)"
    using assms(2)
    by (auto simp: claude_start_def abort_start_def Let_def
        split: option.splits sum.splits prod.splits if_splits)
  have "live env (emit (EvStarted request_id (re_agent env) session runtime) (new_task p True))"
    using assms(1) by (simp add: live_def task_ok_emit live_new_task [unfolded live_def])
  from live_publish_inbound [OF this pub] show ?thesis .
qed


text \<open>A concrete worker: it negotiates, asks for an approval while the session opens, and opens it.\<close>

definition rpc :: "(string \<times> json) list \<Rightarrow> json" where
  "rpc kvs = jobj ((''jsonrpc'', JString ''2.0'') # kvs)"

definition demo_hello :: json where
  "demo_hello = jobj [(''protocol_version'', jnat 1), (''nonce'', JString ''n''),
     (''diagnostics'', jobj [(''compatibility_profile'', JString CLAUDE_COMPATIBILITY_PROFILE),
        (''sdk'', jobj [(''compatible'', JBool True), (''version'', JString ''1'')]),
        (''claude_runtime'', jobj [(''compatible'', JBool True), (''version'', JString ''2'')])])]"

definition demo_callback :: json where
  "demo_callback = rpc [(''id'', jnat 9), (''method'', JString ''approval/request'')]"

definition worker_decode :: "string \<Rightarrow> json option" where
  "worker_decode f =
    (if f = ''i'' then Some (rpc [(''id'', jnat 1), (''result'', demo_hello)])
     else if f = ''a'' then Some demo_callback
     else if f = ''t'' then Some (rpc [(''id'', jnat 2), (''result'', jobj [(''provider_session_id'', JString ''S'')])])
     else None)"

definition worker_env :: RtEnv where
  "worker_env = demo_env\<lparr>re_codec := \<lparr>cd_encode = \<lambda>_. [], cd_decode = worker_decode\<rparr>\<rparr>"

lemma worker_next_frame:
  assumes "worker_decode [c] = Some v" "get_str ''jsonrpc'' v = Some ''2.0''" "c \<noteq> newline" "c \<noteq> CHR 0x0D"
  shows "worker_read (re_codec worker_env) (demo_peer (frame_line c # rest) n out) = (Inr v, demo_peer rest n out)"
  using assms
  by (simp add: worker_read_def demo_peer_def read_bounded_line_def WORKER_MAX_FRAME_BYTES_def Let_def
      worker_env_def strip_line_end_def)

lemma worker_write_demo:
  "worker_write (re_codec worker_env) m (demo_peer r n out) = (Inr (), demo_peer r n (out @ [m]))"
  by (simp add: worker_write_def worker_env_def pipe_write_def demo_peer_def)

lemma demo_peer_written [simp]: "pr_written (demo_peer r n out) = out"
  by (simp add: demo_peer_def)

lemma demo_worker_initialize:
  "\<exists>out. worker_initialize (re_codec worker_env) ''n'' (demo_peer (frame_line CHR ''i'' # rest) 1 [])
    = (Inr demo_hello, demo_peer rest 2 out)"
proof -
  let ?v = "rpc [(''id'', jnat 1), (''result'', demo_hello)]"
  have v: "worker_decode ''i'' = Some ?v" "get_str ''jsonrpc'' ?v = Some ''2.0''" "is_response_to 1 ?v"
    "worker_response_value ?v = Inr demo_hello"
    by (simp_all add: worker_decode_def rpc_def get_str_def jget_jobj is_response_to_def jnat_def
        worker_response_value_def)
  have aw: "worker_await (re_codec worker_env) 1 [] (demo_peer (frame_line CHR ''i'' # rest) 2 out)
      = (Inr \<lparr>wo_result = demo_hello, wo_inbound = []\<rparr>, demo_peer rest 2 out)" for out
    using worker_next_frame [OF v(1,2), of rest 2 out] v(3,4) by (subst worker_await.simps) simp
  have set_id: "(demo_peer r 1 out)\<lparr>pr_next_id := 2\<rparr> = demo_peer r 2 out" for r out
    by (simp add: demo_peer_def)
  have c: "checked_add1 (1 :: u64) = Some 2" "pr_next_id (demo_peer r 1 out) = 1" for r out
    by (simp_all add: checked_add1_def u64_max_def demo_peer_def)
  let ?params = "jobj [(''protocol_version'', ju32 WORKER_PROTOCOL_VERSION),
      (''broker_version'', JString BROKER_VERSION), (''nonce'', JString ''n'')]"
  obtain out where "worker_request (re_codec worker_env) ''worker/initialize'' ?params
      (demo_peer (frame_line CHR ''i'' # rest) 1 [])
      = (Inr \<lparr>wo_result = demo_hello, wo_inbound = []\<rparr>, demo_peer rest 2 out)"
    by (simp add: worker_request_def c set_id worker_write_demo aw)
  moreover have "worker_runtime_identity demo_hello = Inr \<lparr>rt_compatibility_profile = CLAUDE_COMPATIBILITY_PROFILE,
      rt_provider_version = ''2'', rt_adapter_version = Some ''1'', rt_executable = None\<rparr>"
    by (simp add: worker_runtime_identity_def demo_hello_def jindex_def jget_jobj Let_def)
  moreover have "get_str ''nonce'' demo_hello = Some ''n''"
    "Option.bind (jget ''protocol_version'' demo_hello) as_u64 = Some (ucast WORKER_PROTOCOL_VERSION)"
    by (simp_all add: demo_hello_def get_str_def jget_jobj jnat_def WORKER_PROTOCOL_VERSION_def)
  ultimately show ?thesis
    by (simp add: worker_initialize_def) blast
qed

lemma demo_worker_open:
  "\<exists>out cb. claude_open worker_env [] LaunchStart default_options
      (demo_peer [frame_line CHR ''a'', frame_line CHR ''t''] 2 out0)
    = (Inr \<lparr>wo_result = jobj [(''provider_session_id'', JString ''S'')], wo_inbound = [cb]\<rparr>, demo_peer [] 3 out)
    \<and> wi_id cb = Some (Integer 9) \<and> wi_method cb = ''approval/request''"
proof -
  let ?v = "rpc [(''id'', jnat 2), (''result'', jobj [(''provider_session_id'', JString ''S'')])]"
  let ?cb = "\<lparr>wi_id = Some (Integer 9), wi_method = ''approval/request'', wi_params = jobj []\<rparr>"
  have v: "worker_decode ''t'' = Some ?v" "get_str ''jsonrpc'' ?v = Some ''2.0''" "is_response_to 2 ?v"
    "worker_response_value ?v = Inr (jobj [(''provider_session_id'', JString ''S'')])"
    by (simp_all add: worker_decode_def rpc_def get_str_def jget_jobj is_response_to_def jnat_def
        worker_response_value_def)
  have a: "worker_decode ''a'' = Some demo_callback" "get_str ''jsonrpc'' demo_callback = Some ''2.0''"
    "\<not> is_response_to 2 demo_callback" "parse_inbound demo_callback = Inr ?cb"
    by (simp_all add: worker_decode_def demo_callback_def rpc_def get_str_def jget_jobj is_response_to_def jnat_def
        parse_inbound_def of_request_id_def)
  have "worker_await (re_codec worker_env) 2 [?cb] (demo_peer [frame_line CHR ''t''] 3 out)
      = (Inr \<lparr>wo_result = jobj [(''provider_session_id'', JString ''S'')], wo_inbound = [?cb]\<rparr>, demo_peer [] 3 out)" for out
    using worker_next_frame [OF v(1,2), of "[]" 3 out] v(3,4) by (subst worker_await.simps) simp
  then have aw: "worker_await (re_codec worker_env) 2 [] (demo_peer [frame_line CHR ''a'', frame_line CHR ''t''] 3 out)
      = (Inr \<lparr>wo_result = jobj [(''provider_session_id'', JString ''S'')], wo_inbound = [?cb]\<rparr>, demo_peer [] 3 out)" for out
    using worker_next_frame [OF a(1,2), of "[frame_line CHR ''t'']" 3 out] a(3,4) by (subst worker_await.simps) simp
  have c: "checked_add1 (2 :: u64) = Some 3" "pr_next_id (demo_peer r 2 out) = 2" for r out
    by (simp_all add: checked_add1_def u64_max_def demo_peer_def)
  have set_id: "(demo_peer r 2 out)\<lparr>pr_next_id := 3\<rparr> = demo_peer r 3 out" for r out
    by (simp add: demo_peer_def)
  show ?thesis
    using a(4) by (simp add: claude_open_def worker_request_def c set_id worker_write_demo aw) fastforce
qed


section \<open>Only an explicit answer grants\<close>

definition claude_grants :: "json \<Rightarrow> bool" where
  "claude_grants r = (get_str ''decision'' r = Some ''allow'')"

definition worker_harmless :: "json \<Rightarrow> bool" where
  "worker_harmless f = (jget ''method'' f \<noteq> None
     \<or> (case jget ''result'' f of None \<Rightarrow> True | Some r \<Rightarrow> \<not> claude_grants r))"

abbreviation worker_step :: "claude_task \<Rightarrow> claude_task \<Rightarrow> bool" where
  "worker_step s s' \<equiv> writes_only worker_harmless (tk_peer s) (tk_peer s')"

lemma worker_write_only:
  "worker_write cd m p = (r, p') \<Longrightarrow> worker_harmless m \<Longrightarrow> writes_only worker_harmless p p'"
  by (auto simp: worker_write_def pipe_write_def writes_only_def split: if_splits)

lemma worker_request_only:
  assumes "worker_request cd method params p = (r, p')"
  shows "writes_only worker_harmless p p'"
proof (cases "checked_add1 (pr_next_id p)")
  case None
  with assms show ?thesis by (auto simp: worker_request_def intro: writes_only_refl)
next
  case (Some nxt)
  obtain x p1 where w: "worker_write cd (worker_request_frame (pr_next_id p) method params)
      (p\<lparr>pr_next_id := nxt\<rparr>) = (x, p1)" by fastforce
  have f: "worker_harmless (worker_request_frame (pr_next_id p) method params)"
    by (simp add: worker_harmless_def worker_request_frame_def jget_jobj)
  have h: "writes_only worker_harmless p p1"
    using worker_write_only [OF w f] by (simp add: writes_only_def)
  show ?thesis
  proof (cases x)
    case (Inl e)
    with assms Some w h show ?thesis by (simp add: worker_request_def Let_def)
  next
    case (Inr u)
    then have "worker_await cd (pr_next_id p) [] p1 = (r, p')"
      using assms Some w by (simp add: worker_request_def Let_def)
    from worker_await_keeps [OF this] have "writes_only worker_harmless p1 p'"
      by (simp add: writes_only_refl)
    with h show ?thesis by (rule writes_only_trans)
  qed
qed

lemma callback_only:
  "respond_callback cd i result p = (r, p') \<Longrightarrow> \<not> claude_grants result \<Longrightarrow> writes_only worker_harmless p p'"
  unfolding respond_callback_def
  by (rule worker_write_only) (auto simp: worker_harmless_def callback_frame_def jget_jobj)

lemma deny_callback_only: "deny_callback cd i message p = (r, p') \<Longrightarrow> writes_only worker_harmless p p'"
  unfolding deny_callback_def
  by (erule callback_only) (simp add: claude_grants_def denial_result_def get_str_def jget_jobj)

lemma publish_worker_only: "publish_worker_event env inbound s = (r, s') \<Longrightarrow> worker_step s s'"
  by (auto simp: publish_worker_event_def publish_worker_normalized_def Let_def apfst_def map_prod_def
      writes_only_refl dest: deny_callback_only split: option.splits sum.splits prod.splits)

lemma publish_inbound_only: "publish_worker_inbound env events s = (r, s') \<Longrightarrow> worker_step s s'"
proof (induction events arbitrary: s r)
  case (Cons event events)
  obtain x s1 where p: "publish_worker_event env event s = (x, s1)" by fastforce
  note h = publish_worker_only [OF p]
  from Cons p h show ?case
    by (auto split: sum.splits prod.splits intro: writes_only_trans)
qed (simp add: writes_only_refl)

lemma after_claude_call_only: "claude_after_call env events failure s = (s', c) \<Longrightarrow> worker_step s s'"
  by (auto simp: claude_after_call_def dest: publish_inbound_only split: sum.splits prod.splits bool.splits)

lemma deny_list_worker_only: "deny_list_worker env reason message is s = (ok, s') \<Longrightarrow> worker_step s s'"
proof (induction "is" arbitrary: s ok s')
  case (Cons i "is")
  obtain ok1 s1 where d: "deny_one_worker env reason message i s = (ok1, s1)" by fastforce
  have "worker_step s s1"
    using d by (auto simp: deny_one_worker_def writes_only_refl dest: deny_callback_only
        split: option.splits prod.splits)
  with Cons d show ?case
    by (auto split: prod.splits intro: writes_only_trans)
qed (simp add: writes_only_refl)

lemma deny_all_worker_only: "deny_all_worker_requests env reason s = (ok, s') \<Longrightarrow> worker_step s s'"
  by (simp add: deny_all_worker_requests_def deny_list_worker_only)

lemma expire_worker_only: "expire_worker_requests env s = (ok, s') \<Longrightarrow> worker_step s s'"
  using deny_list_worker_only by (fastforce simp: expire_worker_requests_def Let_def)

lemma finish_worker_only:
  assumes "\<not> claude_grants result"
  shows "worker_step s (finish_worker_response env r i d kind p result failure s)"
  by (auto simp: finish_worker_response_def Let_def writes_only_refl dest: callback_only [OF _ assms]
      split: option.splits sum.splits prod.splits)

lemma claude_answers_grant:
  "claude_approval_response decision input message = Inr r \<Longrightarrow> decision \<noteq> ''allow'' \<Longrightarrow> \<not> claude_grants r"
  "claude_question_response decision answers message = Inr r \<Longrightarrow> \<not> claude_grants r"
  by (auto simp: claude_approval_response_def claude_question_response_def claude_grants_def get_str_def
      jget_jobj split: if_splits)

lemma claude_command_only:
  assumes c: "claude_command env session command s = (s', c)" and na: "\<not> explicit_allow (InCommand command)"
  shows "worker_step s s'"
proof (cases command)
  case (CmdPrompt i t a options)
  show ?thesis
    using c unfolding CmdPrompt claude_command_def
    by (auto simp: claude_prompt_def Let_def writes_only_refl
        dest!: after_claude_call_only worker_request_only intro: writes_only_trans
        split: if_splits sum.splits prod.splits option.splits)
next
  case (CmdSteer i t a)
  show ?thesis
    using c unfolding CmdSteer claude_command_def
    by (auto simp: claude_steer_def Let_def writes_only_refl
        dest!: after_claude_call_only worker_request_only intro: writes_only_trans
        split: if_splits sum.splits prod.splits option.splits)
next
  case (CmdInterrupt i)
  obtain ok s1 where d: "deny_all_worker_requests env ''interrupt'' s = (ok, s1)" by fastforce
  have h: "worker_step s s1"
    by (rule deny_all_worker_only [OF d])
  have "worker_step s1 s'"
    using c d unfolding CmdInterrupt claude_command_def
    by (auto simp: claude_interrupt_def Let_def writes_only_refl
        dest!: after_claude_call_only worker_request_only intro: writes_only_trans
        split: if_splits sum.splits prod.splits option.splits bool.splits)
  with h show ?thesis by (rule writes_only_trans)
next
  case (CmdHistory i cur lim)
  show ?thesis
    using c unfolding CmdHistory claude_command_def
    by (auto simp: claude_history_command_def Let_def dest: worker_request_only split: sum.splits prod.splits)
next
  case (CmdApproval r i d u m)
  then have "d \<noteq> ''allow''"
    using na by (simp add: explicit_allow_def)
  then show ?thesis
    using c unfolding CmdApproval claude_command_def
    by (auto simp: respond_worker_approval_def writes_only_refl dest: claude_answers_grant
        intro!: finish_worker_only split: if_splits sum.splits option.splits)
next
  case (CmdQuestion r i d a m)
  show ?thesis
    using c unfolding CmdQuestion claude_command_def
    by (auto simp: respond_worker_question_def writes_only_refl dest: claude_answers_grant
        intro!: finish_worker_only split: if_splits sum.splits option.splits)
next
  case CmdClientDisconnected
  show ?thesis
    using c unfolding CmdClientDisconnected claude_command_def
    by (auto dest: deny_all_worker_only split: prod.splits bool.splits)
next
  case CmdShutdown
  obtain ok s1 where d: "deny_all_worker_requests env ''shutdown'' s = (ok, s1)" by fastforce
  show ?thesis
    using c deny_all_worker_only [OF d] d unfolding CmdShutdown claude_command_def by simp
qed

text \<open>
  C4.  Nothing is granted to a Claude agent without an explicit answer: in every round other than
  an approval command whose decision is \<open>allow\<close>, and when the task ends, each frame written to the
  worker is a request of the broker or an answer whose decision is not \<open>allow\<close>.
\<close>

theorem claude_grants_only_on_allow:
  assumes "claude_round env session input s = (s', running)" and "\<not> explicit_allow input"
  shows "(\<exists>new. pr_written (tk_peer s') = pr_written (tk_peer s) @ new \<and> (\<forall>f\<in>set new. worker_harmless f))
    \<and> (\<exists>new. pr_written (tk_peer (claude_finish env s')) = pr_written (tk_peer s') @ new
         \<and> (\<forall>f\<in>set new. worker_harmless f))"
proof -
  have "worker_step s s'"
  proof (cases input)
    case (InCommand command)
    then show ?thesis
      using assms claude_command_only by (simp add: claude_round_def)
  next
    case InProvider
    have "writes_only worker_harmless (tk_peer s) q" if "next_inbound (re_codec env) (tk_peer s) = (r, q)" for r q
      using that by (auto simp: next_inbound_def dest: worker_read_keeps intro: writes_only_refl
          split: sum.splits prod.splits)
    then show ?thesis
      using InProvider assms(1)
      by (auto simp: claude_round_def writes_only_refl dest!: publish_worker_only intro: writes_only_trans
          split: if_splits sum.splits prod.splits bool.splits)
  next
    case InDeadline
    then show ?thesis
      using assms(1) by (auto simp: claude_round_def writes_only_refl dest: expire_worker_only
          split: if_splits prod.splits bool.splits)
  qed (use assms(1) in \<open>auto simp: claude_round_def writes_only_refl split: if_splits\<close>)
  moreover have "worker_step s' (claude_finish env s')"
    using deny_all_worker_only [of env "''provider_exit''" s'] by (simp add: claude_finish_def prod_eq_iff)
  ultimately show ?thesis
    by (simp add: writes_only_def)
qed

theorem claude_grants_only_on_allow_witness:
  "\<exists>s'. claude_round worker_env ''S'' (InCommand (CmdApproval (Integer 2) ''x'' ''deny'' None None))
       ((new_task (demo_peer [] 3 []) True)\<lparr>tk_pending := [(''x'', \<lparr>pw_kind = Approval,
          pw_inbound = \<lparr>wi_id = Some (Integer 9), wi_method = ''approval/request'', wi_params = jobj []\<rparr>,
          pw_deadline = 0\<rparr>)]\<rparr>) = (s', True)
     \<and> length (pr_written (tk_peer s')) = 1 \<and> list_all worker_harmless (pr_written (tk_peer s'))"
proof -
  let ?s = "(new_task (demo_peer [] 3 []) True)\<lparr>tk_pending := [(''x'', \<lparr>pw_kind = Approval,
          pw_inbound = \<lparr>wi_id = Some (Integer 9), wi_method = ''approval/request'', wi_params = jobj []\<rparr>,
          pw_deadline = 0\<rparr>)]\<rparr> :: claude_task"
  let ?in = "InCommand (CmdApproval (Integer 2) ''x'' ''deny'' None None)"
  obtain s' where r: "claude_round worker_env ''S'' ?in ?s = (s', True)"
    by (simp add: claude_round_def claude_command_def)
  have "length (pr_written (tk_peer s')) = 1"
    using r by (auto simp: claude_round_def claude_command_def respond_worker_approval_def
        claude_approval_response_def finish_worker_response_def respond_callback_def worker_write_demo new_task_def Let_def)
  then show ?thesis
    using claude_grants_only_on_allow [OF r] r
    by (auto simp: explicit_allow_def new_task_def list_all_iff)
qed

end
