(* ===== verification/Host.thy ===== *)
theory Host
  imports Peer
begin

text \<open>
  The machine the broker runs on, as far as the code asks it: file names (\<open>std::path\<close> on Unix), bytes
  read from other programs (\<open>str::from_utf8\<close>, \<open>str::lines\<close>), and what the file system, Git, the
  lifecycle helper, the clock and the random generator answer.

  The answers are the fields of a \<open>World\<close>, one for each moment at which the broker looks; nothing is
  assumed about them.  The file names and the byte strings are the standard library's and are
  defined here.
\<close>

section \<open>Paths\<close>

text \<open>
  A path is its text; two paths are equal when their components are, as \<open>Path\<close> compares.  Empty
  components and \<open>.\<close> are dropped, except a leading \<open>.\<close> of a relative path.
\<close>

definition is_absolute :: "string \<Rightarrow> bool" where
  "is_absolute p = starts_with ''/'' p"

definition components :: "string \<Rightarrow> string list" where
  "components p =
    (let parts = split_on (CHR ''/'') p; body = filter (\<lambda>c. c \<noteq> [] \<and> c \<noteq> ''.'') parts in
     if is_absolute p then ''/'' # body
     else if hd parts = ''.'' then ''.'' # body else body)"

definition path_eq :: "string \<Rightarrow> string \<Rightarrow> bool" where
  "path_eq p q = (components p = components q)"

definition path_of :: "string list \<Rightarrow> string" where
  "path_of cs = (case cs of
     [] \<Rightarrow> []
   | c # rest \<Rightarrow> if c = ''/'' then ''/'' @ join_with ''/'' rest else join_with ''/'' cs)"

text \<open>The last component, when it is a name.\<close>

definition file_name :: "string \<Rightarrow> string option" where
  "file_name p =
    (let cs = components p in
     if cs = [] \<or> last cs = ''/'' \<or> last cs = ''..'' \<or> last cs = ''.'' then None else Some (last cs))"

definition path_parent :: "string \<Rightarrow> string option" where
  "path_parent p =
    (let cs = components p in if cs = [] \<or> last cs = ''/'' then None else Some (path_of (butlast cs)))"

definition path_join :: "string \<Rightarrow> string \<Rightarrow> string" where
  "path_join p q =
    (if is_absolute q then q
     else if p = [] \<or> last p = CHR ''/'' then p @ q else p @ ''/'' @ q)"

definition path_starts_with :: "string \<Rightarrow> string \<Rightarrow> bool" where
  "path_starts_with p base = (take (length (components base)) (components p) = components base)"

text \<open>The path itself and its parents, the longest first.\<close>

definition ancestors :: "string \<Rightarrow> string list" where
  "ancestors p =
    (let cs = components p in
     p # map (\<lambda>n. path_of (take n cs)) (rev (if is_absolute p then [1..<length cs] else [0..<length cs])))"

lemma path_starts_with_refl: "path_starts_with p p"
  by (simp add: path_starts_with_def)

lemma path_starts_with_iff:
  "path_starts_with p base \<longleftrightarrow> (\<exists>below. components p = components base @ below)"
  by (metis append_eq_conv_conj path_starts_with_def)

section \<open>Bytes of other programs\<close>

definition byte_in :: "nat \<Rightarrow> nat \<Rightarrow> char \<Rightarrow> bool" where
  "byte_in lo hi c = (lo \<le> (of_char c :: nat) \<and> (of_char c :: nat) \<le> hi)"

text \<open>
  What may follow a leading byte: the range of each further byte of the character (Unicode, table
  3-7); \<open>None\<close> for a byte that starts no character.
\<close>

definition utf8_tail :: "char \<Rightarrow> (nat \<times> nat) list option" where
  "utf8_tail c =
    (let b = (of_char c :: nat) in
     if b < 128 then Some []
     else if 194 \<le> b \<and> b \<le> 223 then Some [(128, 191)]
     else if b = 224 then Some [(160, 191), (128, 191)]
     else if b = 237 then Some [(128, 159), (128, 191)]
     else if 225 \<le> b \<and> b \<le> 239 then Some [(128, 191), (128, 191)]
     else if b = 240 then Some [(144, 191), (128, 191), (128, 191)]
     else if 241 \<le> b \<and> b \<le> 243 then Some [(128, 191), (128, 191), (128, 191)]
     else if b = 244 then Some [(128, 143), (128, 191), (128, 191)]
     else None)"

text \<open>How many of the expected bytes are there.\<close>

fun tail_matched :: "(nat \<times> nat) list \<Rightarrow> string \<Rightarrow> nat" where
  "tail_matched ((lo, hi) # rs) (c # cs) = (if byte_in lo hi c then Suc (tail_matched rs cs) else 0)"
| "tail_matched _ _ = 0"

fun valid_utf8 :: "string \<Rightarrow> bool" where
  "valid_utf8 [] = True"
| "valid_utf8 (c # cs) =
    (case utf8_tail c of
       None \<Rightarrow> False
     | Some rs \<Rightarrow> tail_matched rs cs = length rs \<and> valid_utf8 (drop (length rs) cs))"

definition from_utf8 :: "string \<Rightarrow> string option" where
  "from_utf8 bytes = (if valid_utf8 bytes then Some bytes else None)"

text \<open>Each maximal invalid piece becomes one replacement character.\<close>

fun from_utf8_lossy :: "string \<Rightarrow> string" where
  "from_utf8_lossy [] = []"
| "from_utf8_lossy (c # cs) =
    (let rs = unwrap_or [] (utf8_tail c); n = tail_matched rs cs in
     (if utf8_tail c \<noteq> None \<and> n = length rs then c # take n cs else [CHR 0xEF, CHR 0xBF, CHR 0xBD])
     @ from_utf8_lossy (drop n cs))"

lemma valid_utf8_lossy: "valid_utf8 s \<Longrightarrow> from_utf8_lossy s = s"
  by (induction s rule: valid_utf8.induct) (auto split: option.splits)

text \<open>\<open>str::lines\<close>: pieces ended by a line feed, a carriage return before it dropped.\<close>

definition strip_cr :: "string \<Rightarrow> string" where
  "strip_cr s = unwrap_or s (strip_suffix [CHR 0x0D] s)"

definition str_lines :: "string \<Rightarrow> string list" where
  "str_lines s =
    (let parts = split_on (CHR 0x0A) s in
     map strip_cr (butlast parts) @ (if last parts = [] then [] else [last parts]))"

section \<open>What the outside answers\<close>

datatype FileStat = StatMissing | StatError | StatFile nat | StatDir | StatOther

datatype SaveStep = OpenTemp | WriteData | WriteNewline | SyncFile | RenameFile | SetMode | SyncDir

datatype Run = RunNotStarted | RunTimedOut | RunExited bool string string

text \<open>
  \<open>w_alive\<close> and \<open>w_room\<close>: the agent's task still takes commands, and its bounded channel has room at
  once.  \<open>w_lock_files\<close>: the entries of the Codex lock directory, each with whether it is a regular
  file that can be opened and whether another process holds its lock.  \<open>w_created\<close>: what is found at
  a directory's path after it had to be created, \<open>None\<close> when creating it fails.  \<open>w_fails\<close>: the steps of
  replacing a file that fail, \<open>w_short\<close> the number of bytes a failing write still stores.
\<close>

record World =
  w_stamp :: string
  w_uuid :: string
  w_alive :: bool
  w_room :: bool
  w_canonical :: "string \<Rightarrow> string option"
  w_is_dir :: "string \<Rightarrow> bool"
  w_exists :: "string \<Rightarrow> bool"
  w_stat :: "string \<Rightarrow> FileStat"
  w_text :: "string \<Rightarrow> string option"
  w_run :: "string \<Rightarrow> string list \<Rightarrow> Run"
  w_home :: "string option"
  w_pid :: nat
  w_which :: "string \<Rightarrow> string option"
  w_codex :: "Peer option"
  w_claude :: "Peer option"
  w_lock_files :: "(string \<times> bool \<times> bool) list option"
  w_is_uuid :: "string \<Rightarrow> bool"
  w_mode :: "string \<Rightarrow> u32"
  w_created :: "string \<Rightarrow> (FileStat \<times> u32) option"
  w_read :: "string \<Rightarrow> string option"
  w_size :: "string \<Rightarrow> u64 option"
  w_fails :: "SaveStep \<Rightarrow> bool"
  w_short :: nat

section \<open>Replacing a file\<close>

text \<open>
  Both stores write a temporary file beside the target and rename it (\<open>registry.rs\<close>, \<open>status.rs\<close>).
  The state is the contents of the temporary file and of the target; the first failing step ends
  the sequence, and the temporary file is then removed.
\<close>

type_synonym save_state = "string option \<times> string option"

fun save_step :: "World \<Rightarrow> string \<Rightarrow> SaveStep \<Rightarrow> save_state \<Rightarrow> bool \<times> save_state" where
  "save_step w bytes OpenTemp (temp, target) = (if w_fails w OpenTemp then (False, temp, target) else (True, Some [], target))"
| "save_step w bytes WriteData (temp, target) =
    (if w_fails w WriteData then (False, map_option (\<lambda>t. t @ take (w_short w) bytes) temp, target)
     else (True, map_option (\<lambda>t. t @ bytes) temp, target))"
| "save_step w bytes WriteNewline (temp, target) =
    (if w_fails w WriteNewline then (False, temp, target)
     else (True, map_option (\<lambda>t. t @ [CHR 0x0A]) temp, target))"
| "save_step w bytes RenameFile (temp, target) =
    (if w_fails w RenameFile then (False, temp, target) else (True, None, temp))"
| "save_step w bytes other (temp, target) = (\<not> w_fails w other, temp, target)"

fun save_steps :: "World \<Rightarrow> string \<Rightarrow> SaveStep list \<Rightarrow> save_state \<Rightarrow> bool \<times> save_state" where
  "save_steps w bytes [] s = (True, s)"
| "save_steps w bytes (step # steps) s =
    (case save_step w bytes step s of
       (True, s') \<Rightarrow> save_steps w bytes steps s'
     | (False, s') \<Rightarrow> (False, None, snd s'))"

definition save_file :: "World \<Rightarrow> string \<Rightarrow> string option \<Rightarrow> bool \<times> string option" where
  "save_file w bytes target =
    (case save_steps w bytes [OpenTemp, WriteData, WriteNewline, SyncFile, RenameFile, SetMode, SyncDir] (None, target) of
       (ok, _, target') \<Rightarrow> (ok, target'))"

text \<open>The target is never seen half written.\<close>

lemma save_file_atomic:
  "snd (save_file w bytes target) = target \<or> snd (save_file w bytes target) = Some (bytes @ [CHR 0x0A])"
  by (auto simp: save_file_def split: bool.splits)

lemma save_file_ok: "fst (save_file w bytes target) \<Longrightarrow> snd (save_file w bytes target) = Some (bytes @ [CHR 0x0A])"
  by (auto simp: save_file_def split: bool.splits if_splits)

text \<open>A world for examples.\<close>

definition quiet_world :: World where
  "quiet_world = \<lparr>w_stamp = [], w_uuid = ''u'', w_alive = True, w_room = True, w_canonical = Some,
     w_is_dir = (\<lambda>_. True), w_exists = (\<lambda>_. True), w_stat = (\<lambda>_. StatMissing), w_text = (\<lambda>_. None),
     w_run = (\<lambda>_ _. RunExited True [] []), w_home = None, w_pid = 7, w_which = (\<lambda>_. None), w_codex = None, w_claude = None,
     w_lock_files = None, w_is_uuid = (\<lambda>_. False), w_mode = (\<lambda>_. 384), w_created = (\<lambda>_. None),
     w_read = (\<lambda>_. None), w_size = (\<lambda>_. None), w_fails = (\<lambda>_. False), w_short = 0\<rparr>"

end
