(* ===== verification/Workspace.thy ===== *)
theory Workspace
  imports Host "HOL-Library.Multiset"
begin

text \<open>
  The adapter of the repository lifecycle helper, \<open>workspace.rs\<close>: claiming and handing off a task,
  the inventory it projects from the helper's audit, and the checks on everything the helper and
  Git report.

  Each operation returns its result together with the argument lists of the helper calls it made,
  in order, so that lemmas can speak about what was asked of the helper.  The helper and Git are
  \<open>w_run\<close> of the world; the reading of the audit text as JSON is a parameter.
\<close>

datatype WorkspaceError =
    WsSpawn | WsTimeout | WsRefused | WsRefusedReason string | WsTooLarge | WsInvalidJson
  | WsUnsupportedSchema | WsInvalidIdentifier | WsUnsafeRepository | WsMissingTask

fun workspace_error_text :: "WorkspaceError \<Rightarrow> string" where
  "workspace_error_text WsSpawn = ''workspace lifecycle command could not be started''"
| "workspace_error_text WsTimeout = ''workspace lifecycle command timed out''"
| "workspace_error_text WsRefused = ''workspace lifecycle command refused the request''"
| "workspace_error_text (WsRefusedReason r) = ''workspace lifecycle refused: '' @ r"
| "workspace_error_text WsTooLarge = ''workspace lifecycle audit exceeded the size limit''"
| "workspace_error_text WsInvalidJson = ''workspace lifecycle audit returned invalid JSON''"
| "workspace_error_text WsUnsupportedSchema = ''workspace lifecycle audit schema is unsupported''"
| "workspace_error_text WsInvalidIdentifier = ''workspace repository or task identifier is invalid''"
| "workspace_error_text WsUnsafeRepository = ''workspace lifecycle returned unsafe repository metadata''"
| "workspace_error_text WsMissingTask = ''workspace lifecycle did not return the claimed task''"

record TaskSummary =
  ts_task_id :: string
  ts_branch :: string
  ts_path :: string
  ts_head :: "string option"
  ts_upstream :: "string option"
  ts_lease_identity :: "string list"
  ts_lease_keep :: "string option"
  ts_lease_transition :: "string option"
  ts_cleanup_candidate :: bool
  ts_reasons :: "string list"

record RepositorySummary =
  rs_slug :: string
  rs_github :: string
  rs_canonical_path :: string
  rs_base_branch :: string
  rs_canonical_branch :: "string option"
  rs_canonical_clean :: bool
  rs_worktree_root :: string
  rs_tasks :: "TaskSummary list"

record WorkspaceInventory =
  wi_schema_version :: u32
  wi_generated_at :: string
  wi_registry :: string
  wi_repositories :: "RepositorySummary list"

record AuditCanonical =
  ac_path :: string
  ac_base_branch :: string
  ac_branch :: "string option"
  ac_clean :: bool

record AuditWorktree =
  aw_task_id :: "string option"
  aw_branch :: "string option"
  aw_path :: string
  aw_head :: "string option"
  aw_upstream :: "string option"
  aw_lease_identity :: "string list"
  aw_lease_keep :: "string option"
  aw_lease_transition :: "string option"
  aw_cleanup_candidate :: bool
  aw_reasons :: "string list"

record AuditRepository =
  ar_slug :: string
  ar_github :: string
  ar_canonical :: AuditCanonical
  ar_worktree_root :: string
  ar_worktrees :: "AuditWorktree list"

record AuditDocument =
  ad_schema_version :: u32
  ad_generated_at :: string
  ad_registry :: string
  ad_repositories :: "AuditRepository list"

record ClaimReceipt =
  cr_path :: string
  cr_branch :: string

definition AUDIT_SCHEMA_VERSION :: u32 where "AUDIT_SCHEMA_VERSION = 1"
definition MAX_AUDIT_BYTES :: nat where "MAX_AUDIT_BYTES = 8 * 1024 * 1024"

section \<open>Identifiers\<close>

fun identifier_loop :: "bool \<Rightarrow> bool \<Rightarrow> string \<Rightarrow> bool" where
  "identifier_loop allow_dot previous_separator [] = (\<not> previous_separator)"
| "identifier_loop allow_dot previous_separator (c # cs) =
    (let separator = c = CHR ''-'' \<or> (allow_dot \<and> c = CHR ''.'') in
     if is_ascii_lower c \<or> is_ascii_digit c then identifier_loop allow_dot False cs
     else if separator \<and> \<not> previous_separator then identifier_loop allow_dot True cs
     else False)"

definition valid_identifier :: "string \<Rightarrow> bool \<Rightarrow> bool" where
  "valid_identifier v allow_dot = (v \<noteq> [] \<and> length v \<le> 128 \<and> identifier_loop allow_dot True v)"

definition validate_repository :: "string \<Rightarrow> WorkspaceError + unit" where
  "validate_repository v = (if valid_identifier v True then Inr () else Inl WsInvalidIdentifier)"

definition validate_task :: "string \<Rightarrow> WorkspaceError + unit" where
  "validate_task v = (if valid_identifier v False then Inr () else Inl WsInvalidIdentifier)"

section \<open>Refusals\<close>

definition refusal_reason :: "string \<Rightarrow> string option" where
  "refusal_reason code =
    map_of [
      (''dirty_canonical'', ''canonical checkout has uncommitted changes; preserve or commit them before starting''),
      (''canonical_wrong_branch'', ''canonical checkout is not on its registered base branch''),
      (''canonical_base_diverged'', ''canonical checkout has diverged from the broker base; reconcile it before starting''),
      (''canonical_missing'', ''registered canonical checkout is unavailable''),
      (''unapproved_transport'', ''repository remote does not use its approved broker transport''),
      (''lock_busy'', ''workspace lifecycle is busy; retry after the current operation finishes''),
      (''duplicate_task'', ''task mapping already exists; resume the existing task''),
      (''parallel_retry'', ''task mapping already exists; resume the existing task''),
      (''lease_owned'', ''task lease is held by another session or keep; release it through the lifecycle owner''),
      (''not_claim_owner'', ''task lease is held by another session or keep; release it through the lifecycle owner''),
      (''ambiguous_resume'', ''saved task mapping does not match its worktree; lifecycle recovery is required''),
      (''mise_untrusted'', ''project Mise configuration requires reviewed trust; the worktree has been preserved''),
      (''broker_unavailable'', ''Git broker is unavailable; check broker access before retrying''),
      (''command_failed'', ''a lifecycle dependency command failed; inspect the lifecycle command directly for details''),
      (''command_unavailable'', ''a lifecycle dependency command could not start or timed out''),
      (''worktree_create_failed'', ''Git could not create the worktree; the task mapping has been preserved'')] code"

fun refusal_scan :: "string list \<Rightarrow> WorkspaceError" where
  "refusal_scan [] = WsRefused"
| "refusal_scan (line # rest) =
    (case Option.bind (strip_prefix ''REFUSE '' line) (\<lambda>l. split_once '': '' l) of
       None \<Rightarrow> refusal_scan rest
     | Some (code, _) \<Rightarrow> (case refusal_reason code of None \<Rightarrow> WsRefused | Some m \<Rightarrow> WsRefusedReason m))"

definition refusal_error :: "string \<Rightarrow> WorkspaceError" where
  "refusal_error stderr = (case from_utf8 stderr of None \<Rightarrow> WsRefused | Some s \<Rightarrow> refusal_scan (str_lines s))"

section \<open>Running the helper and Git\<close>

text \<open>At most 8192 bytes of the diagnostics are kept.\<close>

definition lifecycle_run :: "World \<Rightarrow> string \<Rightarrow> string list \<Rightarrow> WorkspaceError + string" where
  "lifecycle_run w program arguments =
    (case w_run w program arguments of
       RunNotStarted \<Rightarrow> Inl WsSpawn
     | RunTimedOut \<Rightarrow> Inl WsTimeout
     | RunExited success out err \<Rightarrow> if success then Inr out else Inl (refusal_error (take 8192 err)))"

definition git_value :: "World \<Rightarrow> string \<Rightarrow> string list \<Rightarrow> WorkspaceError + string" where
  "git_value w cwd arguments =
    (case w_run w ''git'' ([''-C'', cwd] @ arguments) of
       RunNotStarted \<Rightarrow> Inl WsSpawn
     | RunTimedOut \<Rightarrow> Inl WsTimeout
     | RunExited success out _ \<Rightarrow>
         if \<not> success \<or> length out > 8192 then Inl WsUnsafeRepository
         else (case from_utf8 out of
             None \<Rightarrow> Inl WsUnsafeRepository
           | Some v \<Rightarrow> if trim v = [] then Inl WsUnsafeRepository else Inr (trim v)))"

definition git_path :: "World \<Rightarrow> string \<Rightarrow> string \<Rightarrow> WorkspaceError + string" where
  "git_path w cwd argument =
    (case git_value w cwd [''rev-parse'', argument] of
       Inl e \<Rightarrow> Inl e
     | Inr raw \<Rightarrow>
         (case w_canonical w (if is_absolute raw then raw else path_join cwd raw) of
            None \<Rightarrow> Inl WsUnsafeRepository
          | Some p \<Rightarrow> Inr p))"

section \<open>The claim receipt\<close>

definition parse_claim_receipt :: "string \<Rightarrow> string \<Rightarrow> string \<Rightarrow> WorkspaceError + ClaimReceipt" where
  "parse_claim_receipt out repository task_id =
    (case from_utf8 out of
       None \<Rightarrow> Inl WsUnsafeRepository
     | Some s \<Rightarrow>
         (case str_lines s of
            [] \<Rightarrow> Inl WsMissingTask
          | first_line # _ \<Rightarrow>
              (let prefix = ''claimed: '' @ repository @ ''/'' @ task_id @ '': '';
                   branch = ''agent/'' @ task_id;
                   suffix = '' branch='' @ branch @ '' lease=held'' in
               case filter_opt (\<lambda>p. p \<noteq> []) (Option.bind (strip_prefix prefix first_line) (strip_suffix suffix)) of
                 None \<Rightarrow> Inl WsMissingTask
               | Some path \<Rightarrow> Inr \<lparr>cr_path = path, cr_branch = branch\<rparr>)))"

definition receipt_base_branch :: "World \<Rightarrow> ClaimReceipt \<Rightarrow> string \<Rightarrow> WorkspaceError + string" where
  "receipt_base_branch w receipt canonical =
    (case git_value w canonical [''symbolic-ref'', ''--quiet'', ''--short'', ''HEAD''] of
       Inl e \<Rightarrow> Inl e
     | Inr branch \<Rightarrow>
         if branch \<noteq> cr_branch receipt then Inl WsMissingTask
         else (case git_value w canonical [''config'', ''--get'', ''branch.'' @ cr_branch receipt @ ''.merge''] of
             Inl e \<Rightarrow> Inl e
           | Inr merge \<Rightarrow>
               (case filter_opt (\<lambda>v. is_ok (validate_repository v)) (strip_prefix ''refs/heads/'' merge) of
                  None \<Rightarrow> Inl WsUnsafeRepository
                | Some base \<Rightarrow> Inr base)))"

definition receipt_worktree :: "World \<Rightarrow> string \<Rightarrow> WorkspaceError + unit" where
  "receipt_worktree w canonical =
    (case git_value w canonical [''rev-parse'', ''--show-toplevel''] of
       Inl e \<Rightarrow> Inl e
     | Inr toplevel \<Rightarrow>
         (case w_canonical w toplevel of
            None \<Rightarrow> Inl WsUnsafeRepository
          | Some top_level \<Rightarrow>
              (case git_path w canonical ''--git-dir'' of
                 Inl e \<Rightarrow> Inl e
               | Inr git_directory \<Rightarrow>
                   (case git_path w canonical ''--git-common-dir'' of
                      Inl e \<Rightarrow> Inl e
                    | Inr common_directory \<Rightarrow>
                        if \<not> path_eq top_level canonical \<or> path_eq git_directory common_directory
                        then Inl WsUnsafeRepository else Inr ()))))"

definition validate_claim_receipt ::
  "World \<Rightarrow> ClaimReceipt \<Rightarrow> string \<Rightarrow> string \<Rightarrow> WorkspaceError + string" where
  "validate_claim_receipt w receipt repository task_id =
    (let path = cr_path receipt in
     if \<not> is_absolute path \<or> file_name path \<noteq> Some task_id
        \<or> Option.bind (path_parent path) file_name \<noteq> Some repository
     then Inl WsUnsafeRepository
     else (case w_canonical w path of
         None \<Rightarrow> Inl WsUnsafeRepository
       | Some canonical \<Rightarrow>
           if \<not> path_eq canonical path \<or> \<not> w_is_dir w canonical then Inl WsUnsafeRepository
           else (case w_stat w (path_join canonical ''.git'') of
               StatFile len \<Rightarrow>
                 if len > 8192 then Inl WsUnsafeRepository
                 else (case receipt_worktree w canonical of
                     Inl e \<Rightarrow> Inl e
                   | Inr _ \<Rightarrow> receipt_base_branch w receipt canonical)
             | _ \<Rightarrow> Inl WsUnsafeRepository)))"

section \<open>The audit\<close>

definition of_canonical :: "json \<Rightarrow> AuditCanonical option" where
  "of_canonical v = (case loose_fields [''path'', ''base_branch'', ''branch'', ''clean''] v of
     Some [p, b, br, c] \<Rightarrow>
       (case (req_field as_str p, req_field as_str b, opt_field as_str br, req_field as_bool c) of
          (Some p', Some b', Some br', Some c') \<Rightarrow>
            Some \<lparr>ac_path = p', ac_base_branch = b', ac_branch = br', ac_clean = c'\<rparr>
        | _ \<Rightarrow> None)
   | _ \<Rightarrow> None)"

definition of_worktree :: "json \<Rightarrow> AuditWorktree option" where
  "of_worktree v =
    (case loose_fields [''task_id'', ''branch'', ''path'', ''head'', ''upstream'', ''lease_identity'',
        ''lease_keep'', ''lease_transition'', ''cleanup_candidate'', ''reasons''] v of
     Some [t, b, p, h, u, li, lk, lt, cc, r] \<Rightarrow>
       (case (opt_field as_str t, opt_field as_str b, req_field as_str p, opt_field as_str h,
              opt_field as_str u, def_field [] (of_array as_str) li, opt_field as_str lk,
              opt_field as_str lt, req_field as_bool cc, def_field [] (of_array as_str) r) of
          (Some t', Some b', Some p', Some h', Some u', Some li', Some lk', Some lt', Some cc', Some r') \<Rightarrow>
            Some \<lparr>aw_task_id = t', aw_branch = b', aw_path = p', aw_head = h', aw_upstream = u',
              aw_lease_identity = li', aw_lease_keep = lk', aw_lease_transition = lt',
              aw_cleanup_candidate = cc', aw_reasons = r'\<rparr>
        | _ \<Rightarrow> None)
   | _ \<Rightarrow> None)"

definition of_repository :: "json \<Rightarrow> AuditRepository option" where
  "of_repository v =
    (case loose_fields [''slug'', ''github'', ''canonical'', ''worktree_root'', ''worktrees''] v of
     Some [s, g, c, wr, ws] \<Rightarrow>
       (case (req_field as_str s, req_field as_str g, req_field of_canonical c, req_field as_str wr,
              req_field (of_array of_worktree) ws) of
          (Some s', Some g', Some c', Some wr', Some ws') \<Rightarrow>
            Some \<lparr>ar_slug = s', ar_github = g', ar_canonical = c', ar_worktree_root = wr', ar_worktrees = ws'\<rparr>
        | _ \<Rightarrow> None)
   | _ \<Rightarrow> None)"

definition of_audit :: "json \<Rightarrow> AuditDocument option" where
  "of_audit v =
    (case loose_fields [''schema_version'', ''generated_at'', ''registry'', ''repositories''] v of
     Some [sv, g, r, rs] \<Rightarrow>
       (case (req_field of_u32 sv, req_field as_str g, req_field as_str r,
              req_field (of_array of_repository) rs) of
          (Some sv', Some g', Some r', Some rs') \<Rightarrow>
            Some \<lparr>ad_schema_version = sv', ad_generated_at = g', ad_registry = r', ad_repositories = rs'\<rparr>
        | _ \<Rightarrow> None)
   | _ \<Rightarrow> None)"

definition project_task :: "string \<Rightarrow> AuditWorktree \<Rightarrow> TaskSummary option" where
  "project_task worktree_root t =
    (case (aw_task_id t, aw_branch t) of
       (Some task_id, Some branch) \<Rightarrow>
         if \<not> is_ok (validate_task task_id) \<or> branch \<noteq> ''agent/'' @ task_id \<or> \<not> is_absolute (aw_path t)
            \<or> map_option components (path_parent (aw_path t)) \<noteq> Some (components worktree_root)
            \<or> file_name (aw_path t) \<noteq> Some task_id
         then None
         else Some \<lparr>ts_task_id = task_id, ts_branch = branch, ts_path = aw_path t, ts_head = aw_head t,
             ts_upstream = aw_upstream t, ts_lease_identity = aw_lease_identity t,
             ts_lease_keep = aw_lease_keep t, ts_lease_transition = aw_lease_transition t,
             ts_cleanup_candidate = aw_cleanup_candidate t, ts_reasons = aw_reasons t\<rparr>
     | _ \<Rightarrow> None)"

definition project_repository :: "AuditRepository \<Rightarrow> WorkspaceError + RepositorySummary" where
  "project_repository r =
    (case validate_repository (ar_slug r) of
       Inl e \<Rightarrow> Inl e
     | Inr _ \<Rightarrow>
         if ar_github r = [] \<or> ac_base_branch (ar_canonical r) = []
            \<or> \<not> is_absolute (ac_path (ar_canonical r)) \<or> \<not> is_absolute (ar_worktree_root r)
         then Inl WsUnsafeRepository
         else Inr \<lparr>rs_slug = ar_slug r, rs_github = ar_github r,
             rs_canonical_path = ac_path (ar_canonical r),
             rs_base_branch = ac_base_branch (ar_canonical r),
             rs_canonical_branch = ac_branch (ar_canonical r),
             rs_canonical_clean = ac_clean (ar_canonical r),
             rs_worktree_root = ar_worktree_root r,
             rs_tasks = sort_key ts_task_id (filter_map (project_task (ar_worktree_root r)) (ar_worktrees r))\<rparr>)"

fun project_repositories :: "AuditRepository list \<Rightarrow> WorkspaceError + RepositorySummary list" where
  "project_repositories [] = Inr []"
| "project_repositories (r # rs) =
    (case project_repository r of
       Inl e \<Rightarrow> Inl e
     | Inr x \<Rightarrow> (case project_repositories rs of Inl e \<Rightarrow> Inl e | Inr xs \<Rightarrow> Inr (x # xs)))"

definition project_inventory :: "AuditDocument \<Rightarrow> WorkspaceError + WorkspaceInventory" where
  "project_inventory d =
    (if ad_schema_version d \<noteq> AUDIT_SCHEMA_VERSION then Inl WsUnsupportedSchema
     else if ad_registry d = [] \<or> \<not> is_absolute (ad_registry d) then Inl WsUnsafeRepository
     else (case project_repositories (ad_repositories d) of
         Inl e \<Rightarrow> Inl e
       | Inr rs \<Rightarrow> Inr \<lparr>wi_schema_version = ad_schema_version d, wi_generated_at = ad_generated_at d,
           wi_registry = ad_registry d, wi_repositories = sort_key rs_slug rs\<rparr>))"

section \<open>Operations\<close>

definition ws_audit ::
  "World \<Rightarrow> (string \<Rightarrow> json option) \<Rightarrow> string \<Rightarrow> string option
    \<Rightarrow> (WorkspaceError + WorkspaceInventory) \<times> string list list" where
  "ws_audit w decode program repository =
    (if some_and (\<lambda>r. \<not> is_ok (validate_repository r)) repository then (Inl WsInvalidIdentifier, [])
     else
       (let arguments = (case repository of Some r \<Rightarrow> [''audit'', r, ''--json''] | None \<Rightarrow> [''audit'', ''--json'']) in
        (case lifecycle_run w program arguments of
           Inl e \<Rightarrow> Inl e
         | Inr out \<Rightarrow>
             if length out > MAX_AUDIT_BYTES then Inl WsTooLarge
             else (case Option.bind (decode out) of_audit of
                 None \<Rightarrow> Inl WsInvalidJson
               | Some d \<Rightarrow> project_inventory d),
         [arguments])))"

definition inventory ::
  "World \<Rightarrow> (string \<Rightarrow> json option) \<Rightarrow> string \<Rightarrow> (WorkspaceError + WorkspaceInventory) \<times> string list list" where
  "inventory w decode program = ws_audit w decode program None"

definition handoff_arguments :: "World \<Rightarrow> string \<Rightarrow> string \<Rightarrow> string list" where
  "handoff_arguments w repository task_id =
    [''handoff'', repository, task_id, ''--owner-pid'', show_nat (w_pid w)]"

definition handoff ::
  "World \<Rightarrow> string \<Rightarrow> string \<Rightarrow> string \<Rightarrow> (WorkspaceError + unit) \<times> string list list" where
  "handoff w program repository task_id =
    (case validate_repository repository of
       Inl e \<Rightarrow> (Inl e, [])
     | Inr _ \<Rightarrow>
         (case validate_task task_id of
            Inl e \<Rightarrow> (Inl e, [])
          | Inr _ \<Rightarrow>
              (case lifecycle_run w program (handoff_arguments w repository task_id) of
                 Inl e \<Rightarrow> (Inl e, [handoff_arguments w repository task_id])
               | Inr _ \<Rightarrow> (Inr (), [handoff_arguments w repository task_id]))))"

text \<open>The compatibility path: the claimed task is looked up in the helper's audit.\<close>

definition claim_from_audit ::
  "WorkspaceError + WorkspaceInventory \<Rightarrow> string \<Rightarrow> string \<Rightarrow> WorkspaceError + (string \<times> ManagedWorkspace)" where
  "claim_from_audit audited repository task_id =
    (case audited of
       Inl e \<Rightarrow> Inl e
     | Inr found \<Rightarrow>
         (case find (\<lambda>r. rs_slug r = repository) (wi_repositories found) of
            None \<Rightarrow> Inl WsUnsafeRepository
          | Some summary \<Rightarrow>
              (case find (\<lambda>t. ts_task_id t = task_id) (rs_tasks summary) of
                 None \<Rightarrow> Inl WsMissingTask
               | Some task \<Rightarrow>
                   if ts_branch task \<noteq> ''agent/'' @ task_id \<or> \<not> is_absolute (ts_path task)
                   then Inl WsMissingTask
                   else Inr (ts_path task,
                     \<lparr>mw_repository = rs_slug summary, mw_task_id = task_id, mw_branch = ts_branch task,
                      mw_base_branch = rs_base_branch summary\<rparr>))))"

definition claim_arguments :: "World \<Rightarrow> string \<Rightarrow> string \<Rightarrow> bool \<Rightarrow> string list" where
  "claim_arguments w repository task_id resume =
    [''claim'', repository, task_id, ''--owner-pid'', show_nat (w_pid w)]
      @ (if resume then [''--resume''] else [])"

definition claim_from_receipt ::
  "World \<Rightarrow> string \<Rightarrow> string \<Rightarrow> string \<Rightarrow> (string \<times> ManagedWorkspace) option" where
  "claim_from_receipt w out repository task_id =
    (case parse_claim_receipt out repository task_id of
       Inl _ \<Rightarrow> None
     | Inr receipt \<Rightarrow>
         (case validate_claim_receipt w receipt repository task_id of
            Inl _ \<Rightarrow> None
          | Inr base \<Rightarrow> Some (cr_path receipt,
              \<lparr>mw_repository = repository, mw_task_id = task_id, mw_branch = cr_branch receipt,
               mw_base_branch = base\<rparr>)))"

definition claim ::
  "World \<Rightarrow> (string \<Rightarrow> json option) \<Rightarrow> string \<Rightarrow> string \<Rightarrow> string \<Rightarrow> bool
    \<Rightarrow> (WorkspaceError + (string \<times> ManagedWorkspace)) \<times> string list list" where
  "claim w decode program repository task_id resume =
    (case validate_repository repository of
       Inl e \<Rightarrow> (Inl e, [])
     | Inr _ \<Rightarrow>
         (case validate_task task_id of
            Inl e \<Rightarrow> (Inl e, [])
          | Inr _ \<Rightarrow>
              (let arguments = claim_arguments w repository task_id resume in
               case lifecycle_run w program arguments of
                 Inl e \<Rightarrow> (Inl e, [arguments])
               | Inr out \<Rightarrow>
                   (case claim_from_receipt w out repository task_id of
                      Some claimed \<Rightarrow> (Inr claimed, [arguments])
                    | None \<Rightarrow>
                        (case ws_audit w decode program (Some repository) of
                           (audited, calls) \<Rightarrow>
                             (case claim_from_audit audited repository task_id of
                                Inr claimed \<Rightarrow> (Inr claimed, arguments # calls)
                              | Inl e \<Rightarrow> (Inl e, arguments # calls @ snd (handoff w program repository task_id))))))))"

section \<open>The inventory on the wire\<close>

definition json_of_task :: "TaskSummary \<Rightarrow> json" where
  "json_of_task t = jobj [
     (''task_id'', JString (ts_task_id t)), (''branch'', JString (ts_branch t)), (''path'', JString (ts_path t)),
     (''head'', jopt JString (ts_head t)), (''upstream'', jopt JString (ts_upstream t)),
     (''lease_identity'', JArray (map JString (ts_lease_identity t))),
     (''lease_keep'', jopt JString (ts_lease_keep t)),
     (''lease_transition'', jopt JString (ts_lease_transition t)),
     (''cleanup_candidate'', JBool (ts_cleanup_candidate t)),
     (''reasons'', JArray (map JString (ts_reasons t)))]"

definition json_of_repository :: "RepositorySummary \<Rightarrow> json" where
  "json_of_repository r = jobj [
     (''slug'', JString (rs_slug r)), (''github'', JString (rs_github r)),
     (''canonical_path'', JString (rs_canonical_path r)), (''base_branch'', JString (rs_base_branch r)),
     (''canonical_branch'', jopt JString (rs_canonical_branch r)),
     (''canonical_clean'', JBool (rs_canonical_clean r)), (''worktree_root'', JString (rs_worktree_root r)),
     (''tasks'', JArray (map json_of_task (rs_tasks r)))]"

definition json_of_inventory :: "WorkspaceInventory \<Rightarrow> json" where
  "json_of_inventory i = jobj [
     (''schema_version'', JNum (PosInt (ucast (wi_schema_version i)))),
     (''generated_at'', JString (wi_generated_at i)), (''registry'', JString (wi_registry i)),
     (''repositories'', JArray (map json_of_repository (wi_repositories i)))]"

section \<open>Identifiers are harmless arguments\<close>

definition is_separator :: "bool \<Rightarrow> char \<Rightarrow> bool" where
  "is_separator allow_dot c = (c = CHR ''-'' \<or> (allow_dot \<and> c = CHR ''.''))"

text \<open>
  The grammar of an identifier: words of lower-case letters and digits with a single separator
  between any two.
\<close>

definition is_word :: "string \<Rightarrow> bool" where
  "is_word s = (s \<noteq> [] \<and> (\<forall>c\<in>set s. is_ascii_lower c \<or> is_ascii_digit c))"

inductive ident :: "bool \<Rightarrow> string \<Rightarrow> bool" for allow_dot where
  word: "is_word u \<Longrightarrow> ident allow_dot u"
| joined: "is_word u \<Longrightarrow> is_separator allow_dot c \<Longrightarrow> ident allow_dot v \<Longrightarrow>
    ident allow_dot (u @ c # v)"

inductive_cases identE: "ident allow_dot s"

lemma separator_not_word: "is_separator d c \<Longrightarrow> \<not> is_ascii_lower c \<and> \<not> is_ascii_digit c"
  by (auto simp: is_separator_def is_ascii_lower_def is_ascii_digit_def)

lemma identifier_loop_word:
  "(\<forall>c\<in>set u. is_ascii_lower c \<or> is_ascii_digit c) \<Longrightarrow> u \<noteq> [] \<Longrightarrow>
   identifier_loop d p (u @ v) = identifier_loop d False v"
proof (induction u arbitrary: p)
  case (Cons c u)
  then show ?case by (cases u) auto
qed simp

lemma identifier_accepted: "ident d s \<Longrightarrow> identifier_loop d p s"
proof (induction arbitrary: p rule: ident.induct)
  case (word u)
  then show ?case
    using identifier_loop_word [of u d p "[]"] by (auto simp: is_word_def)
next
  case (joined u c v)
  then show ?case
    using separator_not_word [OF joined(2)]
    by (auto simp: is_word_def identifier_loop_word is_separator_def)
qed

lemma identifier_loop_sound:
  "(identifier_loop d True s \<longrightarrow> ident d s) \<and>
   (identifier_loop d False s \<longrightarrow> (\<forall>u. is_word u \<longrightarrow> ident d (u @ s)))"
proof (induction s)
  case Nil
  then show ?case by (auto intro: ident.word)
next
  case (Cons c cs)
  show ?case
  proof (cases "is_ascii_lower c \<or> is_ascii_digit c")
    case True
    then have w: "is_word [c]" "is_word u \<Longrightarrow> is_word (u @ [c])" for u
      by (auto simp: is_word_def)
    from True have "identifier_loop d p (c # cs) = identifier_loop d False cs" for p by auto
    with Cons.IH w show ?thesis
      by (metis append.assoc append_Cons append_Nil)
  next
    case False
    with Cons.IH show ?thesis
      by (auto simp: is_separator_def intro: ident.joined)
  qed
qed

lemma valid_identifier_iff: "valid_identifier v d \<longleftrightarrow> length v \<le> 128 \<and> ident d v"
proof -
  have "ident d v \<Longrightarrow> v \<noteq> []"
    by (auto elim!: identE simp: is_word_def)
  then show ?thesis
    using identifier_accepted [of d v True] identifier_loop_sound [of d v]
    by (auto simp: valid_identifier_def)
qed

definition plain_argument :: "string \<Rightarrow> bool" where
  "plain_argument s =
    (s \<noteq> [] \<and> (is_ascii_lower (hd s) \<or> is_ascii_digit (hd s))
     \<and> (\<forall>c\<in>set s. is_ascii_lower c \<or> is_ascii_digit c \<or> c = CHR ''-'' \<or> c = CHR ''.'')
     \<and> \<not> contains_str ''..'' s)"

lemma no_dots_word: "is_word u \<Longrightarrow> find_str ''..'' u = None"
proof (induction u)
  case (Cons c u)
  show ?case
  proof (cases u)
    case Nil
    then show ?thesis by (simp add: starts_with_def)
  next
    case (Cons d v)
    with Cons.IH Cons.prems show ?thesis
      by (auto simp: is_word_def is_ascii_lower_def is_ascii_digit_def starts_with_def split: if_splits)
  qed
qed simp

lemma ident_hd: "ident d s \<Longrightarrow> s \<noteq> [] \<and> (is_ascii_lower (hd s) \<or> is_ascii_digit (hd s))"
  by (induction rule: ident.induct) (auto simp: is_word_def)

lemma no_dots_joined:
  assumes "is_word u" "find_str ''..'' v = None" "v \<noteq> []" "is_ascii_lower (hd v) \<or> is_ascii_digit (hd v)"
  shows "find_str ''..'' (u @ c # v) = None"
  using assms
proof (induction u)
  case (Cons a u)
  have v: "hd v \<noteq> CHR ''.''"
    using Cons.prems(4) by (auto simp: is_ascii_lower_def is_ascii_digit_def)
  have a: "a \<noteq> CHR ''.''"
    using Cons.prems(1) by (auto simp: is_word_def is_ascii_lower_def is_ascii_digit_def)
  have rest: "find_str ''..'' (u @ c # v) = None"
  proof (cases u)
    case Nil
    from v Cons.prems(2,3) Nil show ?thesis by (cases v) (auto simp: starts_with_def split: if_splits)
  next
    case (Cons b w)
    then have "is_word u" using Cons.prems(1) by (auto simp: is_word_def)
    then show ?thesis using Cons.IH Cons.prems by simp
  qed
  with a show ?case by (cases "u @ c # v") (auto simp: starts_with_def)
qed (simp add: is_word_def)

lemma ident_plain: "ident d s \<Longrightarrow> plain_argument s"
proof (induction rule: ident.induct)
  case (word u)
  then show ?case
    by (auto simp: plain_argument_def contains_str_def no_dots_word is_word_def)
next
  case (joined u c v)
  then show ?case
    using ident_hd [OF joined(3)]
    by (auto simp: plain_argument_def contains_str_def no_dots_joined is_separator_def is_word_def)
qed

lemma validated_plain:
  "validate_repository r = Inr x \<Longrightarrow> plain_argument r" "validate_task t = Inr x \<Longrightarrow> plain_argument t"
  by (auto simp: validate_repository_def validate_task_def valid_identifier_iff intro: ident_plain split: if_splits)

section \<open>A claim that fails is given back\<close>

lemma handoff_validated:
  "validate_repository r = Inr x \<Longrightarrow> validate_task t = Inr y \<Longrightarrow>
   snd (handoff w program r t) = [handoff_arguments w r t]"
  by (simp add: handoff_def split: sum.splits)

lemma receipt_claim_named:
  assumes "claim_from_receipt w out repository task_id = Some (path, m)"
  shows "mw_repository m = repository \<and> mw_task_id m = task_id \<and> mw_branch m = ''agent/'' @ task_id \<and> is_absolute path"
proof -
  obtain receipt base where r: "parse_claim_receipt out repository task_id = Inr receipt"
    "validate_claim_receipt w receipt repository task_id = Inr base"
    "path = cr_path receipt"
    "m = \<lparr>mw_repository = repository, mw_task_id = task_id, mw_branch = cr_branch receipt, mw_base_branch = base\<rparr>"
    using assms by (auto simp: claim_from_receipt_def split: sum.splits)
  have "cr_branch receipt = ''agent/'' @ task_id"
    using r(1) by (auto simp: parse_claim_receipt_def Let_def split: option.splits list.splits)
  moreover have "is_absolute (cr_path receipt)"
    using r(2) by (auto simp: validate_claim_receipt_def Let_def split: if_splits)
  ultimately show ?thesis using r by simp
qed

lemma audit_claim_named:
  assumes "claim_from_audit audited repository task_id = Inr (path, m)"
  shows "mw_repository m = repository \<and> mw_task_id m = task_id \<and> mw_branch m = ''agent/'' @ task_id \<and> is_absolute path"
  using assms
  by (auto simp: claim_from_audit_def find_Some_iff split: sum.splits option.splits if_splits)

lemma audit_calls: "snd (ws_audit w decode program r) \<noteq> []
    \<Longrightarrow> snd (ws_audit w decode program r) = [case r of Some r \<Rightarrow> [''audit'', r, ''--json''] | None \<Rightarrow> [''audit'', ''--json'']]"
  by (auto simp: ws_audit_def Let_def)



section \<open>The inventory\<close>

lemma project_repositories_all:
  "project_repositories rs = Inr xs \<Longrightarrow> list_all2 (\<lambda>r x. project_repository r = Inr x) rs xs"
  by (induction rs arbitrary: xs) (auto split: sum.splits)

lemma project_task_ok:
  "project_task root t = Some s \<Longrightarrow>
   plain_argument (ts_task_id s) \<and> ts_branch s = ''agent/'' @ ts_task_id s \<and> is_absolute (ts_path s)
     \<and> file_name (ts_path s) = Some (ts_task_id s)
     \<and> map_option components (path_parent (ts_path s)) = Some (components root)"
  using validated_plain(2)
  by (fastforce simp: project_task_def is_ok_def split: option.splits if_splits sum.splits)

definition lists_repository :: "AuditRepository \<Rightarrow> RepositorySummary \<Rightarrow> bool" where
  "lists_repository r x =
    (rs_slug x = ar_slug r \<and> plain_argument (rs_slug x) \<and> is_absolute (rs_worktree_root x)
     \<and> rs_worktree_root x = ar_worktree_root r \<and> sorted (map ts_task_id (rs_tasks x))
     \<and> mset (rs_tasks x) = mset (filter_map (project_task (ar_worktree_root r)) (ar_worktrees r))
     \<and> (\<forall>t\<in>set (rs_tasks x). plain_argument (ts_task_id t) \<and> ts_branch t = ''agent/'' @ ts_task_id t
          \<and> file_name (ts_path t) = Some (ts_task_id t)
          \<and> map_option components (path_parent (ts_path t)) = Some (components (rs_worktree_root x))))"

lemma project_repository_lists:
  assumes "project_repository r = Inr x"
  shows "lists_repository r x"
proof -
  have "\<forall>t\<in>set (filter_map (project_task (ar_worktree_root r)) (ar_worktrees r)).
      plain_argument (ts_task_id t) \<and> ts_branch t = ''agent/'' @ ts_task_id t
        \<and> file_name (ts_path t) = Some (ts_task_id t)
        \<and> map_option components (path_parent (ts_path t)) = Some (components (ar_worktree_root r))"
    unfolding set_filter_map using project_task_ok by fast
  then show ?thesis
    using assms
    by (auto simp: project_repository_def lists_repository_def
        dest: validated_plain(1) split: sum.splits if_splits)
qed


definition sample_worktree :: "string \<Rightarrow> string \<Rightarrow> AuditWorktree" where
  "sample_worktree task path =
    \<lparr>aw_task_id = Some task, aw_branch = Some (''agent/'' @ task), aw_path = path, aw_head = None,
     aw_upstream = None, aw_lease_identity = [], aw_lease_keep = None, aw_lease_transition = None,
     aw_cleanup_candidate = False, aw_reasons = []\<rparr>"

definition sample_audit :: AuditDocument where
  "sample_audit = \<lparr>ad_schema_version = 1, ad_generated_at = [], ad_registry = ''/r'',
     ad_repositories = [\<lparr>ar_slug = ''repo'', ar_github = ''g'',
       ar_canonical = \<lparr>ac_path = ''/c'', ac_base_branch = ''main'', ac_branch = None, ac_clean = True\<rparr>,
       ar_worktree_root = ''/w'',
       ar_worktrees = [sample_worktree ''b'' ''/w/b'', sample_worktree ''a'' ''/elsewhere/a'']\<rparr>]\<rparr>"


end
