(* ===== verification/Discovery.thy ===== *)
theory Discovery
  imports Workspace CodexAdapter WorkerAdapter Projection
begin

text \<open>
  What the broker asks a provider outside any agent (\<open>runtime.rs\<close>, before the provider tasks): the
  saved sessions, the models, and the deletion of a saved session; and the scan of the Codex lock
  files (\<open>codex.rs\<close>) that tells which threads are in use.

  Each operation starts a provider process of its own.  The result comes with the pipes of that
  process as it was left, so that lemmas can speak about what was written to it; \<open>None\<close> when no
  process was started.
\<close>

record CommandSpec =
  cs_program :: string
  cs_args :: "string list"

record RuntimeConfig =
  rc_codex :: CommandSpec
  rc_codex_thread_locks :: "string option"
  rc_claude :: CommandSpec
  rc_claude_setting_sources :: "string list"
  rc_callback_timeout :: nat

definition lock_thread_id :: "World \<Rightarrow> string \<Rightarrow> string option" where
  "lock_thread_id w name = filter_opt (w_is_uuid w) (strip_suffix ''.lock'' name)"

definition active_thread_ids :: "World \<Rightarrow> string option \<Rightarrow> string list \<times> bool" where
  "active_thread_ids w directory =
    (case directory of
       None \<Rightarrow> ([], False)
     | Some _ \<Rightarrow>
         (case w_lock_files w of
            None \<Rightarrow> ([], False)
          | Some entries \<Rightarrow>
              (filter_map (\<lambda>(name, usable, locked).
                 case lock_thread_id w name of
                   None \<Rightarrow> None
                 | Some t \<Rightarrow> if usable \<and> locked then Some t else None) entries, True)))"

text \<open>A Codex process that was started, initialised and recognised.\<close>

definition open_codex :: "World \<Rightarrow> codec \<Rightarrow> RuntimeConfig \<Rightarrow> Peer option \<Rightarrow> (string + Peer) \<times> Peer option" where
  "open_codex w cd config started =
    (case started of
       None \<Rightarrow> (Inl ''Codex App Server could not be started'', None)
     | Some p \<Rightarrow>
         (case codex_initialize cd p of
            (Inl _, p1) \<Rightarrow> (Inl ''Codex App Server initialization failed'', Some p1)
          | (Inr result, p1) \<Rightarrow>
              (case codex_runtime_identity (w_which w) (cs_program (rc_codex config)) result of
                 Inl _ \<Rightarrow> (Inl ''Codex App Server initialization failed'', Some p1)
               | Inr _ \<Rightarrow> (Inr p1, Some p1))))"

definition open_claude :: "World \<Rightarrow> codec \<Rightarrow> (string + Peer) \<times> Peer option" where
  "open_claude w cd =
    (case w_claude w of
       None \<Rightarrow> (Inl ''Claude worker could not be started'', None)
     | Some p \<Rightarrow>
         (case worker_initialize cd (w_uuid w) p of
            (Inl _, p1) \<Rightarrow> (Inl ''Claude worker initialization failed'', Some p1)
          | (Inr _, p1) \<Rightarrow> (Inr p1, Some p1)))"

definition discover_sessions ::
  "World \<Rightarrow> codec \<Rightarrow> Provider \<Rightarrow> string option \<Rightarrow> string option \<Rightarrow> u32 \<Rightarrow> bool \<Rightarrow> RuntimeConfig
    \<Rightarrow> (string + json) \<times> Peer option" where
  "discover_sessions w cd provider cwd cursor lim active_only config =
    (let fallback_cwd = or_else cwd (filter_opt is_absolute (w_home w)) in
     case provider of
       Codex \<Rightarrow>
         (case open_codex w cd config (w_codex w) of
            (Inl e, q) \<Rightarrow> (Inl e, q)
          | (Inr p, _) \<Rightarrow>
              (case (case cwd of
                       Some d \<Rightarrow> list_threads_for_directory cd d cursor lim p
                     | None \<Rightarrow> list_threads cd cursor lim p) of
                 (Inl _, p1) \<Rightarrow> (Inl ''Codex session discovery failed'', Some p1)
               | (Inr outcome, p1) \<Rightarrow>
                   (case active_thread_ids w (rc_codex_thread_locks config) of
                      (active, available) \<Rightarrow>
                        (Inr (provider_sessions provider (ro_result outcome) active available active_only fallback_cwd),
                         Some p1))))
     | Claude \<Rightarrow>
         (case open_claude w cd of
            (Inl e, q) \<Rightarrow> (Inl e, q)
          | (Inr p, _) \<Rightarrow>
              (case worker_request cd ''session/list''
                  (jobj [(''directory'', jopt JString cwd), (''limit'', JNum (PosInt (ucast lim))),
                         (''offset'', ju64 (unwrap_or 0 (Option.bind cursor parse_u64))),
                         (''active_only'', JBool active_only)]) p of
                 (Inl _, p1) \<Rightarrow> (Inl ''Claude session discovery failed'', Some p1)
               | (Inr outcome, p1) \<Rightarrow>
                   (let available = unwrap_or False (as_bool (jindex (wo_result outcome) ''activity_available'')) in
                    (Inr (provider_sessions provider (wo_result outcome) [] available active_only fallback_cwd),
                     Some p1)))))"

text \<open>At most ten pages of a hundred models; a failing page fails the discovery.\<close>

fun model_pages :: "codec \<Rightarrow> nat \<Rightarrow> string option \<Rightarrow> json list \<Rightarrow> Peer \<Rightarrow> (string + json list) \<times> Peer" where
  "model_pages cd 0 cursor data p = (Inr data, p)"
| "model_pages cd (Suc n) cursor data p =
    (case list_models cd cursor 100 p of
       (Inl _, p1) \<Rightarrow> (Inl ''Codex model discovery failed'', p1)
     | (Inr outcome, p1) \<Rightarrow>
         (let data' = data @ unwrap_or [] (Option.bind (jget ''data'' (ro_result outcome)) as_array);
              cursor' = get_str ''nextCursor'' (ro_result outcome) in
          if cursor' = None \<or> length data' \<ge> 1000 then (Inr data', p1)
          else model_pages cd n cursor' data' p1))"

definition claude_model :: "string \<Rightarrow> string \<Rightarrow> string \<Rightarrow> json" where
  "claude_model model name description =
    jobj [(''model'', JString model), (''displayName'', JString name), (''description'', JString description)]"

definition discover_models ::
  "World \<Rightarrow> codec \<Rightarrow> Provider \<Rightarrow> RuntimeConfig \<Rightarrow> (string + json) \<times> Peer option" where
  "discover_models w cd provider config =
    (case provider of
       Codex \<Rightarrow>
         (case open_codex w cd config (w_codex w) of
            (Inl e, q) \<Rightarrow> (Inl e, q)
          | (Inr p, _) \<Rightarrow>
              (case model_pages cd 10 None [] p of
                 (Inl e, p1) \<Rightarrow> (Inl e, Some p1)
               | (Inr data, p1) \<Rightarrow>
                   (Inr (provider_models provider (jobj [(''data'', JArray data)])), Some p1)))
     | Claude \<Rightarrow>
         (Inr (provider_models provider (jobj [(''data'', JArray [
             claude_model ''fable'' ''Fable'' ''Latest Claude Fable model alias'',
             claude_model ''opus'' ''Opus'' ''Latest Claude Opus model alias'',
             claude_model ''sonnet'' ''Sonnet'' ''Latest Claude Sonnet model alias'',
             claude_model ''haiku'' ''Haiku'' ''Latest Claude Haiku model alias''])])), None))"

definition names_session :: "string \<Rightarrow> json \<Rightarrow> bool" where
  "names_session session_id result =
    some_and (list_ex (\<lambda>session. as_str (jindex session ''id'') = Some session_id))
      (as_array (jindex result ''data''))"

definition delete_provider_session ::
  "World \<Rightarrow> codec \<Rightarrow> Provider \<Rightarrow> string \<Rightarrow> string \<Rightarrow> RuntimeConfig \<Rightarrow> (string + unit) \<times> Peer option" where
  "delete_provider_session w cd provider session_id cwd config =
    (case provider of
       Codex \<Rightarrow>
         (case active_thread_ids w (rc_codex_thread_locks config) of
            (active, available) \<Rightarrow>
              if \<not> available then (Inl ''Codex session activity could not be verified'', None)
              else if session_id \<in> set active then (Inl ''An active Codex session cannot be deleted'', None)
              else
                (case open_codex w cd config (w_codex w) of
                   (Inl e, q) \<Rightarrow> (Inl e, q)
                 | (Inr p, _) \<Rightarrow>
                     (case list_threads_for_directory cd cwd None 1000 p of
                        (listed, p1) \<Rightarrow>
                          (let found = (case listed of Inl _ \<Rightarrow> False
                               | Inr outcome \<Rightarrow> names_session session_id (ro_result outcome)) in
                           if \<not> found
                           then (Inl ''Codex session was not found in the requested directory'', Some p1)
                           else (case delete_thread cd session_id p1 of
                               (Inl _, p2) \<Rightarrow> (Inl ''Codex session deletion failed'', Some p2)
                             | (Inr _, p2) \<Rightarrow> (Inr (), Some p2))))))
     | Claude \<Rightarrow>
         (case open_claude w cd of
            (Inl e, q) \<Rightarrow> (Inl e, q)
          | (Inr p, _) \<Rightarrow>
              (case worker_request cd ''session/delete''
                  (jobj [(''session_id'', JString session_id), (''directory'', JString cwd)]) p of
                 (Inl _, p1) \<Rightarrow> (Inl ''Claude session deletion failed or the session is active'', Some p1)
               | (Inr _, p1) \<Rightarrow> (Inr (), Some p1))))"

section \<open>A deletion is checked first\<close>

definition not_delete :: "json \<Rightarrow> bool" where
  "not_delete f = (jget ''method'' f \<noteq> Some (JString ''thread/delete''))"

lemma denial_not_delete: "not_delete (denial_frame method i)"
  by (simp add: not_delete_def denial_frame_def jget_jobj split: sum.splits)

lemma request_not_delete: "method \<noteq> ''thread/delete'' \<Longrightarrow> not_delete (codex_request_frame i method params)"
  by (simp add: not_delete_def codex_request_frame_def jget_jobj)

lemma request_deletes_nothing:
  "method \<noteq> ''thread/delete'' \<Longrightarrow> codex_request cd method params p = (r, p') \<Longrightarrow> writes_only not_delete p p'"
  by (rule codex_request_only [where P = not_delete, OF denial_not_delete request_not_delete])

lemma initialize_deletes_nothing:
  "codex_initialize cd p = (r, p') \<Longrightarrow> writes_only not_delete p p'"
proof -
  assume init: "codex_initialize cd p = (r, p')"
  have ready: "not_delete (jobj [(''method'', JString ''initialized''), (''params'', v)])" for v
    by (simp add: not_delete_def jget_jobj)
  have req: "writes_only not_delete p q" if "codex_request cd ''initialize'' params p = (x, q)" for params x q
    by (rule request_deletes_nothing [OF _ that]) simp
  show ?thesis
    using init by (auto simp: codex_initialize_def codex_notify_def split: sum.splits prod.splits
        dest!: req codex_write_only [where P = not_delete, OF _ ready]
        intro: writes_only_trans)
qed

lemma open_deletes_nothing:
  "open_codex w cd config (Some p) = (r, Some q) \<Longrightarrow> writes_only not_delete p q"
  "open_codex w cd config (Some p) = (Inr q', q'') \<Longrightarrow> writes_only not_delete p q'"
  by (auto simp: open_codex_def dest: initialize_deletes_nothing split: sum.splits prod.splits)

lemma delete_writes:
  assumes "delete_thread cd session_id p = (r, p')"
  shows "writes_only (\<lambda>f. not_delete f \<or> (\<exists>i. f = codex_request_frame i ''thread/delete''
      (jobj [(''threadId'', JString session_id)]))) p p'"
  by (rule codex_request_only [OF _ _ assms [unfolded delete_thread_def]])
    (auto simp: denial_not_delete)

lemma writes_only_mono: "writes_only P p q \<Longrightarrow> (\<And>f. P f \<Longrightarrow> Q f) \<Longrightarrow> writes_only Q p q"
  by (auto simp: writes_only_def)


definition listing_decode :: "string \<Rightarrow> json option" where
  "listing_decode f = (if f = ''i'' then Some (jobj [(''id'', jnat 1), (''result'', jobj [(''userAgent'',
       JString (''codex'' @ ''/'' @ dotted (0, 152, 0) @ '' '' @ ''x''))])])
     else if f = ''l'' then Some (jobj [(''id'', jnat 2), (''result'',
       jobj [(''data'', JArray [jobj [(''id'', JString ''S'')]])])])
     else if f = ''d'' then Some (jobj [(''id'', jnat 3), (''result'', jobj [])]) else None)"

definition listing_world :: World where
  "listing_world = quiet_world\<lparr>w_codex := Some (demo_peer [frame_line CHR ''i'', frame_line CHR ''l'', frame_line CHR ''d''] 1 []),
     w_lock_files := Some []\<rparr>"

definition plain_config :: RuntimeConfig where
  "plain_config = \<lparr>rc_codex = \<lparr>cs_program = ''codex'', cs_args = []\<rparr>, rc_codex_thread_locks = Some ''/locks'',
     rc_claude = \<lparr>cs_program = ''claude'', cs_args = []\<rparr>, rc_claude_setting_sources = [], rc_callback_timeout = 300\<rparr>"

lemma listing_values:
  "is_response_to 1 (jobj [(''id'', jnat 1), (''result'', v)])" "is_response_to 2 (jobj [(''id'', jnat 2), (''result'', v)])"
  "is_response_to 3 (jobj [(''id'', jnat 3), (''result'', v)])" "response_value (jobj [(''id'', i), (''result'', v)]) = Inr v"
  by (simp_all add: is_response_to_def response_value_def jget_jobj jnat_def)


end
