(* ===== verification/Registry.thy ===== *)
theory Registry
  imports Host
begin

text \<open>
  The metadata registry of the durable broker, \<open>registry.rs\<close>: the document it stores, what it accepts
  when it is read back, and the replacement of the file.

  The text form of the document (\<open>serde_json\<close>, pretty-printed) is a pair of parameters; the file
  system answers through the world.  A store is its path; \<open>rs_persist\<close> also returns the new content of
  the file, which its caller keeps.
\<close>

definition REGISTRY_SCHEMA_VERSION :: u32 where "REGISTRY_SCHEMA_VERSION = 1"
definition MAX_REGISTRY_BYTES :: nat where "MAX_REGISTRY_BYTES = 8 * 1024 * 1024"
definition MAX_REGISTRY_AGENTS :: nat where "MAX_REGISTRY_AGENTS = 10000"

datatype RegistryError = RegIo | RegJson | RegUnsafe string

record RegistryStore =
  rg_path :: string

record RegistryAgent =
  ra_id :: string
  ra_provider :: Provider
  ra_provider_session_id :: "string option"
  ra_cwd :: string
  ra_workspace_strategy :: WorkspaceStrategy
  ra_worktree_path :: "string option"
  ra_managed_workspace :: "ManagedWorkspace option"
  ra_runtime :: "ProviderRuntime option"
  ra_provider_options :: ProviderOptions
  ra_title :: string
  ra_state :: AgentState
  ra_created_at :: string
  ra_updated_at :: string
  ra_legacy :: "string option"

record RegistryDocument =
  rd_schema_version :: u32
  rd_updated_at :: string
  rd_agents :: "RegistryAgent list"

section \<open>The document on disk\<close>

definition json_of_registry_agent :: "RegistryAgent \<Rightarrow> json" where
  "json_of_registry_agent a = jobj ([
     (''id'', JString (ra_id a)), (''provider'', json_of_provider (ra_provider a)),
     (''provider_session_id'', jopt JString (ra_provider_session_id a)), (''cwd'', JString (ra_cwd a)),
     (''workspace_strategy'', json_of_strategy (ra_workspace_strategy a)),
     (''worktree_path'', jopt JString (ra_worktree_path a)),
     (''managed_workspace'', jopt json_of_managed (ra_managed_workspace a)),
     (''runtime'', jopt json_of_runtime (ra_runtime a)),
     (''provider_options'', json_of_options (ra_provider_options a)),
     (''title'', JString (ra_title a)), (''state'', JString (state_name (ra_state a))),
     (''created_at'', JString (ra_created_at a)), (''updated_at'', JString (ra_updated_at a))]
     @ (case ra_legacy a of None \<Rightarrow> [] | Some v \<Rightarrow> [(''provider_runtime_version'', JString v)]))"

definition json_of_registry :: "RegistryDocument \<Rightarrow> json" where
  "json_of_registry d = jobj [
     (''schema_version'', JNum (PosInt (ucast (rd_schema_version d)))),
     (''updated_at'', JString (rd_updated_at d)),
     (''agents'', JArray (map json_of_registry_agent (rd_agents d)))]"

definition of_state :: "json \<Rightarrow> AgentState option" where
  "of_state = of_enum (map_of (map (\<lambda>s. (state_name s, s))
     [Starting, Idle, Running, WaitingInput, WaitingApproval, Completed, Interrupted, Failed, Disconnected]))"

definition of_managed :: "json \<Rightarrow> ManagedWorkspace option" where
  "of_managed v = (case loose_fields [''repository'', ''task_id'', ''branch'', ''base_branch''] v of
     Some [r, t, b, bb] \<Rightarrow>
       (case (req_field as_str r, req_field as_str t, req_field as_str b, req_field as_str bb) of
          (Some r', Some t', Some b', Some bb') \<Rightarrow>
            Some \<lparr>mw_repository = r', mw_task_id = t', mw_branch = b', mw_base_branch = bb'\<rparr>
        | _ \<Rightarrow> None)
   | _ \<Rightarrow> None)"

definition of_runtime :: "json \<Rightarrow> ProviderRuntime option" where
  "of_runtime v =
    (case loose_fields [''compatibility_profile'', ''provider_version'', ''adapter_version'', ''executable''] v of
     Some [c, p, a, e] \<Rightarrow>
       (case (req_field as_str c, req_field as_str p, opt_field as_str a, opt_field as_str e) of
          (Some c', Some p', Some a', Some e') \<Rightarrow>
            Some \<lparr>rt_compatibility_profile = c', rt_provider_version = p', rt_adapter_version = a', rt_executable = e'\<rparr>
        | _ \<Rightarrow> None)
   | _ \<Rightarrow> None)"

definition registry_fields :: "string list" where
  "registry_fields = [''id'', ''provider'', ''provider_session_id'', ''cwd'', ''workspace_strategy'',
     ''worktree_path'', ''managed_workspace'', ''runtime'', ''provider_options'', ''title'', ''state'',
     ''created_at'', ''updated_at'', ''provider_runtime_version'']"

definition of_registry_agent :: "json \<Rightarrow> RegistryAgent option" where
  "of_registry_agent v = (case struct_fields registry_fields v of
     Some [i, p, s, c, ws, wt, mw, rt, po, t, st, ca, ua, lg] \<Rightarrow>
       (case (req_field as_str i, req_field of_provider p, opt_field as_str s, req_field as_str c,
              req_field of_strategy ws, opt_field as_str wt, opt_field of_managed mw,
              opt_field of_runtime rt, def_field default_options of_options po, req_field as_str t,
              req_field of_state st, req_field as_str ca, req_field as_str ua, opt_field as_str lg) of
          (Some i', Some p', Some s', Some c', Some ws', Some wt', Some mw', Some rt', Some po', Some t',
           Some st', Some ca', Some ua', Some lg') \<Rightarrow>
            Some \<lparr>ra_id = i', ra_provider = p', ra_provider_session_id = s', ra_cwd = c',
              ra_workspace_strategy = ws', ra_worktree_path = wt', ra_managed_workspace = mw',
              ra_runtime = rt', ra_provider_options = po', ra_title = t', ra_state = st',
              ra_created_at = ca', ra_updated_at = ua', ra_legacy = lg'\<rparr>
        | _ \<Rightarrow> None)
   | _ \<Rightarrow> None)"

definition of_registry :: "json \<Rightarrow> RegistryDocument option" where
  "of_registry v = (case struct_fields [''schema_version'', ''updated_at'', ''agents''] v of
     Some [sv, u, a] \<Rightarrow>
       (case (req_field of_u32 sv, req_field as_str u, req_field (of_array of_registry_agent) a) of
          (Some sv', Some u', Some a') \<Rightarrow>
            Some \<lparr>rd_schema_version = sv', rd_updated_at = u', rd_agents = a'\<rparr>
        | _ \<Rightarrow> None)
   | _ \<Rightarrow> None)"

definition registry_agent :: "AgentSummary \<Rightarrow> RegistryAgent" where
  "registry_agent s =
    \<lparr>ra_id = as_id s, ra_provider = as_provider s, ra_provider_session_id = as_provider_session_id s,
     ra_cwd = as_cwd s, ra_workspace_strategy = as_workspace_strategy s,
     ra_worktree_path = as_worktree_path s, ra_managed_workspace = as_managed_workspace s,
     ra_runtime = as_runtime s, ra_provider_options = as_provider_options s, ra_title = as_title s,
     ra_state = as_state s, ra_created_at = as_created_at s, ra_updated_at = as_updated_at s,
     ra_legacy = None\<rparr>"

section \<open>What is accepted when it is read back\<close>

definition valid_managed_workspace :: "ManagedWorkspace option \<Rightarrow> bool" where
  "valid_managed_workspace mw = (case mw of None \<Rightarrow> True | Some m \<Rightarrow>
     mw_repository m \<noteq> [] \<and> length (mw_repository m) \<le> 128 \<and> mw_task_id m \<noteq> [] \<and> length (mw_task_id m) \<le> 128
     \<and> mw_branch m = ''agent/'' @ mw_task_id m \<and> mw_base_branch m \<noteq> [] \<and> length (mw_base_branch m) \<le> 256)"

definition none_or :: "('a \<Rightarrow> bool) \<Rightarrow> 'a option \<Rightarrow> bool" where
  "none_or P x = (case x of None \<Rightarrow> True | Some y \<Rightarrow> P y)"

definition valid_runtime :: "ProviderRuntime option \<Rightarrow> bool" where
  "valid_runtime rt = none_or (\<lambda>r.
     rt_compatibility_profile r \<noteq> [] \<and> length (rt_compatibility_profile r) \<le> 256
     \<and> rt_provider_version r \<noteq> [] \<and> length (rt_provider_version r) \<le> 256
     \<and> none_or (\<lambda>v. v \<noteq> [] \<and> length v \<le> 256) (rt_adapter_version r)
     \<and> none_or (\<lambda>p. p \<noteq> [] \<and> length p \<le> 8192 \<and> is_absolute p) (rt_executable r)) rt"

definition valid_provider_options :: "ProviderOptions \<Rightarrow> bool" where
  "valid_provider_options o' =
    (none_or (\<lambda>m. m \<noteq> [] \<and> length m \<le> 256 \<and> \<not> any_control m) (po_model o')
     \<and> none_or (\<lambda>e. e \<noteq> [] \<and> length e \<le> 64 \<and> \<not> any_control e) (po_effort o'))"

definition valid_metadata :: "RegistryAgent \<Rightarrow> bool" where
  "valid_metadata a =
    (ra_id a \<noteq> [] \<and> length (ra_id a) \<le> 256 \<and> ra_cwd a \<noteq> [] \<and> length (ra_cwd a) \<le> 8192
     \<and> is_absolute (ra_cwd a) \<and> length (ra_title a) \<le> 4096
     \<and> \<not> some_and (\<lambda>s. s = [] \<or> length s > 1024) (ra_provider_session_id a)
     \<and> \<not> some_and (\<lambda>v. length v > 1024) (ra_legacy a)
     \<and> valid_managed_workspace (ra_managed_workspace a) \<and> valid_runtime (ra_runtime a)
     \<and> valid_provider_options (ra_provider_options a))"

definition consistent_workspace :: "RegistryAgent \<Rightarrow> bool" where
  "consistent_workspace a =
    (case (ra_workspace_strategy a, ra_worktree_path a) of
       (Shared, None) \<Rightarrow> ra_managed_workspace a = None
     | (Worktree, Some path) \<Rightarrow> path \<noteq> [] \<and> length path \<le> 8192 \<and> is_absolute path
     | _ \<Rightarrow> False)"

definition into_disconnected_summary :: "RegistryAgent \<Rightarrow> RegistryError + AgentSummary" where
  "into_disconnected_summary a =
    (if \<not> valid_metadata a then Inl (RegUnsafe ''agent metadata is invalid'')
     else if \<not> consistent_workspace a then Inl (RegUnsafe ''workspace metadata is inconsistent'')
     else Inr \<lparr>as_id = ra_id a, as_provider = ra_provider a,
       as_provider_session_id = ra_provider_session_id a, as_cwd = ra_cwd a,
       as_workspace_strategy = ra_workspace_strategy a, as_worktree_path = ra_worktree_path a,
       as_managed_workspace = ra_managed_workspace a, as_runtime = ra_runtime a,
       as_provider_options = ra_provider_options a, as_title = ra_title a, as_state = Disconnected,
       as_active_turn_id = None, as_pending_approvals = 0, as_unread_events = 0, as_capabilities = [],
       as_created_at = ra_created_at a, as_updated_at = ra_updated_at a\<rparr>)"

fun restore_agents :: "string set \<Rightarrow> RegistryAgent list \<Rightarrow> RegistryError + AgentSummary list" where
  "restore_agents ids [] = Inr []"
| "restore_agents ids (a # rest) =
    (if ra_id a \<in> ids then Inl (RegUnsafe ''agent IDs must be unique'')
     else (case into_disconnected_summary a of
         Inl e \<Rightarrow> Inl e
       | Inr s \<Rightarrow> (case restore_agents (insert (ra_id a) ids) rest of Inl e \<Rightarrow> Inl e | Inr ss \<Rightarrow> Inr (s # ss))))"

section \<open>Files and directories\<close>

definition owner_only :: "u32 \<Rightarrow> bool" where
  "owner_only mode = (and mode 63 = 0)"

definition ensure_private_directory :: "World \<Rightarrow> string \<Rightarrow> RegistryError + unit" where
  "ensure_private_directory w path =
    (if \<not> is_absolute path then Inl (RegUnsafe ''directory must be absolute'')
     else
       (let found = (case w_stat w path of
            StatMissing \<Rightarrow> w_created w path
          | StatError \<Rightarrow> None
          | st \<Rightarrow> Some (st, w_mode w path)) in
        case found of
          None \<Rightarrow> Inl RegIo
        | Some (st, mode) \<Rightarrow>
            if st = StatMissing \<or> st = StatError then Inl RegIo
            else if st \<noteq> StatDir then Inl (RegUnsafe ''parent is not a directory'')
            else if \<not> owner_only mode then Inl (RegUnsafe ''directory must be owner-only'')
            else Inr ()))"

definition validate_existing_private_file :: "World \<Rightarrow> string \<Rightarrow> RegistryError + bool" where
  "validate_existing_private_file w path =
    (case w_stat w path of
       StatMissing \<Rightarrow> Inr False
     | StatError \<Rightarrow> Inl RegIo
     | StatFile _ \<Rightarrow>
         if \<not> owner_only (w_mode w path) then Inl (RegUnsafe ''registry file must be owner-only'') else Inr True
     | _ \<Rightarrow> Inl (RegUnsafe ''registry must be a regular file''))"

definition rg_open :: "World \<Rightarrow> string \<Rightarrow> RegistryError + RegistryStore" where
  "rg_open w path =
    (if \<not> is_absolute path then Inl (RegUnsafe ''path must be absolute'')
     else (case path_parent path of
         None \<Rightarrow> Inl (RegUnsafe ''path must have a parent directory'')
       | Some parent \<Rightarrow>
           (case ensure_private_directory w parent of
              Inl e \<Rightarrow> Inl e
            | Inr _ \<Rightarrow> (case validate_existing_private_file w path of
                Inl e \<Rightarrow> Inl e
              | Inr _ \<Rightarrow> Inr \<lparr>rg_path = path\<rparr>))))"

definition rg_bytes :: "World \<Rightarrow> RegistryStore \<Rightarrow> u64" where
  "rg_bytes w r = unwrap_or 0 (w_size w (rg_path r))"

definition rg_load :: "World \<Rightarrow> (string \<Rightarrow> json option) \<Rightarrow> RegistryStore \<Rightarrow> RegistryError + AgentSummary list" where
  "rg_load w decode r =
    (case validate_existing_private_file w (rg_path r) of
       Inl e \<Rightarrow> Inl e
     | Inr False \<Rightarrow> Inr []
     | Inr True \<Rightarrow>
         (case w_size w (rg_path r) of
            None \<Rightarrow> Inl RegIo
          | Some measured \<Rightarrow>
              if unat measured > MAX_REGISTRY_BYTES then Inl (RegUnsafe ''file exceeds the size limit'')
              else (case w_read w (rg_path r) of
                  None \<Rightarrow> Inl RegIo
                | Some bytes \<Rightarrow>
                    if length bytes > MAX_REGISTRY_BYTES then Inl (RegUnsafe ''file exceeds the size limit'')
                    else (case Option.bind (decode bytes) of_registry of
                        None \<Rightarrow> Inl RegJson
                      | Some d \<Rightarrow>
                          if rd_schema_version d \<noteq> REGISTRY_SCHEMA_VERSION
                          then Inl (RegUnsafe ''schema version is unsupported'')
                          else if length (rd_agents d) > MAX_REGISTRY_AGENTS
                          then Inl (RegUnsafe ''agent count exceeds the limit'')
                          else restore_agents {} (rd_agents d)))))"

definition rg_document :: "World \<Rightarrow> AgentSummary list \<Rightarrow> RegistryDocument" where
  "rg_document w agents =
    \<lparr>rd_schema_version = REGISTRY_SCHEMA_VERSION, rd_updated_at = w_stamp w, rd_agents = map registry_agent agents\<rparr>"

definition rg_persist ::
  "World \<Rightarrow> (json \<Rightarrow> string) \<Rightarrow> RegistryStore \<Rightarrow> AgentSummary list \<Rightarrow> string option
    \<Rightarrow> (RegistryError + unit) \<times> string option" where
  "rg_persist w encode r agents file =
    (if length agents > MAX_REGISTRY_AGENTS then (Inl (RegUnsafe ''agent count exceeds the limit''), file)
     else (case validate_existing_private_file w (rg_path r) of
         Inl e \<Rightarrow> (Inl e, file)
       | Inr _ \<Rightarrow>
           (let encoded = encode (json_of_registry (rg_document w agents)) in
            if length encoded > MAX_REGISTRY_BYTES
            then (Inl (RegUnsafe ''encoded registry exceeds the size limit''), file)
            else (case path_parent (rg_path r) of
                None \<Rightarrow> (Inl (RegUnsafe ''path must have a parent directory''), file)
              | Some parent \<Rightarrow>
                  (case ensure_private_directory w parent of
                     Inl e \<Rightarrow> (Inl e, file)
                   | Inr _ \<Rightarrow>
                       (case save_file w encoded file of
                          (ok, file') \<Rightarrow> (if ok then Inr () else Inl RegIo, file')))))))"

section \<open>Reading back what was written\<close>

lemma opt_field_jopt:
  "(\<And>x. p (f x) = Some x) \<Longrightarrow> (\<And>x. f x \<noteq> JNull) \<Longrightarrow> opt_field p (Some (jopt f v)) = Some v"
  by (cases v) (simp_all add: field_defs)

lemma state_roundtrip: "of_state (JString (state_name s)) = Some s"
  by (cases s) (simp_all add: of_state_def of_enum_def)

lemma strategy_roundtrip: "of_strategy (json_of_strategy s) = Some s"
  by (cases s) (simp_all add: of_strategy_def of_enum_def)

lemma str_options: "opt_field as_str (Some (jopt JString v)) = Some v"
  by (rule opt_field_jopt) simp_all

lemma options_roundtrip: "of_options (json_of_options o') = Some o'"
  by (simp add: of_options_def json_of_options_def struct_fields_jobj str_options)

lemma managed_roundtrip: "of_managed (json_of_managed m) = Some m"
  by (simp add: of_managed_def json_of_managed_def loose_fields_jobj field_defs)

lemma runtime_roundtrip: "of_runtime (json_of_runtime r) = Some r"
  by (simp add: of_runtime_def json_of_runtime_def loose_fields_jobj str_options req_field_def)

lemma managed_not_null: "json_of_managed m \<noteq> JNull" and runtime_not_null: "json_of_runtime r \<noteq> JNull"
  by (simp_all add: json_of_managed_def json_of_runtime_def)

lemma agent_roundtrip: "of_registry_agent (json_of_registry_agent a) = Some a"
proof -
  let ?tail = "case ra_legacy a of None \<Rightarrow> [] | Some v \<Rightarrow> [(''provider_runtime_version'', JString v)]"
  have "struct_fields registry_fields (json_of_registry_agent a) = Some [
      Some (JString (ra_id a)), Some (json_of_provider (ra_provider a)),
      Some (jopt JString (ra_provider_session_id a)), Some (JString (ra_cwd a)),
      Some (json_of_strategy (ra_workspace_strategy a)), Some (jopt JString (ra_worktree_path a)),
      Some (jopt json_of_managed (ra_managed_workspace a)), Some (jopt json_of_runtime (ra_runtime a)),
      Some (json_of_options (ra_provider_options a)), Some (JString (ra_title a)),
      Some (JString (state_name (ra_state a))), Some (JString (ra_created_at a)),
      Some (JString (ra_updated_at a)), map_option JString (ra_legacy a)]"
    by (cases "ra_legacy a")
      (simp_all add: json_of_registry_agent_def struct_fields_jobj registry_fields_def)
  moreover have "opt_field as_str (map_option JString (ra_legacy a)) = Some (ra_legacy a)"
    by (cases "ra_legacy a") (simp_all add: field_defs)
  moreover have "opt_field of_managed (Some (jopt json_of_managed (ra_managed_workspace a))) = Some (ra_managed_workspace a)"
    by (rule opt_field_jopt) (rule managed_roundtrip managed_not_null)+
  moreover have "opt_field of_runtime (Some (jopt json_of_runtime (ra_runtime a))) = Some (ra_runtime a)"
    by (rule opt_field_jopt) (rule runtime_roundtrip runtime_not_null)+
  ultimately show ?thesis
    by (simp add: of_registry_agent_def str_options provider_roundtrip strategy_roundtrip options_roundtrip
        state_roundtrip req_field_def def_field_def)
qed

lemma registry_document_roundtrip: "of_registry (json_of_registry d) = Some d"
proof -
  have "of_u32 (JNum (PosInt (ucast n))) = Some n" for n :: u32
    by (rule of_u32_ucast)
  then show ?thesis
    by (simp add: of_registry_def json_of_registry_def struct_fields_jobj field_defs of_array_def
        of_list_map agent_roundtrip)
qed

definition storable :: "AgentSummary \<Rightarrow> bool" where
  "storable s = (valid_metadata (registry_agent s) \<and> consistent_workspace (registry_agent s))"

text \<open>What survives a restart: everything but the live state.\<close>

definition restored :: "AgentSummary \<Rightarrow> AgentSummary" where
  "restored s = s\<lparr>as_state := Disconnected, as_active_turn_id := None, as_pending_approvals := 0,
     as_unread_events := 0, as_capabilities := []\<rparr>"

lemma ra_id_registry_agent [simp]: "ra_id (registry_agent s) = as_id s"
  by (simp add: registry_agent_def)

lemma into_disconnected: "storable s \<Longrightarrow> into_disconnected_summary (registry_agent s) = Inr (restored s)"
  by (simp add: storable_def into_disconnected_summary_def restored_def registry_agent_def)

lemma restore_registry_agents:
  "\<forall>s\<in>set agents. storable s \<Longrightarrow> distinct (map as_id agents) \<Longrightarrow> as_id ` set agents \<inter> ids = {} \<Longrightarrow>
   restore_agents ids (map registry_agent agents) = Inr (map restored agents)"
proof (induction agents arbitrary: ids)
  case (Cons s agents)
  have "restore_agents (insert (as_id s) ids) (map registry_agent agents) = Inr (map restored agents)"
    using Cons by auto
  with Cons.prems show ?case
    by (simp add: into_disconnected)
qed simp

lemma rg_persist_ok:
  assumes "rg_persist w encode r agents file = (Inr (), file')"
  shows "length agents \<le> MAX_REGISTRY_AGENTS"
    and "length (encode (json_of_registry (rg_document w agents))) \<le> MAX_REGISTRY_BYTES"
    and "file' = Some (encode (json_of_registry (rg_document w agents)) @ [newline])"
  using assms save_file_ok [of w "encode (json_of_registry (rg_document w agents))" "file"]
  by (auto simp: rg_persist_def Let_def split: if_splits sum.splits option.splits prod.splits)

text \<open>The next start finds what the last write left, in an owner-only file.\<close>

definition reads_back :: "World \<Rightarrow> RegistryStore \<Rightarrow> string \<Rightarrow> bool" where
  "reads_back w r bytes =
    ((\<exists>n. w_stat w (rg_path r) = StatFile n) \<and> owner_only (w_mode w (rg_path r))
     \<and> w_read w (rg_path r) = Some bytes \<and> w_size w (rg_path r) = Some (of_nat (length bytes)))"


lemma restored_state: "as_state (restored s) = Disconnected"
  by (simp add: restored_def)

lemma restored_again: "restored (restored s) = restored s"
  by (simp add: restored_def)

lemma into_disconnected_storable:
  assumes "into_disconnected_summary a = Inr s"
  shows "as_id s = ra_id a" and "storable s" and "restored s = s"
proof -
  have ok: "valid_metadata a" "consistent_workspace a"
    using assms by (auto simp: into_disconnected_summary_def split: if_splits)
  then have s: "registry_agent s = a\<lparr>ra_state := Disconnected, ra_legacy := None\<rparr>"
    "restored s = s" "as_id s = ra_id a"
    using assms by (auto simp: into_disconnected_summary_def registry_agent_def restored_def)
  then show "as_id s = ra_id a" and "restored s = s" by simp_all
  show "storable s"
    using ok by (simp add: storable_def s(1) valid_metadata_def consistent_workspace_def some_and_def
        split: option.splits WorkspaceStrategy.splits)
qed

lemma restored_agents_ok:
  "restore_agents ids as = Inr ss \<Longrightarrow> distinct (map as_id ss) \<and> as_id ` set ss \<inter> ids = {} \<and> length ss = length as
    \<and> (\<forall>s\<in>set ss. storable s \<and> restored s = s)"
proof (induction as arbitrary: ids ss)
  case (Cons a as)
  then obtain s rest where s: "into_disconnected_summary a = Inr s" "ss = s # rest" "ra_id a \<notin> ids"
    and r: "restore_agents (insert (ra_id a) ids) as = Inr rest"
    by (auto split: if_splits sum.splits)
  note ok = into_disconnected_storable [OF s(1)]
  with Cons.IH [OF r] s ok show ?case by auto
qed simp

text \<open>
  C31.  What the registry restores is well formed.  Whatever the file holds, an accepted registry
  has at most 10000 agents with distinct identifiers, each with acceptable metadata and a consistent
  workspace, and none of them claims to be live; storing and restoring them again changes nothing.
\<close>

theorem registry_restores_wf:
  assumes "rg_load w decode r = Inr agents"
  shows "length agents \<le> 10000 \<and> distinct (map as_id agents)
    \<and> (\<forall>s\<in>set agents. storable s \<and> restored s = s \<and> as_state s = Disconnected \<and> is_absolute (as_cwd s))"
proof -
  have "\<forall>s\<in>set agents. storable s \<and> restored s = s" "distinct (map as_id agents)" "length agents \<le> 10000"
    using assms restored_agents_ok
    by (auto simp: rg_load_def MAX_REGISTRY_AGENTS_def split: sum.splits bool.splits option.splits if_splits)
  moreover have "restored s = s \<Longrightarrow> as_state s = Disconnected" for s
    by (metis restored_state)
  moreover have "storable s \<Longrightarrow> is_absolute (as_cwd s)" for s
    by (simp add: storable_def valid_metadata_def registry_agent_def)
  ultimately show ?thesis by blast
qed

text \<open>
  The registry file is replaced as a whole.  Whatever step of a save fails, the file holds
  either what it held before or the complete new document, never more than the size limit and its
  final line feed; after a successful save it holds the new document.
\<close>

theorem registry_replaced_whole:
  assumes "rg_persist w encode r agents file = (result, file')"
  shows "(file' = file \<or>
      (file' = Some (encode (json_of_registry (rg_document w agents)) @ [newline])
        \<and> length (encode (json_of_registry (rg_document w agents))) \<le> MAX_REGISTRY_BYTES))
    \<and> (is_ok result \<longrightarrow> file' = Some (encode (json_of_registry (rg_document w agents)) @ [newline]))"
  using assms save_file_ok [of w "encode (json_of_registry (rg_document w agents))" "file"]
    save_file_atomic [of w "encode (json_of_registry (rg_document w agents))" "file"]
  by (auto simp: rg_persist_def Let_def is_ok_def split: if_splits sum.splits option.splits prod.splits)

text \<open>One agent in one file.\<close>

definition sample_agent :: AgentSummary where
  "sample_agent = \<lparr>as_id = ''a'', as_provider = Codex, as_provider_session_id = Some ''t'', as_cwd = ''/w'',
     as_workspace_strategy = Shared, as_worktree_path = None, as_managed_workspace = None,
     as_runtime = None, as_provider_options = default_options, as_title = ''w'', as_state = Running,
     as_active_turn_id = Some ''turn'', as_pending_approvals = 1, as_unread_events = 0,
     as_capabilities = [], as_created_at = ''c'', as_updated_at = ''u''\<rparr>"

definition sample_store :: RegistryStore where
  "sample_store = \<lparr>rg_path = ''/d/r''\<rparr>"

definition disk_before :: World where
  "disk_before = quiet_world\<lparr>w_stat := (\<lambda>p. if p = ''/d'' then StatDir else StatMissing)\<rparr>"

definition disk_after :: World where
  "disk_after = quiet_world\<lparr>w_stat := (\<lambda>p. if p = ''/d'' then StatDir else StatFile 2),
     w_read := (\<lambda>_. Some (''x'' @ [newline])), w_size := (\<lambda>_. Some 2)\<rparr>"

lemma sample_parent: "path_parent ''/d/r'' = Some ''/d''"
  by (simp add: path_parent_def components_def is_absolute_def starts_with_def path_of_def)

lemma sample_stored:
  "rg_persist disk_before (\<lambda>_. ''x'') sample_store [sample_agent] None = (Inr (), Some (''x'' @ [newline]))"
  by (simp add: rg_persist_def sample_store_def disk_before_def quiet_world_def sample_parent
      ensure_private_directory_def validate_existing_private_file_def owner_only_def is_absolute_def
      starts_with_def save_file_def MAX_REGISTRY_AGENTS_def MAX_REGISTRY_BYTES_def)

lemma sample_storable: "storable sample_agent"
  by (simp add: storable_def sample_agent_def registry_agent_def valid_metadata_def consistent_workspace_def
      is_absolute_def starts_with_def some_and_def valid_managed_workspace_def valid_runtime_def none_or_def
      valid_provider_options_def default_options_def)

lemma sample_disk: "reads_back disk_after sample_store (''x'' @ [newline])"
  by (simp add: reads_back_def disk_after_def sample_store_def quiet_world_def owner_only_def)


lemma sample_loaded:
  "rg_load disk_after (\<lambda>_. Some (json_of_registry (rg_document disk_after [sample_agent]))) sample_store
    = Inr [restored sample_agent]"
  using sample_disk into_disconnected [OF sample_storable]
  by (simp add: rg_load_def validate_existing_private_file_def reads_back_def MAX_REGISTRY_BYTES_def
      registry_document_roundtrip rg_document_def MAX_REGISTRY_AGENTS_def unat_of_nat_u64 disk_after_def
      quiet_world_def owner_only_def sample_store_def)

theorem registry_restores_wf_witness:
  "storable (restored sample_agent) \<and> as_state (restored sample_agent) = Disconnected"
  using registry_restores_wf [OF sample_loaded] by simp

theorem registry_replaced_whole_witness:
  "\<exists>doc. Some (''x'' @ [newline]) = Some (doc @ [newline]) \<and> length doc \<le> MAX_REGISTRY_BYTES"
  using registry_replaced_whole [OF sample_stored] by (auto simp: is_ok_def)

end
