(* ===== verification/Status.thy ===== *)
theory Status
  imports Host
begin

text \<open>
  The service status for monitoring, \<open>status.rs\<close>: a document of fixed shape that is rewritten after
  every change.  A store is its path and the current document; the mutex around the document is
  never poisoned, because nothing panics while it is held.  Every operation returns the new store
  and the new content of the file.
\<close>

definition STATUS_SCHEMA_VERSION :: u32 where "STATUS_SCHEMA_VERSION = 1"
definition MAX_STATUS_BYTES :: nat where "MAX_STATUS_BYTES = 64 * 1024"

datatype StatusError = StIo | StJson | StUnsafe string

record StatusDocument =
  sd_schema_version :: u32
  sd_service :: string
  sd_state :: string
  sd_updated_at :: string
  sd_last_success_at :: "string option"
  sd_last_failure_at :: "string option"
  sd_last_error :: "string option"
  sd_object_count :: u64
  sd_byte_count :: u64

record StatusStore =
  ss_path :: string
  ss_document :: StatusDocument

definition json_of_status :: "StatusDocument \<Rightarrow> json" where
  "json_of_status d = jobj [
     (''schema_version'', JNum (PosInt (ucast (sd_schema_version d)))), (''service'', JString (sd_service d)),
     (''state'', JString (sd_state d)), (''updated_at'', JString (sd_updated_at d)),
     (''last_success_at'', jopt JString (sd_last_success_at d)),
     (''last_failure_at'', jopt JString (sd_last_failure_at d)),
     (''last_error'', jopt JString (sd_last_error d)),
     (''object_count'', ju64 (sd_object_count d)), (''byte_count'', ju64 (sd_byte_count d))]"

definition of_status :: "json \<Rightarrow> StatusDocument option" where
  "of_status v =
    (case struct_fields [''schema_version'', ''service'', ''state'', ''updated_at'', ''last_success_at'',
        ''last_failure_at'', ''last_error'', ''object_count'', ''byte_count''] v of
     Some [sv, s, st, u, ls, lf, le, oc, bc] \<Rightarrow>
       (case (req_field of_u32 sv, req_field as_str s, req_field as_str st, req_field as_str u,
              opt_field as_str ls, opt_field as_str lf, opt_field as_str le,
              req_field as_u64 oc, req_field as_u64 bc) of
          (Some sv', Some s', Some st', Some u', Some ls', Some lf', Some le', Some oc', Some bc') \<Rightarrow>
            Some \<lparr>sd_schema_version = sv', sd_service = s', sd_state = st', sd_updated_at = u',
              sd_last_success_at = ls', sd_last_failure_at = lf', sd_last_error = le',
              sd_object_count = oc', sd_byte_count = bc'\<rparr>
        | _ \<Rightarrow> None)
   | _ \<Rightarrow> None)"

text \<open>Neither the directory nor the file may be accessible to everyone.\<close>

definition not_world_accessible :: "u32 \<Rightarrow> bool" where
  "not_world_accessible mode = (and mode 7 = 0)"

definition ensure_status_directory :: "World \<Rightarrow> string \<Rightarrow> StatusError + unit" where
  "ensure_status_directory w path =
    (if \<not> is_absolute path then Inl (StUnsafe ''directory must be absolute'')
     else
       (let found = (case w_stat w path of
            StatMissing \<Rightarrow> w_created w path
          | StatError \<Rightarrow> None
          | st \<Rightarrow> Some (st, w_mode w path)) in
        case found of
          None \<Rightarrow> Inl StIo
        | Some (st, mode) \<Rightarrow>
            if st = StatMissing \<or> st = StatError then Inl StIo
            else if st \<noteq> StatDir then Inl (StUnsafe ''parent is not a directory'')
            else if \<not> not_world_accessible mode then Inl (StUnsafe ''directory must not be world-accessible'')
            else Inr ()))"

definition validate_existing_status_file :: "World \<Rightarrow> string \<Rightarrow> StatusError + bool" where
  "validate_existing_status_file w path =
    (case w_stat w path of
       StatMissing \<Rightarrow> Inr False
     | StatError \<Rightarrow> Inl StIo
     | StatFile _ \<Rightarrow>
         if \<not> not_world_accessible (w_mode w path) then Inl (StUnsafe ''status must not be world-accessible'')
         else Inr True
     | _ \<Rightarrow> Inl (StUnsafe ''status must be a regular file''))"

definition st_persist ::
  "World \<Rightarrow> (json \<Rightarrow> string) \<Rightarrow> StatusStore \<Rightarrow> string option \<Rightarrow> (StatusError + unit) \<times> string option" where
  "st_persist w encode s file =
    (let encoded = encode (json_of_status (ss_document s)) in
     if length encoded > MAX_STATUS_BYTES then (Inl (StUnsafe ''encoded status exceeds the size limit''), file)
     else (case path_parent (ss_path s) of
         None \<Rightarrow> (Inl (StUnsafe ''path must have a parent directory''), file)
       | Some parent \<Rightarrow>
           (case ensure_status_directory w parent of
              Inl e \<Rightarrow> (Inl e, file)
            | Inr _ \<Rightarrow>
                (case validate_existing_status_file w (ss_path s) of
                   Inl e \<Rightarrow> (Inl e, file)
                 | Inr _ \<Rightarrow>
                     (case save_file w encoded file of
                        (ok, file') \<Rightarrow> (if ok then Inr () else Inl StIo, file'))))))"

definition st_success ::
  "World \<Rightarrow> (json \<Rightarrow> string) \<Rightarrow> StatusStore \<Rightarrow> string \<Rightarrow> u64 \<Rightarrow> u64 \<Rightarrow> string option
    \<Rightarrow> (StatusError + unit) \<times> StatusStore \<times> string option" where
  "st_success w encode s state object_count byte_count file =
    (let s' = s\<lparr>ss_document := (ss_document s)\<lparr>sd_state := state, sd_updated_at := w_stamp w,
           sd_last_success_at := Some (w_stamp w), sd_last_error := None,
           sd_object_count := object_count, sd_byte_count := byte_count\<rparr>\<rparr> in
     case st_persist w encode s' file of (r, file') \<Rightarrow> (r, s', file'))"

definition st_failure ::
  "World \<Rightarrow> (json \<Rightarrow> string) \<Rightarrow> StatusStore \<Rightarrow> string \<Rightarrow> u64 \<Rightarrow> u64 \<Rightarrow> string option
    \<Rightarrow> (StatusError + unit) \<times> StatusStore \<times> string option" where
  "st_failure w encode s error object_count byte_count file =
    (let s' = s\<lparr>ss_document := (ss_document s)\<lparr>sd_state := ''failed'', sd_updated_at := w_stamp w,
           sd_last_failure_at := Some (w_stamp w), sd_last_error := Some error,
           sd_object_count := object_count, sd_byte_count := byte_count\<rparr>\<rparr> in
     case st_persist w encode s' file of (r, file') \<Rightarrow> (r, s', file'))"

definition new_status :: "string \<Rightarrow> StatusDocument" where
  "new_status now = \<lparr>sd_schema_version = STATUS_SCHEMA_VERSION, sd_service = ''agent-manager'',
     sd_state = ''starting'', sd_updated_at = now, sd_last_success_at = None, sd_last_failure_at = None,
     sd_last_error = None, sd_object_count = 0, sd_byte_count = 0\<rparr>"

definition read_status :: "World \<Rightarrow> (string \<Rightarrow> json option) \<Rightarrow> string \<Rightarrow> StatusError + StatusDocument" where
  "read_status w decode path =
    (case w_size w path of
       None \<Rightarrow> Inl StIo
     | Some measured \<Rightarrow>
         if unat measured > MAX_STATUS_BYTES then Inl (StUnsafe ''file exceeds the size limit'')
         else (case w_read w path of
             None \<Rightarrow> Inl StIo
           | Some bytes \<Rightarrow>
               (case Option.bind (decode (take (Suc MAX_STATUS_BYTES) bytes)) of_status of
                  None \<Rightarrow> Inl StJson
                | Some d \<Rightarrow>
                    if sd_schema_version d \<noteq> STATUS_SCHEMA_VERSION \<or> sd_service d \<noteq> ''agent-manager''
                    then Inl (StUnsafe ''identity or schema is invalid'') else Inr d)))"

definition st_open ::
  "World \<Rightarrow> codec \<Rightarrow> string \<Rightarrow> string option \<Rightarrow> (StatusError + StatusStore) \<times> string option" where
  "st_open w cd path file =
    (if \<not> is_absolute path then (Inl (StUnsafe ''path must be absolute''), file)
     else (case path_parent path of
         None \<Rightarrow> (Inl (StUnsafe ''path must have a parent directory''), file)
       | Some parent \<Rightarrow>
           (case ensure_status_directory w parent of
              Inl e \<Rightarrow> (Inl e, file)
            | Inr _ \<Rightarrow>
                (case (case validate_existing_status_file w path of
                         Inl e \<Rightarrow> Inl e
                       | Inr True \<Rightarrow> read_status w (cd_decode cd) path
                       | Inr False \<Rightarrow> Inr (new_status (w_stamp w))) of
                   Inl e \<Rightarrow> (Inl e, file)
                 | Inr d \<Rightarrow>
                     (let s = \<lparr>ss_path = path, ss_document = d\<rparr> in
                      case st_persist w (cd_encode cd) s file of
                        (Inl e, file') \<Rightarrow> (Inl e, file')
                      | (Inr _, file') \<Rightarrow> (Inr s, file'))))))"

section \<open>What a monitor reads\<close>

text \<open>The last success and the last failure are kept apart: neither write forgets the other.\<close>

lemma status_keeps_history:
  "sd_last_failure_at (ss_document (fst (snd (st_success w encode s state n b file)))) = sd_last_failure_at (ss_document s)"
  "sd_last_success_at (ss_document (fst (snd (st_failure w encode s e n b file)))) = sd_last_success_at (ss_document s)"
  by (simp_all add: st_success_def st_failure_def Let_def split: prod.splits)

lemma st_persist_file:
  assumes "st_persist w encode s file = (r, file')"
  shows "file' = file \<or> file' = Some (encode (json_of_status (ss_document s)) @ [newline])"
    and "r = Inr () \<Longrightarrow> file' = Some (encode (json_of_status (ss_document s)) @ [newline])"
  using assms save_file_ok [of w "encode (json_of_status (ss_document s))" "file"]
    save_file_atomic [of w "encode (json_of_status (ss_document s))" "file"]
  by (auto simp: st_persist_def Let_def split: if_splits sum.splits option.splits prod.splits)

lemma status_roundtrip: "of_status (json_of_status d) = Some d"
proof -
  have "of_u32 (JNum (PosInt (ucast n))) = Some n" for n :: u32
    by (rule of_u32_ucast)
  moreover have "opt_field as_str (Some (jopt JString v)) = Some v" for v
    by (cases v) (simp_all add: field_defs)
  ultimately show ?thesis
    by (simp add: of_status_def json_of_status_def struct_fields_jobj req_field_def ju64_def)
qed

end
