(* ===== verification/BrokerParams.thy ===== *)
theory BrokerParams
  imports Workspace Registry Runtime
begin

text \<open>
  The requests a client may send (\<open>embedded.rs\<close>, the parameter structs) and the checks on their
  contents that do not depend on the broker's state: directories and worktrees, editor contexts,
  provider options, answers, titles.

  A parameter struct is read from a JSON object by the rules of \<open>#[derive(Deserialize)]\<close>; an
  unusable request is \<open>None\<close>.  A check is an error text or its result.
\<close>

definition MAX_CONTEXT_BYTES :: nat where "MAX_CONTEXT_BYTES = 512 * 1024"
definition MAX_CONTEXT_ITEMS :: nat where "MAX_CONTEXT_ITEMS = 256"
definition MAX_DIFF_BYTES :: nat where "MAX_DIFF_BYTES = 2 * 1024 * 1024"

datatype BrokerMode = Embedded | Durable

section \<open>Parameters\<close>

record ClientIdentity =
  ci_name :: string
  ci_title :: "string option"
  ci_version :: string

record InitializeParams =
  ip_protocol_version :: u32
  ip_client :: ClientIdentity
  ip_last_sequence :: "u64 option"

record ManagedWorkspaceParams =
  mp_repository :: string
  mp_task_id :: string
  mp_resume :: bool

record StartParams =
  sp_provider :: Provider
  sp_cwd :: "string option"
  sp_workspace_strategy :: "WorkspaceStrategy option"
  sp_worktree_path :: "string option"
  sp_managed_workspace :: "ManagedWorkspaceParams option"
  sp_provider_options :: "ProviderOptions option"

record ResumeParams =
  rp_provider_session_id :: string
  rp_start :: StartParams

record ProviderSessionListParams =
  lp_provider :: Provider
  lp_cwd :: "string option"
  lp_cursor :: "string option"
  lp_limit :: "u32 option"
  lp_active_only :: "bool option"

record ProviderSessionDeleteParams =
  dp_provider :: Provider
  dp_provider_session_id :: string
  dp_cwd :: string

record HistoryParams =
  hp_agent_id :: string
  hp_cursor :: "string option"
  hp_limit :: "u32 option"

record TurnInput =
  ti_text :: string
  ti_attachments :: "json list"

record TurnInputParams =
  tp_queue :: bool
  tp_agent_id :: string
  tp_input :: TurnInput
  tp_provider_options :: "ProviderOptions option"

record ApprovalResponseParams =
  ap_agent_id :: string
  ap_approval_id :: string
  ap_decision :: string
  ap_updated_input :: "json option"
  ap_message :: "string option"

record QuestionResponseParams =
  qp_agent_id :: string
  qp_question_id :: string
  qp_decision :: string
  qp_answers :: "(string \<times> json) list"
  qp_message :: "string option"

record ContextParams =
  cp_agent_id :: string
  cp_context :: json

definition of_client :: "json \<Rightarrow> ClientIdentity option" where
  "of_client v = (case struct_fields [''name'', ''title'', ''version''] v of
     Some [n, t, ver] \<Rightarrow>
       (case (req_field as_str n, opt_field as_str t, req_field as_str ver) of
          (Some n', Some t', Some ver') \<Rightarrow> Some \<lparr>ci_name = n', ci_title = t', ci_version = ver'\<rparr>
        | _ \<Rightarrow> None)
   | _ \<Rightarrow> None)"

definition of_initialize :: "json \<Rightarrow> InitializeParams option" where
  "of_initialize v = (case struct_fields [''protocol_version'', ''client'', ''last_sequence''] v of
     Some [p, c, l] \<Rightarrow>
       (case (req_field of_u32 p, req_field of_client c, opt_field as_u64 l) of
          (Some p', Some c', Some l') \<Rightarrow>
            Some \<lparr>ip_protocol_version = p', ip_client = c', ip_last_sequence = l'\<rparr>
        | _ \<Rightarrow> None)
   | _ \<Rightarrow> None)"

definition of_managed_params :: "json \<Rightarrow> ManagedWorkspaceParams option" where
  "of_managed_params v = (case struct_fields [''repository'', ''task_id'', ''resume''] v of
     Some [r, t, re] \<Rightarrow>
       (case (req_field as_str r, req_field as_str t, def_field False as_bool re) of
          (Some r', Some t', Some re') \<Rightarrow> Some \<lparr>mp_repository = r', mp_task_id = t', mp_resume = re'\<rparr>
        | _ \<Rightarrow> None)
   | _ \<Rightarrow> None)"

definition launch_fields ::
  "json option \<Rightarrow> json option \<Rightarrow> json option \<Rightarrow> json option \<Rightarrow> json option \<Rightarrow> json option \<Rightarrow> StartParams option" where
  "launch_fields p c ws wt mw po =
    (case (req_field of_provider p, opt_field as_str c, opt_field of_strategy ws, opt_field as_str wt,
           opt_field of_managed_params mw, opt_field of_options po) of
       (Some p', Some c', Some ws', Some wt', Some mw', Some po') \<Rightarrow>
         Some \<lparr>sp_provider = p', sp_cwd = c', sp_workspace_strategy = ws', sp_worktree_path = wt',
           sp_managed_workspace = mw', sp_provider_options = po'\<rparr>
     | _ \<Rightarrow> None)"

definition of_start :: "json \<Rightarrow> StartParams option" where
  "of_start v =
    (case struct_fields [''provider'', ''cwd'', ''workspace_strategy'', ''worktree_path'',
        ''managed_workspace'', ''provider_options''] v of
     Some [p, c, ws, wt, mw, po] \<Rightarrow> launch_fields p c ws wt mw po
   | _ \<Rightarrow> None)"

definition of_resume :: "json \<Rightarrow> ResumeParams option" where
  "of_resume v =
    (case struct_fields [''provider'', ''provider_session_id'', ''cwd'', ''workspace_strategy'', ''worktree_path'',
        ''managed_workspace'', ''provider_options''] v of
     Some [p, s, c, ws, wt, mw, po] \<Rightarrow>
       (case (launch_fields p c ws wt mw po, req_field as_str s) of
          (Some start, Some s') \<Rightarrow> Some \<lparr>rp_provider_session_id = s', rp_start = start\<rparr>
        | _ \<Rightarrow> None)
   | _ \<Rightarrow> None)"

definition of_session_list :: "json \<Rightarrow> ProviderSessionListParams option" where
  "of_session_list v = (case struct_fields [''provider'', ''cwd'', ''cursor'', ''limit'', ''active_only''] v of
     Some [p, c, cu, l, a] \<Rightarrow>
       (case (req_field of_provider p, opt_field as_str c, opt_field as_str cu, opt_field of_u32 l,
              opt_field as_bool a) of
          (Some p', Some c', Some cu', Some l', Some a') \<Rightarrow>
            Some \<lparr>lp_provider = p', lp_cwd = c', lp_cursor = cu', lp_limit = l', lp_active_only = a'\<rparr>
        | _ \<Rightarrow> None)
   | _ \<Rightarrow> None)"

definition of_model_list :: "json \<Rightarrow> Provider option" where
  "of_model_list v = (case struct_fields [''provider''] v of Some [p] \<Rightarrow> req_field of_provider p | _ \<Rightarrow> None)"

definition of_session_delete :: "json \<Rightarrow> ProviderSessionDeleteParams option" where
  "of_session_delete v = (case struct_fields [''provider'', ''provider_session_id'', ''cwd''] v of
     Some [p, s, c] \<Rightarrow>
       (case (req_field of_provider p, req_field as_str s, req_field as_str c) of
          (Some p', Some s', Some c') \<Rightarrow>
            Some \<lparr>dp_provider = p', dp_provider_session_id = s', dp_cwd = c'\<rparr>
        | _ \<Rightarrow> None)
   | _ \<Rightarrow> None)"

definition of_workspace_diff :: "json \<Rightarrow> string option" where
  "of_workspace_diff v = (case struct_fields [''cwd''] v of Some [c] \<Rightarrow> req_field as_str c | _ \<Rightarrow> None)"

definition of_history_params :: "json \<Rightarrow> HistoryParams option" where
  "of_history_params v = (case struct_fields [''agent_id'', ''cursor'', ''limit''] v of
     Some [a, c, l] \<Rightarrow>
       (case (req_field as_str a, opt_field as_str c, opt_field of_u32 l) of
          (Some a', Some c', Some l') \<Rightarrow> Some \<lparr>hp_agent_id = a', hp_cursor = c', hp_limit = l'\<rparr>
        | _ \<Rightarrow> None)
   | _ \<Rightarrow> None)"

definition of_turn_input :: "json \<Rightarrow> TurnInput option" where
  "of_turn_input v = (case struct_fields [''text'', ''attachments''] v of
     Some [t, a] \<Rightarrow>
       (case (req_field as_str t, req_field as_array a) of
          (Some t', Some a') \<Rightarrow> Some \<lparr>ti_text = t', ti_attachments = a'\<rparr>
        | _ \<Rightarrow> None)
   | _ \<Rightarrow> None)"

definition of_turn :: "json \<Rightarrow> TurnInputParams option" where
  "of_turn v = (case struct_fields [''queue'', ''agent_id'', ''input'', ''provider_options''] v of
     Some [q, a, i, po] \<Rightarrow>
       (case (def_field False as_bool q, req_field as_str a, req_field of_turn_input i, opt_field of_options po) of
          (Some q', Some a', Some i', Some po') \<Rightarrow>
            Some \<lparr>tp_queue = q', tp_agent_id = a', tp_input = i', tp_provider_options = po'\<rparr>
        | _ \<Rightarrow> None)
   | _ \<Rightarrow> None)"

definition any_value :: "json \<Rightarrow> json option" where
  "any_value v = Some v"

definition of_approval :: "json \<Rightarrow> ApprovalResponseParams option" where
  "of_approval v = (case struct_fields [''agent_id'', ''approval_id'', ''decision'', ''updated_input'', ''message''] v of
     Some [a, i, d, u, m] \<Rightarrow>
       (case (req_field as_str a, req_field as_str i, req_field as_str d, opt_field any_value u, opt_field as_str m) of
          (Some a', Some i', Some d', Some u', Some m') \<Rightarrow>
            Some \<lparr>ap_agent_id = a', ap_approval_id = i', ap_decision = d', ap_updated_input = u', ap_message = m'\<rparr>
        | _ \<Rightarrow> None)
   | _ \<Rightarrow> None)"

definition of_question :: "json \<Rightarrow> QuestionResponseParams option" where
  "of_question v = (case struct_fields [''agent_id'', ''question_id'', ''decision'', ''answers'', ''message''] v of
     Some [a, i, d, an, m] \<Rightarrow>
       (case (req_field as_str a, req_field as_str i, def_field ''answer'' as_str d, req_field as_object an,
              opt_field as_str m) of
          (Some a', Some i', Some d', Some an', Some m') \<Rightarrow>
            Some \<lparr>qp_agent_id = a', qp_question_id = i', qp_decision = d', qp_answers = an', qp_message = m'\<rparr>
        | _ \<Rightarrow> None)
   | _ \<Rightarrow> None)"

definition of_context :: "json \<Rightarrow> ContextParams option" where
  "of_context v = (case struct_fields [''agent_id'', ''context''] v of
     Some [a, c] \<Rightarrow>
       (case (req_field as_str a, req_field any_value c) of
          (Some a', Some c') \<Rightarrow> Some \<lparr>cp_agent_id = a', cp_context = c'\<rparr>
        | _ \<Rightarrow> None)
   | _ \<Rightarrow> None)"

definition of_replay :: "json \<Rightarrow> u64 option" where
  "of_replay v = (case struct_fields [''after_sequence''] v of Some [a] \<Rightarrow> req_field as_u64 a | _ \<Rightarrow> None)"

definition parse_agent_id :: "json \<Rightarrow> string option" where
  "parse_agent_id v =
    filter_opt (\<lambda>i. i \<noteq> [])
      (case struct_fields [''agent_id''] v of Some [a] \<Rightarrow> req_field as_str a | _ \<Rightarrow> None)"

fun valid_answer :: "json \<Rightarrow> bool" where
  "valid_answer (JString a) = (chars_count a \<le> 16384)"
| "valid_answer (JArray as) =
    (length as \<le> 32 \<and> list_all (\<lambda>a. some_and (\<lambda>t. chars_count t \<le> 4096) (as_str a)) as)"
| "valid_answer _ = False"

definition valid_question_answers :: "(string \<times> json) list \<Rightarrow> bool" where
  "valid_question_answers answers = (length answers \<le> 32 \<and> list_all (\<lambda>kv. valid_answer (snd kv)) answers)"

end
