(* ===== verification/BrokerChecks.thy ===== *)
theory BrokerChecks
  imports BrokerParams
begin

text \<open>
  The checks of \<open>embedded.rs\<close> on what a request refers to: directories and worktrees (asked of the
  file system and of Git), editor contexts, provider options, titles and capabilities.
\<close>

section \<open>Directories and worktrees\<close>

definition canonical_directory :: "World \<Rightarrow> string \<Rightarrow> string + string" where
  "canonical_directory w raw =
    (if \<not> is_absolute raw then Inl ''cwd must be absolute''
     else (case w_canonical w raw of
         None \<Rightarrow> Inl ''cwd does not exist''
       | Some canonical \<Rightarrow>
           if w_is_dir w canonical then Inr canonical else Inl ''cwd must identify a directory''))"

definition git_rev_parse_path :: "World \<Rightarrow> string \<Rightarrow> string \<Rightarrow> string option" where
  "git_rev_parse_path w cwd argument =
    (case w_run w ''git'' [''-C'', cwd, ''rev-parse'', argument] of
       RunExited True out _ \<Rightarrow>
         (let raw = trim (from_utf8_lossy out) in
          w_canonical w (if is_absolute raw then raw else path_join cwd raw))
     | _ \<Rightarrow> None)"

definition git_top_level :: "World \<Rightarrow> string \<Rightarrow> string option" where
  "git_top_level w cwd = git_rev_parse_path w cwd ''--show-toplevel''"

definition is_linked_git_worktree :: "World \<Rightarrow> string \<Rightarrow> bool" where
  "is_linked_git_worktree w path =
    (let marker = path_join path ''.git'' in
     case w_stat w marker of
       StatFile len \<Rightarrow>
         len \<le> 8192 \<and>
         (case w_text w marker of
            None \<Rightarrow> False
          | Some contents \<Rightarrow>
              starts_with ''gitdir: '' contents \<and>
              (case (git_top_level w path, git_rev_parse_path w path ''--git-dir'',
                     git_rev_parse_path w path ''--git-common-dir'') of
                 (Some root, Some git_directory, Some common_directory) \<Rightarrow>
                   path_eq root path \<and> \<not> path_eq git_directory common_directory
               | _ \<Rightarrow> False))
     | _ \<Rightarrow> False)"

definition validate_workspace ::
  "World \<Rightarrow> WorkspaceStrategy \<Rightarrow> string option \<Rightarrow> string \<Rightarrow> BrokerMode \<Rightarrow> string + string option" where
  "validate_workspace w strategy worktree_path cwd mode =
    (case strategy of
       Shared \<Rightarrow>
         (case worktree_path of
            None \<Rightarrow> Inr None
          | Some _ \<Rightarrow> Inl ''shared strategy cannot specify worktree_path'')
     | Worktree \<Rightarrow>
         (case worktree_path of
            None \<Rightarrow> Inl ''worktree strategy requires worktree_path''
          | Some raw \<Rightarrow>
              (case canonical_directory w raw of
                 Inl e \<Rightarrow> Inl e
               | Inr worktree \<Rightarrow>
                   if \<not> path_eq worktree cwd then Inl ''worktree_path must equal the agent cwd''
                   else if mode = Durable \<and> \<not> is_linked_git_worktree w worktree
                   then Inl ''durable worktree strategy requires a linked Git worktree''
                   else Inr (Some worktree))))"

definition checkout_identity :: "World \<Rightarrow> WorkspaceStrategy \<Rightarrow> string \<Rightarrow> string" where
  "checkout_identity w strategy cwd =
    (if strategy = Worktree then cwd else unwrap_or cwd (git_top_level w cwd))"

text \<open>Only resuming a saved Codex conversation outside any checkout escapes the shared-checkout policy.\<close>

definition is_codex_directory_resume :: "World \<Rightarrow> Provider \<Rightarrow> SessionLaunch \<Rightarrow> string \<Rightarrow> bool" where
  "is_codex_directory_resume w provider launch cwd =
    (if provider \<noteq> Codex \<or> \<not> (case launch of LaunchResume _ \<Rightarrow> True | _ \<Rightarrow> False) then False
     else if some_and (\<lambda>home. path_starts_with cwd (path_join home ''worktrees'')) (w_home w) then False
     else if list_ex (\<lambda>p. w_stat w (path_join p ''.git'') \<noteq> StatMissing) (ancestors cwd) then False
     else git_top_level w cwd = None)"

section \<open>Editor contexts\<close>

definition canonical_context_path :: "World \<Rightarrow> string \<Rightarrow> string + string" where
  "canonical_context_path w raw =
    (if \<not> is_absolute raw then Inl ''editor context path must be absolute''
     else if w_exists w raw then
       (case w_canonical w raw of
          None \<Rightarrow> Inl ''editor context path could not be resolved''
        | Some p \<Rightarrow> Inr p)
     else
       (case path_parent raw of
          None \<Rightarrow> Inl ''editor context path has no parent''
        | Some parent \<Rightarrow>
            (case w_canonical w parent of
               None \<Rightarrow> Inl ''editor context parent does not exist''
             | Some canonical \<Rightarrow>
                 (case file_name raw of
                    None \<Rightarrow> Inl ''editor context path has no file name''
                  | Some name \<Rightarrow> Inr (path_join canonical name)))))"

definition context_kind_error :: "string \<Rightarrow> json \<Rightarrow> string option" where
  "context_kind_error kind payload =
    (if (kind = ''buffer'' \<or> kind = ''range'') \<and> \<not> some_and is_string (jget ''text'' payload)
     then Some ''buffer and range context require text''
     else if kind = ''diagnostics'' \<and> \<not> some_and is_array (jget ''diagnostics'' payload)
     then Some ''diagnostics context requires a diagnostics array''
     else if kind = ''diff'' \<and> \<not> some_and is_string (jget ''diff'' payload)
     then Some ''diff context requires diff text''
     else None)"

definition known_kind :: "string \<Rightarrow> bool" where
  "known_kind kind = (kind \<in> set [''buffer'', ''range'', ''diagnostics'', ''diff''])"

definition validate_context :: "World \<Rightarrow> (json \<Rightarrow> string) \<Rightarrow> json \<Rightarrow> string \<Rightarrow> string + json" where
  "validate_context w encode context cwd =
    (if \<not> is_object context then Inl ''context must be an object''
     else (case get_str ''kind'' context of
         None \<Rightarrow> Inl ''context.kind must be a non-empty string''
       | Some kind \<Rightarrow>
           if \<not> known_kind kind
           then Inl ''context kind must be buffer, range, diagnostics, or diff''
           else (case filter_opt is_object (jget ''payload'' context) of
               None \<Rightarrow> Inl ''context.payload must be an object''
             | Some payload \<Rightarrow>
                 (case Option.bind (or_else (jget ''path'' payload) (jget ''cwd'' payload)) as_str of
                    None \<Rightarrow> Inl ''editor context must identify its path''
                  | Some raw_path \<Rightarrow>
                      (case canonical_context_path w raw_path of
                         Inl e \<Rightarrow> Inl e
                       | Inr path \<Rightarrow>
                           if \<not> path_starts_with path cwd then Inl ''editor context path escapes the agent cwd''
                           else (case context_kind_error kind payload of
                               Some e \<Rightarrow> Inl e
                             | None \<Rightarrow>
                                 if length (encode context) > MAX_CONTEXT_BYTES
                                 then Inl ''editor context exceeds the size limit'' else Inr context))))))"

definition validate_context_collection :: "(json \<Rightarrow> string) \<Rightarrow> json list \<Rightarrow> string + unit" where
  "validate_context_collection encode contexts =
    (if length contexts > MAX_CONTEXT_ITEMS then Inl ''too many editor context items''
     else if length (encode (JArray contexts)) > MAX_CONTEXT_BYTES
     then Inl ''combined editor context exceeds the size limit'' else Inr ())"

fun validate_contexts :: "World \<Rightarrow> (json \<Rightarrow> string) \<Rightarrow> string \<Rightarrow> json list \<Rightarrow> string + json list" where
  "validate_contexts w encode cwd [] = Inr []"
| "validate_contexts w encode cwd (a # rest) =
    (case validate_context w encode a cwd of
       Inl e \<Rightarrow> Inl e
     | Inr c \<Rightarrow> (case validate_contexts w encode cwd rest of Inl e \<Rightarrow> Inl e | Inr cs \<Rightarrow> Inr (c # cs)))"

definition merge_input_contexts ::
  "World \<Rightarrow> (json \<Rightarrow> string) \<Rightarrow> json list \<Rightarrow> json list \<Rightarrow> string \<Rightarrow> string + json list" where
  "merge_input_contexts w encode pending attachments cwd =
    (case validate_contexts w encode cwd attachments of
       Inl e \<Rightarrow> Inl e
     | Inr cs \<Rightarrow>
         (case validate_context_collection encode (pending @ cs) of
            Inl e \<Rightarrow> Inl e
          | Inr _ \<Rightarrow> Inr (pending @ cs)))"

section \<open>Provider options, titles, capabilities\<close>

definition validate_provider_options :: "Provider \<Rightarrow> ProviderOptions \<Rightarrow> string + unit" where
  "validate_provider_options provider options =
    (if some_and (\<lambda>v. v = [] \<or> length v > 256 \<or> any_control v) (po_model options)
     then Inl ''provider model is invalid''
     else if some_and (\<lambda>v. v = [] \<or> length v > 64 \<or> any_control v) (po_effort options)
     then Inl ''provider effort is invalid''
     else if provider = Claude
       \<and> some_and (\<lambda>v. v \<notin> set [''low'', ''medium'', ''high'', ''xhigh'', ''max'']) (po_effort options)
     then Inl ''Claude effort must be low, medium, high, xhigh, or max''
     else Inr ())"

definition prompt_title :: "string \<Rightarrow> string" where
  "prompt_title prompt =
    (let title = concat (take 96 (utf8_chars (join_with '' '' (take 6 (split_whitespace prompt))))) in
     if title = [] then ''session'' else title)"

definition directory_title :: "string \<Rightarrow> Provider \<Rightarrow> string" where
  "directory_title cwd provider = unwrap_or (show_provider provider) (file_name cwd)"

definition available :: "CapabilityName \<Rightarrow> Capability" where
  "available name = \<lparr>cap_name = name, cap_available = True, cap_reason = None\<rparr>"

definition capabilities :: "Provider \<Rightarrow> Capability list" where
  "capabilities provider = map available
     [Streaming, MultiTurn, History, Resume, Fork, Interrupt, Steer, Approvals, Questions, Usage]
   @ [\<lparr>cap_name = FileChanges, cap_available = True,
       cap_reason = (if provider = Claude
         then Some ''Projected from Claude tool and hook events when paths are supplied'' else None)\<rparr>]
   @ map available [Diff, Replay]"

section \<open>Accepted contexts stay inside the agent's directory\<close>

text \<open>
  C17.  Editor context cannot reach outside the agent's directory.  Whatever a client sends, the
  contexts of an input are the pending ones followed by its attachments unchanged, at most 256 of
  them and at most 512 KiB together; and each attachment is of a known kind, carries the text that
  kind needs, and names an absolute path whose resolved form (or whose parent's, when it does not
  exist yet) lies under the agent's directory.
\<close>

definition context_inside :: "World \<Rightarrow> string \<Rightarrow> json \<Rightarrow> bool" where
  "context_inside w cwd context =
    (\<exists>kind payload raw path below. get_str ''kind'' context = Some kind
       \<and> kind \<in> {''buffer'', ''range'', ''diagnostics'', ''diff''}
       \<and> jget ''payload'' context = Some payload \<and> context_kind_error kind payload = None
       \<and> is_absolute raw \<and> (jget ''path'' payload = Some (JString raw)
            \<or> jget ''path'' payload = None \<and> jget ''cwd'' payload = Some (JString raw))
       \<and> canonical_context_path w raw = Inr path \<and> components path = components cwd @ below)"

lemma validated_context:
  assumes "validate_context w encode context cwd = Inr c"
  shows "c = context \<and> context_inside w cwd context"
proof -
  note unfolded = assms [unfolded validate_context_def]
  obtain kind where k: "get_str ''kind'' context = Some kind" "known_kind kind"
    using unfolded by (cases "get_str ''kind'' context") (simp_all split: if_split_asm)
  obtain payload where p: "jget ''payload'' context = Some payload" "is_object payload"
    using unfolded k by (cases "jget ''payload'' context") (simp_all split: if_split_asm)
  obtain raw where raw: "Option.bind (or_else (jget ''path'' payload) (jget ''cwd'' payload)) as_str = Some raw"
    using unfolded k p
    by (cases "Option.bind (or_else (jget ''path'' payload) (jget ''cwd'' payload)) as_str")
      (simp_all split: if_split_asm)
  obtain path where path: "canonical_context_path w raw = Inr path" "path_starts_with path cwd"
    using unfolded k p raw by (cases "canonical_context_path w raw") (simp_all split: if_split_asm)
  have rest: "context_kind_error kind payload = None" "c = context"
    using unfolded k p raw path
    by (cases "context_kind_error kind payload"; simp split: if_split_asm)+
  have "is_absolute raw"
    using path(1) by (auto simp: canonical_context_path_def split: if_splits)
  moreover have "jget ''path'' payload = Some (JString raw)
      \<or> jget ''path'' payload = None \<and> jget ''cwd'' payload = Some (JString raw)"
    using raw by (cases "jget ''path'' payload") (auto simp: or_else_def Option.bind_eq_Some_conv)
  ultimately show ?thesis
    using k(1) k(2) [unfolded known_kind_def] p path rest path_starts_with_iff [of path cwd]
    unfolding context_inside_def by auto
qed

lemma validated_contexts:
  "validate_contexts w encode cwd as = Inr cs \<Longrightarrow> cs = as \<and> list_all (context_inside w cwd) as"
  by (induction as arbitrary: cs) (auto dest: validated_context split: sum.splits)


definition sample_context :: json where
  "sample_context = jobj [(''kind'', JString ''buffer''),
     (''payload'', jobj [(''path'', JString ''/w/a''), (''text'', JString ''x'')])]"


end
