(* ===== verification/BrokerState.thy ===== *)
theory BrokerState
  imports BrokerChecks Transcript ReplayLog Status Discovery
begin

text \<open>
  The state of the broker (\<open>embedded.rs\<close>) and the small operations all handlers are made of.

  The broker runs as one task that takes one input at a time; a handler is a function on its state.
  What the outside answers while it runs is \<open>be_world\<close>, indexed by a counter that advances whenever
  the broker looks, so that no two looks need agree.  The maps of the code are association lists
  whose order stands for the iteration order; the output channel is the generation of the connection
  it belongs to, and \<open>b_sent\<close> is everything sent so far, in order, with that generation.  An agent's
  command channel is the list of commands its task has accepted.  Agent tasks run concurrently: what
  they report arrives as inputs, in any order.

  A panic (an exhausted 64-bit counter) sets \<open>b_panicked\<close>; nothing after it is observed, because the
  run ends there.
\<close>

datatype ConnectionPhase = AwaitInitialize | AwaitInitialized | Ready

fun mode_name :: "BrokerMode \<Rightarrow> string" where
  "mode_name Embedded = ''embedded''"
| "mode_name Durable = ''durable''"

record EmbeddedConfig =
  ec_runtime :: RuntimeConfig
  ec_workspace :: "string option"
  ec_allow_shared_workspaces :: bool
  ec_replay_capacity :: nat

record PendingRuntimeRequest =
  pq_generation :: u64
  pq_public_id :: RequestId
  pq_history_agent :: "string option"

record QueuedPrompt =
  qd_text :: string
  qd_attachments :: "json list"
  qd_provider_options :: ProviderOptions

record ManagedAgent =
  ma_summary :: AgentSummary
  ma_workspace_identity :: string
  ma_commands :: "AgentCommand list"
  ma_channel_open :: bool
  ma_parked_disconnects :: nat
  ma_task :: bool
  ma_pending_contexts :: "json list"
  ma_queued_prompts :: "QueuedPrompt list"
  ma_pending_questions :: u64
  ma_has_prompted :: bool
  ma_title_from_prompt :: bool
  ma_transcript :: Transcript

record ResolvedWorkspace =
  rw_cwd :: string
  rw_strategy :: WorkspaceStrategy
  rw_worktree_path :: "string option"
  rw_managed :: "ManagedWorkspace option"

record AgentSpawn =
  an_provider :: Provider
  an_agent_id :: string
  an_cwd :: string
  an_start_request_id :: RequestId
  an_launch :: SessionLaunch
  an_provider_options :: ProviderOptions

record Broker =
  b_phase :: ConnectionPhase
  b_mode :: BrokerMode
  b_generation :: u64
  b_cursor :: u64
  b_config :: EmbeddedConfig
  b_agents :: "(string \<times> ManagedAgent) list"
  b_order :: "string list"
  b_replay :: ReplayBuffer
  b_output :: "u64 option"
  b_sent :: "(u64 \<times> json) list"
  b_next_request :: u64
  b_pending :: "(RequestId \<times> PendingRuntimeRequest) list"
  b_queued_requests :: "RequestId list"
  b_registry :: "RegistryStore option"
  b_registry_file :: "string option"
  b_status :: "StatusStore option"
  b_status_file :: "string option"
  b_spawned :: "AgentSpawn list"
  b_ticks :: nat
  b_panicked :: bool

record BrEnv =
  be_world :: "nat \<Rightarrow> World"
  be_codec :: codec
  be_pretty :: "json \<Rightarrow> string"
  be_alnum :: "string \<Rightarrow> bool"

section \<open>Looking outside\<close>

definition now :: "BrEnv \<Rightarrow> Broker \<Rightarrow> World" where
  "now env b = be_world env (b_ticks b)"

definition tick :: "Broker \<Rightarrow> Broker" where
  "tick b = b\<lparr>b_ticks := Suc (b_ticks b)\<rparr>"

section \<open>Messages to the client\<close>

definition send :: "json \<Rightarrow> Broker \<Rightarrow> Broker" where
  "send message b =
    (case b_output b of None \<Rightarrow> b | Some connection \<Rightarrow> b\<lparr>b_sent := b_sent b @ [(connection, message)]\<rparr>)"

definition success_response :: "RequestId \<Rightarrow> json \<Rightarrow> json" where
  "success_response i result =
    jobj [(''jsonrpc'', JString ''2.0''), (''id'', json_of_request_id i), (''result'', result)]"

definition error_object :: "int \<Rightarrow> string \<Rightarrow> json option \<Rightarrow> json" where
  "error_object code message data =
    jobj ([(''code'', jint code), (''message'', JString message)]
      @ (case data of None \<Rightarrow> [] | Some d \<Rightarrow> [(''data'', d)]))"

definition error_response :: "RequestId option \<Rightarrow> int \<Rightarrow> string \<Rightarrow> json option \<Rightarrow> json" where
  "error_response i code message data =
    jobj [(''jsonrpc'', JString ''2.0''), (''id'', jopt json_of_request_id i),
          (''error'', error_object code message data)]"

definition invalid_params :: "RequestId \<Rightarrow> string \<Rightarrow> json" where
  "invalid_params i reason =
    error_response (Some i) (- 32602) ''Invalid params'' (Some (jobj [(''reason'', JString reason)]))"

definition agent_not_found :: "RequestId \<Rightarrow> json" where
  "agent_not_found i = error_response (Some i) (- 32015) ''Agent was not found'' None"

definition notification :: "string \<Rightarrow> json \<Rightarrow> json" where
  "notification name params =
    jobj [(''jsonrpc'', JString ''2.0''), (''method'', JString name), (''params'', params)]"

text \<open>The answers a handler gives itself.\<close>

definition reply :: "RequestId \<Rightarrow> json \<Rightarrow> Broker \<Rightarrow> Broker" where
  "reply i result b = send (success_response i result) b"

definition refuse :: "RequestId \<Rightarrow> int \<Rightarrow> string \<Rightarrow> Broker \<Rightarrow> Broker" where
  "refuse i code message b = send (error_response (Some i) code message None) b"

definition refuse_params :: "RequestId \<Rightarrow> string \<Rightarrow> Broker \<Rightarrow> Broker" where
  "refuse_params i reason b = send (invalid_params i reason) b"

fun style_name :: "Style \<Rightarrow> string" where
  "style_name LabelAssistant = ''label_assistant''"
| "style_name LabelSystem = ''label_system''"
| "style_name MessageUser = ''message_user''"
| "style_name StreamingMark = ''streaming''"
| "style_name Heading = ''heading''"
| "style_name CodeFence = ''code_fence''"
| "style_name Code = ''code''"
| "style_name CodeSpan = ''code_span''"
| "style_name Strong = ''strong''"
| "style_name Emphasis = ''emphasis''"
| "style_name ListMarker = ''list_marker''"
| "style_name Quote = ''quote''"
| "style_name Link = ''link''"
| "style_name Rule = ''rule''"
| "style_name TableBorder = ''table_border''"

definition json_of_span :: "Span \<Rightarrow> json" where
  "json_of_span s = jobj [(''start'', jnat (sp_start s)), (''end'', jnat (sp_end s)),
     (''style'', JString (style_name (sp_style s)))]"

definition json_of_line :: "Line \<Rightarrow> json" where
  "json_of_line l = jobj [(''text'', JString (ln_text l)), (''spans'', JArray (map json_of_span (ln_spans l)))]"

section \<open>Agents\<close>

definition agent_of :: "Broker \<Rightarrow> string \<Rightarrow> ManagedAgent option" where
  "agent_of b i = map_of (b_agents b) i"

definition upd_agent :: "string \<Rightarrow> (ManagedAgent \<Rightarrow> ManagedAgent) \<Rightarrow> Broker \<Rightarrow> Broker" where
  "upd_agent i f b = b\<lparr>b_agents := map (\<lambda>(k, a). if k = i then (k, f a) else (k, a)) (b_agents b)\<rparr>"

definition upd_summary :: "(AgentSummary \<Rightarrow> AgentSummary) \<Rightarrow> ManagedAgent \<Rightarrow> ManagedAgent" where
  "upd_summary f a = a\<lparr>ma_summary := f (ma_summary a)\<rparr>"

text \<open>\<open>agent.summary.updated_at = timestamp()\<close>.\<close>

definition touch :: "BrEnv \<Rightarrow> string \<Rightarrow> Broker \<Rightarrow> Broker" where
  "touch env i b = tick (upd_agent i (upd_summary (\<lambda>s. s\<lparr>as_updated_at := w_stamp (now env b)\<rparr>)) b)"

definition summaries :: "Broker \<Rightarrow> AgentSummary list" where
  "summaries b = map ma_summary (filter_map (agent_of b) (b_order b))"

text \<open>What may be stored about an agent: never a title taken from a prompt.\<close>

definition registry_summary :: "ManagedAgent \<Rightarrow> AgentSummary" where
  "registry_summary a =
    (let s = ma_summary a in
     if ma_title_from_prompt a then s\<lparr>as_title := directory_title (as_cwd s) (as_provider s)\<rparr> else s)"

section \<open>Publishing the state\<close>

definition save_registry :: "BrEnv \<Rightarrow> Broker \<Rightarrow> bool \<times> u64 \<times> Broker" where
  "save_registry env b =
    (case b_registry b of
       None \<Rightarrow> (False, 0, b)
     | Some r \<Rightarrow>
         (case rg_persist (now env b) (be_pretty env) r
             (map registry_summary (filter_map (agent_of b) (b_order b))) (b_registry_file b) of
            (result, contents) \<Rightarrow>
              (\<not> is_ok result, rg_bytes (be_world env (Suc (b_ticks b))) r,
               tick (tick (b\<lparr>b_registry_file := contents\<rparr>)))))"

definition save_status :: "BrEnv \<Rightarrow> bool \<Rightarrow> u64 \<Rightarrow> Broker \<Rightarrow> Broker" where
  "save_status env registry_failed bytes b =
    (case b_status b of
       None \<Rightarrow> b
     | Some s \<Rightarrow>
         (let n = of_nat (length (summaries b)) in
          case (if registry_failed
                then st_failure (now env b) (be_pretty env) s ''registry_persistence_failed'' n bytes (b_status_file b)
                else st_success (now env b) (be_pretty env) s ''running'' n bytes (b_status_file b)) of
            (_, s', contents) \<Rightarrow> tick (b\<lparr>b_status := Some s', b_status_file := contents\<rparr>)))"

definition notify_state :: "BrEnv \<Rightarrow> Broker \<Rightarrow> Broker" where
  "notify_state env b =
    (case save_registry env b of
       (registry_failed, bytes, b1) \<Rightarrow>
         (let b2 = save_status env registry_failed bytes b1 in
          if b_phase b2 = Ready
          then send (notification ''broker/state'' (jobj [(''agents'', JArray (map json_of_summary (summaries b2)))])) b2
          else b2))"

section \<open>Requests to the provider tasks\<close>

definition runtime_request :: "RequestId \<Rightarrow> Broker \<Rightarrow> RequestId \<times> Broker" where
  "runtime_request public_id b =
    (let request_id = String (''broker:'' @ show_nat (unat (b_generation b)) @ '':''
         @ show_nat (unat (b_next_request b))) in
     case checked_add1 (b_next_request b) of
       None \<Rightarrow> (request_id, b\<lparr>b_panicked := True\<rparr>)
     | Some nxt \<Rightarrow>
         (request_id, b\<lparr>b_next_request := nxt,
            b_pending := map_insert request_id
              \<lparr>pq_generation = b_generation b, pq_public_id = public_id, pq_history_agent = None\<rparr> (b_pending b)\<rparr>))"

definition forget_request :: "RequestId \<Rightarrow> Broker \<Rightarrow> Broker" where
  "forget_request i b = b\<lparr>b_pending := map_remove i (b_pending b)\<rparr>"

definition send_runtime_response :: "RequestId \<Rightarrow> (RequestId \<Rightarrow> json) \<Rightarrow> Broker \<Rightarrow> Broker" where
  "send_runtime_response i response b =
    (case map_of (b_pending b) i of
       None \<Rightarrow> b
     | Some pending \<Rightarrow>
         (let b1 = forget_request i b in
          if pq_generation pending = b_generation b1 \<and> b_output b1 \<noteq> None
          then send (response (pq_public_id pending)) b1 else b1))"

text \<open>
  \<open>commands.send(..).await\<close> waits for room and fails only when the task is gone; \<open>try_send\<close> also fails
  when there is no room now.  The channel of a restored agent has no task behind it.
\<close>

definition accept_command :: "string \<Rightarrow> AgentCommand \<Rightarrow> Broker \<Rightarrow> Broker" where
  "accept_command i cmd b = upd_agent i (\<lambda>a. a\<lparr>ma_commands := ma_commands a @ [cmd]\<rparr>) b"

definition channel_open :: "string \<Rightarrow> Broker \<Rightarrow> bool" where
  "channel_open i b = some_and ma_channel_open (agent_of b i)"

definition send_command :: "BrEnv \<Rightarrow> string \<Rightarrow> AgentCommand \<Rightarrow> Broker \<Rightarrow> bool \<times> Broker" where
  "send_command env i cmd b =
    (if channel_open i b \<and> w_alive (now env b) then (True, tick (accept_command i cmd b)) else (False, tick b))"

definition try_command :: "BrEnv \<Rightarrow> string \<Rightarrow> AgentCommand \<Rightarrow> Broker \<Rightarrow> bool \<times> Broker" where
  "try_command env i cmd b =
    (if channel_open i b \<and> w_alive (now env b) \<and> w_room (now env b)
     then (True, tick (accept_command i cmd b)) else (False, tick b))"

text \<open>A notice that finds no room waits in a task of its own.\<close>

definition queue_client_disconnect :: "BrEnv \<Rightarrow> string \<Rightarrow> Broker \<Rightarrow> Broker" where
  "queue_client_disconnect env i b =
    (case try_command env i CmdClientDisconnected b of
       (True, b1) \<Rightarrow> b1
     | (False, b1) \<Rightarrow> upd_agent i (\<lambda>a. a\<lparr>ma_parked_disconnects := Suc (ma_parked_disconnects a)\<rparr>) b1)"

definition send_transcript_patch :: "string \<Rightarrow> Patch \<Rightarrow> Broker \<Rightarrow> Broker" where
  "send_transcript_patch i p b =
    (if b_phase b \<noteq> Ready then b
     else send (notification ''agent/transcript/patch''
       (jobj [(''agent_id'', JString i), (''revision'', ju64 (pa_revision p)), (''start'', jnat (pa_start p)),
              (''end'', jnat (pa_end p)), (''lines'', JArray (map json_of_line (pa_lines p)))])) b)"

definition set_transcript :: "Transcript \<Rightarrow> ManagedAgent \<Rightarrow> ManagedAgent" where
  "set_transcript t a = a\<lparr>ma_transcript := t\<rparr>"

definition record_user_input :: "BrEnv \<Rightarrow> string \<Rightarrow> string \<Rightarrow> Broker \<Rightarrow> Broker" where
  "record_user_input env i text' b =
    (case agent_of b i of
       None \<Rightarrow> b
     | Some a \<Rightarrow>
         (case push_user (be_alnum env) (ma_transcript a) text' of
            (p, t) \<Rightarrow> send_transcript_patch i p (upd_agent i (set_transcript t) b)))"

definition command_channel_failed :: "BrEnv \<Rightarrow> string \<Rightarrow> RequestId \<Rightarrow> Broker \<Rightarrow> Broker" where
  "command_channel_failed env i request_id b =
    (let b1 = (case agent_of b i of None \<Rightarrow> b
         | Some _ \<Rightarrow> upd_agent i (\<lambda>a. a\<lparr>ma_pending_contexts := []\<rparr>)
             (touch env i (upd_agent i (upd_summary (\<lambda>s. s\<lparr>as_state := Disconnected\<rparr>)) b))) in
     notify_state env (refuse request_id (- 32020) ''Provider command channel is unavailable'' b1))"

end
