(* ===== verification/BrokerEvents.thy ===== *)
theory BrokerEvents
  imports BrokerState
begin

text \<open>
  What the broker does with the reports of its provider tasks (\<open>embedded.rs\<close>, from
  \<open>handle_runtime_event\<close> on): events are numbered, kept for replay, sent, applied to the agent's state
  and to its transcript; the end of a turn starts the next queued prompt or cancels the queue.

  In the code \<open>handle_provider_event\<close>, \<open>dispatch_queued_prompt\<close>, \<open>handle_provider_failure\<close> and
  \<open>cancel_queued_prompts\<close> call each other, but the only event a cancellation raises is a notice, which
  ends no turn.  \<open>publish_event\<close> is the common part; \<open>handle_notice\<close> is \<open>handle_provider_event\<close> for such
  an event (lemma \<open>notice_is_handled\<close>), so that no recursion is left.
\<close>

section \<open>The state of an agent\<close>

definition restored_state :: "ManagedAgent \<Rightarrow> AgentState" where
  "restored_state a =
    (if as_pending_approvals (ma_summary a) > 0 then WaitingApproval
     else if ma_pending_questions a > 0 then WaitingInput
     else if as_active_turn_id (ma_summary a) \<noteq> None then Running
     else Idle)"

definition restore_waiting_state :: "ManagedAgent \<Rightarrow> ManagedAgent" where
  "restore_waiting_state a =
    (if as_state (ma_summary a) = Disconnected \<or> as_state (ma_summary a) = Failed then a
     else upd_summary (\<lambda>s. s\<lparr>as_state := restored_state a\<rparr>) a)"

definition started_turn :: "json \<Rightarrow> string option" where
  "started_turn payload =
    Option.bind (or_else (Option.bind (jget ''turn'' payload) (jget ''id'')) (jget ''turnId'' payload)) as_str"

definition completed_state :: "json \<Rightarrow> AgentState" where
  "completed_state payload =
    (if jindex (jindex payload ''turn'') ''status'' = JString ''interrupted''
        \<or> jindex payload ''subtype'' = JString ''interrupted''
     then Interrupted else Completed)"

definition event_state :: "EventEnvelope \<Rightarrow> ManagedAgent \<Rightarrow> ManagedAgent" where
  "event_state event a =
    (if ev_type event = ''turn.started'' then
       upd_summary (\<lambda>s. s\<lparr>as_state := Running, as_active_turn_id := started_turn (ev_payload event)\<rparr>) a
     else if ev_type event = ''turn.completed'' then
       upd_summary (\<lambda>s. s\<lparr>as_state := completed_state (ev_payload event), as_active_turn_id := None\<rparr>) a
     else if ev_type event = ''turn.failed'' then
       upd_summary (\<lambda>s. s\<lparr>as_state := Failed, as_active_turn_id := None\<rparr>) a
     else if ev_type event = ''approval.requested'' then
       upd_summary (\<lambda>s. s\<lparr>as_state := WaitingApproval,
         as_pending_approvals := saturating_add1 (as_pending_approvals s)\<rparr>) a
     else if ev_type event = ''question.requested'' then
       (let a1 = a\<lparr>ma_pending_questions := saturating_add1 (ma_pending_questions a)\<rparr> in
        if as_pending_approvals (ma_summary a1) = 0
        then upd_summary (\<lambda>s. s\<lparr>as_state := WaitingInput\<rparr>) a1 else a1)
     else if ev_type event = ''approval.resolved'' then
       restore_waiting_state (upd_summary (\<lambda>s. s\<lparr>as_pending_approvals := saturating_sub1 (as_pending_approvals s)\<rparr>) a)
     else if ev_type event = ''question.resolved'' then
       restore_waiting_state (a\<lparr>ma_pending_questions := saturating_sub1 (ma_pending_questions a)\<rparr>)
     else a)"

definition state_differs :: "ManagedAgent \<Rightarrow> ManagedAgent \<Rightarrow> bool" where
  "state_differs a a' =
    (as_state (ma_summary a) \<noteq> as_state (ma_summary a')
     \<or> as_active_turn_id (ma_summary a) \<noteq> as_active_turn_id (ma_summary a')
     \<or> as_pending_approvals (ma_summary a) \<noteq> as_pending_approvals (ma_summary a')
     \<or> ma_pending_questions a \<noteq> ma_pending_questions a')"

definition apply_event_state :: "BrEnv \<Rightarrow> EventEnvelope \<Rightarrow> Broker \<Rightarrow> bool \<times> Broker" where
  "apply_event_state env event b =
    (case agent_of b (ev_agent_id event) of
       None \<Rightarrow> (False, b)
     | Some a \<Rightarrow>
         (let b1 = upd_agent (ev_agent_id event) (event_state event) b in
          if state_differs a (event_state event a) then (True, touch env (ev_agent_id event) b1) else (False, b1)))"

section \<open>Publishing an event\<close>

definition push_event :: "EventEnvelope \<Rightarrow> Broker \<Rightarrow> EventEnvelope \<times> Broker" where
  "push_event event b =
    (case rb_push (b_replay b) event of
       None \<Rightarrow> (event, b\<lparr>b_panicked := True\<rparr>)
     | Some (n, r) \<Rightarrow> (event\<lparr>ev_sequence := n\<rparr>, b\<lparr>b_replay := r\<rparr>))"

definition send_event :: "EventEnvelope \<Rightarrow> Broker \<Rightarrow> Broker" where
  "send_event event b = send (notification ''agent/event'' (json_of_event event)) b"

definition send_if_ready :: "EventEnvelope \<Rightarrow> Broker \<Rightarrow> Broker" where
  "send_if_ready event b = (if b_phase b = Ready then send_event event b else b)"

definition is_human_request :: "string \<Rightarrow> bool" where
  "is_human_request t = (t = ''approval.requested'' \<or> t = ''question.requested'')"

definition warn_unattended :: "BrEnv \<Rightarrow> EventEnvelope \<Rightarrow> Broker \<Rightarrow> Broker" where
  "warn_unattended env event b =
    (if b_mode b = Durable \<and> b_phase b \<noteq> Ready \<and> is_human_request (ev_type event)
        \<and> agent_of b (ev_agent_id event) \<noteq> None
     then queue_client_disconnect env (ev_agent_id event) b else b)"

definition update_transcript :: "BrEnv \<Rightarrow> EventEnvelope \<Rightarrow> Broker \<Rightarrow> Broker" where
  "update_transcript env event b =
    (case agent_of b (ev_agent_id event) of
       None \<Rightarrow> b
     | Some a \<Rightarrow>
         (case apply_event (be_alnum env) (ma_transcript a) event (po_model (as_provider_options (ma_summary a))) of
            (p, t) \<Rightarrow>
              (let b1 = upd_agent (ev_agent_id event) (set_transcript t) b in
               case p of None \<Rightarrow> b1 | Some p' \<Rightarrow> send_transcript_patch (ev_agent_id event) p' b1)))"

definition publish_event :: "BrEnv \<Rightarrow> EventEnvelope \<Rightarrow> Broker \<Rightarrow> bool \<times> Broker" where
  "publish_event env event b =
    (case push_event event (warn_unattended env event b) of
       (event', b1) \<Rightarrow>
         (case apply_event_state env event' b1 of
            (changed, b2) \<Rightarrow> (changed, update_transcript env event' (send_if_ready event' b2))))"

definition handle_notice :: "BrEnv \<Rightarrow> EventEnvelope \<Rightarrow> Broker \<Rightarrow> Broker" where
  "handle_notice env event b =
    (case publish_event env event b of (changed, b1) \<Rightarrow> if changed then notify_state env b1 else b1)"

section \<open>Queued prompts and failures\<close>

definition redacted_event :: "json" where
  "redacted_event = jobj [(''kind'', JString ''broker''), (''redacted'', JBool True)]"

definition cancel_queued_prompts :: "BrEnv \<Rightarrow> string \<Rightarrow> Broker \<Rightarrow> Broker" where
  "cancel_queued_prompts env i b =
    (case agent_of b i of
       None \<Rightarrow> b
     | Some a \<Rightarrow>
         (let count = length (ma_queued_prompts a);
              b1 = upd_agent i (\<lambda>a. a\<lparr>ma_queued_prompts := []\<rparr>) b in
          if count > 0
          then handle_notice env (new_event (w_stamp (now env b1)) i (as_provider (ma_summary a)) ''broker.notice''
              (jobj [(''message'', JString (''Cancelled '' @ show_nat count @ '' queued prompt(s)''))])
              redacted_event) (tick b1)
          else b1))"

definition handle_provider_failure :: "BrEnv \<Rightarrow> string \<Rightarrow> string \<Rightarrow> Broker \<Rightarrow> Broker" where
  "handle_provider_failure env i message b =
    (let b1 = cancel_queued_prompts env i b in
     case agent_of b1 i of
       None \<Rightarrow> b1
     | Some a \<Rightarrow>
         (let b2 = upd_agent i (\<lambda>a. a\<lparr>ma_pending_questions := 0\<rparr>)
              (upd_agent i (upd_summary (\<lambda>s. s\<lparr>as_state := Disconnected, as_active_turn_id := None,
                 as_pending_approvals := 0\<rparr>)) b1);
              b3 = upd_agent i (\<lambda>a. a\<lparr>ma_pending_contexts := []\<rparr>) (touch env i b2) in
          case push_event (new_event (w_stamp (now env b3)) i (as_provider (ma_summary a)) ''broker.error''
              (jobj [(''message'', JString message)]) redacted_event) (tick b3) of
            (event, b4) \<Rightarrow> notify_state env (send_if_ready event b4)))"

definition dispatch_queued_prompt :: "BrEnv \<Rightarrow> string \<Rightarrow> Broker \<Rightarrow> Broker" where
  "dispatch_queued_prompt env i b =
    (case agent_of b i of
       None \<Rightarrow> b
     | Some a \<Rightarrow>
         (case ma_queued_prompts a of
            [] \<Rightarrow> b
          | prompt # _ \<Rightarrow>
              (let b1 = upd_agent i (\<lambda>a. a\<lparr>ma_queued_prompts := tl (ma_queued_prompts a)\<rparr>) b;
                   request_id = String (''queued:'' @ show_nat (unat (b_next_request b1))) in
               case checked_add1 (b_next_request b1) of
                 None \<Rightarrow> b1\<lparr>b_panicked := True\<rparr>
               | Some nxt \<Rightarrow>
                   (case try_command env i (CmdPrompt request_id (qd_text prompt) (qd_attachments prompt)
                       (qd_provider_options prompt)) (b1\<lparr>b_next_request := nxt\<rparr>) of
                      (False, b2) \<Rightarrow> handle_provider_failure env i
                        ''Queued prompt could not start; provider command channel unavailable'' b2
                    | (True, b2) \<Rightarrow>
                        touch env i (upd_agent i (upd_summary (\<lambda>s. s\<lparr>as_state := Running,
                            as_provider_options := qd_provider_options prompt\<rparr>))
                          (b2\<lparr>b_queued_requests := List.insert request_id (b_queued_requests b2)\<rparr>))))))"

definition ready_for_next :: "ManagedAgent \<Rightarrow> bool" where
  "ready_for_next a =
    (as_state (ma_summary a) = Completed \<and> as_pending_approvals (ma_summary a) = 0 \<and> ma_pending_questions a = 0)"

definition handle_provider_event :: "BrEnv \<Rightarrow> EventEnvelope \<Rightarrow> Broker \<Rightarrow> Broker" where
  "handle_provider_event env event b =
    (case publish_event env event b of
       (changed, b1) \<Rightarrow>
         (let i = ev_agent_id event;
              b2 = (if ev_type event = ''turn.completed'' then
                  (if some_and ready_for_next (agent_of b1 i) then dispatch_queued_prompt env i b1
                   else cancel_queued_prompts env i b1)
                else if ev_type event = ''turn.failed'' then cancel_queued_prompts env i b1
                else b1) in
          if changed then notify_state env b2 else b2))"

lemma notice_is_handled:
  "ev_type event \<noteq> ''turn.completed'' \<Longrightarrow> ev_type event \<noteq> ''turn.failed'' \<Longrightarrow>
   handle_provider_event env event b = handle_notice env event b"
  by (simp add: handle_provider_event_def handle_notice_def Let_def)

section \<open>Reports of a task\<close>

definition replace_transcript_history :: "BrEnv \<Rightarrow> string \<Rightarrow> json list \<Rightarrow> Broker \<Rightarrow> Broker" where
  "replace_transcript_history env i messages b =
    (case agent_of b i of
       None \<Rightarrow> b
     | Some a \<Rightarrow>
         (case replace_history (be_alnum env) (ma_transcript a) messages (as_provider (ma_summary a))
             (po_model (as_provider_options (ma_summary a))) of
            (p, t) \<Rightarrow> send_transcript_patch i p (upd_agent i (set_transcript t) b)))"

definition history_result :: "RequestId \<Rightarrow> json \<Rightarrow> Broker \<Rightarrow> (string \<times> json list) option" where
  "history_result request_id result b =
    (case Option.bind (map_of (b_pending b) request_id) pq_history_agent of
       None \<Rightarrow> None
     | Some i \<Rightarrow> map_option (\<lambda>messages. (i, messages)) (Option.bind (jget ''messages'' result) as_array))"

definition unqueue_request :: "RequestId \<Rightarrow> Broker \<Rightarrow> Broker" where
  "unqueue_request i b = b\<lparr>b_queued_requests := removeAll i (b_queued_requests b)\<rparr>"

definition handle_runtime_response :: "BrEnv \<Rightarrow> RequestId \<Rightarrow> json \<Rightarrow> Broker \<Rightarrow> Broker" where
  "handle_runtime_response env request_id result b =
    (let b1 = unqueue_request request_id b;
         history = history_result request_id result b1;
         b2 = send_runtime_response request_id (\<lambda>public_id. success_response public_id result) b1 in
     case history of
       None \<Rightarrow> b2
     | Some (i, messages) \<Rightarrow> replace_transcript_history env i messages b2)"

definition is_stale :: "Broker \<Rightarrow> string \<Rightarrow> string \<Rightarrow> string \<times> ManagedAgent \<Rightarrow> bool" where
  "is_stale b agent_id session_id entry =
    (case entry of (i, candidate) \<Rightarrow>
       i \<noteq> agent_id \<and> \<not> ma_task candidate \<and> as_state (ma_summary candidate) = Disconnected
       \<and> Some (as_provider (ma_summary candidate)) = map_option (as_provider \<circ> ma_summary) (agent_of b agent_id)
       \<and> as_provider_session_id (ma_summary candidate) = Some session_id)"

definition remove_agents :: "string list \<Rightarrow> Broker \<Rightarrow> Broker" where
  "remove_agents ids b = b\<lparr>b_agents := filter (\<lambda>(i, _). i \<notin> set ids) (b_agents b),
     b_order := filter (\<lambda>i. i \<notin> set ids) (b_order b)\<rparr>"

definition handle_started ::
  "BrEnv \<Rightarrow> RequestId \<Rightarrow> string \<Rightarrow> string \<Rightarrow> ProviderRuntime \<Rightarrow> Broker \<Rightarrow> Broker" where
  "handle_started env request_id agent_id session_id runtime b =
    (let b1 = remove_agents (map fst (filter (is_stale b agent_id session_id) (b_agents b))) b in
     case agent_of b1 agent_id of
       None \<Rightarrow> b1
     | Some _ \<Rightarrow>
         (let b2 = touch env agent_id (upd_agent agent_id (upd_summary (\<lambda>s.
              s\<lparr>as_provider_session_id := Some session_id, as_runtime := Some runtime, as_state := Idle\<rparr>)) b1);
              summary = map_option (json_of_summary \<circ> ma_summary) (agent_of b2 agent_id) in
          notify_state env (send_runtime_response request_id
            (\<lambda>public_id. success_response public_id (jobj [(''agent'', unwrap_or JNull summary)])) b2)))"

definition fail_agent_now :: "BrEnv \<Rightarrow> string \<Rightarrow> Broker \<Rightarrow> Broker" where
  "fail_agent_now env agent_id b =
    (let b1 = cancel_queued_prompts env agent_id b in
     if agent_of b1 agent_id = None then b1
     else snd (try_command env agent_id CmdShutdown
       (touch env agent_id (upd_agent agent_id (upd_summary (\<lambda>s.
          s\<lparr>as_state := Failed, as_active_turn_id := None\<rparr>)) b1))))"

definition handle_request_failed ::
  "BrEnv \<Rightarrow> RequestId \<Rightarrow> string \<Rightarrow> int \<Rightarrow> string \<Rightarrow> bool \<Rightarrow> Broker \<Rightarrow> Broker" where
  "handle_request_failed env request_id agent_id code message fail_agent b =
    (if request_id \<in> set (b_queued_requests b)
     then handle_provider_failure env agent_id
       ''Queued prompt could not start; queued follow-ups were cancelled'' (unqueue_request request_id b)
     else
       (let b1 = (if fail_agent then fail_agent_now env agent_id b else b);
            b2 = send_runtime_response request_id (\<lambda>public_id. error_response (Some public_id) code message None) b1 in
        if fail_agent then notify_state env b2 else b2))"

definition handle_stopped :: "BrEnv \<Rightarrow> string \<Rightarrow> Broker \<Rightarrow> Broker" where
  "handle_stopped env agent_id b =
    (let b1 = cancel_queued_prompts env agent_id b in
     case agent_of b1 agent_id of
       None \<Rightarrow> b1
     | Some a \<Rightarrow>
         (let b2 = upd_agent agent_id (\<lambda>a. a\<lparr>ma_task := False, ma_pending_contexts := []\<rparr>) b1 in
          if as_state (ma_summary a) \<noteq> Disconnected
          then notify_state env (touch env agent_id (upd_agent agent_id (upd_summary (\<lambda>s.
            s\<lparr>as_state := Disconnected, as_active_turn_id := None\<rparr>)) b2))
          else b2))"

fun handle_runtime_event :: "BrEnv \<Rightarrow> RuntimeEvent \<Rightarrow> Broker \<Rightarrow> Broker" where
  "handle_runtime_event env (EvStarted request_id agent_id session_id runtime) b =
    handle_started env request_id agent_id session_id runtime b"
| "handle_runtime_event env (EvResponse request_id result) b = handle_runtime_response env request_id result b"
| "handle_runtime_event env (EvRequestFailed request_id agent_id code message fail_agent) b =
    handle_request_failed env request_id agent_id code message fail_agent b"
| "handle_runtime_event env (EvProvider event) b = handle_provider_event env event b"
| "handle_runtime_event env (EvProviderFailed agent_id message) b = handle_provider_failure env agent_id message b"
| "handle_runtime_event env (EvStopped agent_id) b = handle_stopped env agent_id b"

end
