(* ===== verification/BrokerRequests.thy ===== *)
theory BrokerRequests
  imports BrokerEvents
begin

text \<open>
  The requests of a client, one handler each (\<open>embedded.rs\<close>, from \<open>list_workspaces\<close> to \<open>replay\<close>).  A
  handler takes the request's identifier and its parameters; it either answers at once or registers
  the request with the provider task that will answer it.
\<close>

section \<open>Workspaces\<close>

definition lifecycle_disabled :: "RequestId \<Rightarrow> Broker \<Rightarrow> Broker" where
  "lifecycle_disabled i b = refuse i (- 32030) ''Managed workspace lifecycle is disabled'' b"

definition list_workspaces :: "BrEnv \<Rightarrow> RequestId \<Rightarrow> Broker \<Rightarrow> Broker" where
  "list_workspaces env i b =
    (case ec_workspace (b_config b) of
       None \<Rightarrow> lifecycle_disabled i b
     | Some program \<Rightarrow>
         (case fst (inventory (now env b) (cd_decode (be_codec env)) program) of
            Inr found \<Rightarrow> reply i (json_of_inventory found) (tick b)
          | Inl e \<Rightarrow> refuse i (- 32030) (workspace_error_text e) (tick b)))"

definition owns_task :: "string \<Rightarrow> string \<Rightarrow> ManagedAgent \<Rightarrow> bool" where
  "owns_task repository task_id a =
    (ma_task a \<and> some_and (\<lambda>m. mw_repository m = repository \<and> mw_task_id m = task_id)
       (as_managed_workspace (ma_summary a)))"

definition any_agent :: "(ManagedAgent \<Rightarrow> bool) \<Rightarrow> Broker \<Rightarrow> bool" where
  "any_agent P b = list_ex (\<lambda>(_, a). P a) (b_agents b)"

definition handoff_workspace :: "BrEnv \<Rightarrow> RequestId \<Rightarrow> json \<Rightarrow> Broker \<Rightarrow> Broker" where
  "handoff_workspace env i params b =
    (case of_managed_params params of
       None \<Rightarrow> refuse_params i ''invalid managed workspace parameters'' b
     | Some p \<Rightarrow>
         if any_agent (owns_task (mp_repository p) (mp_task_id p)) b
         then refuse i (- 32013) ''A live agent still owns this managed task'' b
         else (case ec_workspace (b_config b) of
             None \<Rightarrow> lifecycle_disabled i b
           | Some program \<Rightarrow>
               (case fst (handoff (now env b) program (mp_repository p) (mp_task_id p)) of
                  Inr _ \<Rightarrow> reply i (jobj [(''handed_off'', JBool True), (''repository'', JString (mp_repository p)),
                      (''task_id'', JString (mp_task_id p))]) (tick b)
                | Inl e \<Rightarrow> refuse i (- 32030) (workspace_error_text e) (tick b))))"

section \<open>Sessions and models of a provider\<close>

definition clamp_limit :: "u32 option \<Rightarrow> u32" where
  "clamp_limit l = max 1 (min 1000 (unwrap_or 50 l))"

definition list_provider_sessions :: "BrEnv \<Rightarrow> RequestId \<Rightarrow> json \<Rightarrow> Broker \<Rightarrow> Broker" where
  "list_provider_sessions env i params b =
    (case of_session_list params of
       None \<Rightarrow> refuse_params i ''invalid provider session list parameters'' b
     | Some p \<Rightarrow>
         (case (case lp_cwd p of
                  None \<Rightarrow> Inr None
                | Some raw \<Rightarrow> (case canonical_directory (now env b) raw of Inl e \<Rightarrow> Inl e | Inr d \<Rightarrow> Inr (Some d))) of
            Inl message \<Rightarrow> refuse_params i message (tick b)
          | Inr cwd \<Rightarrow>
              (case fst (discover_sessions (now env (tick b)) (be_codec env) (lp_provider p) cwd (lp_cursor p)
                  (clamp_limit (lp_limit p)) (unwrap_or False (lp_active_only p)) (ec_runtime (b_config b))) of
                 Inr result \<Rightarrow> reply i result (tick (tick b))
               | Inl message \<Rightarrow> refuse i (- 32020) message (tick (tick b)))))"

definition list_provider_models :: "BrEnv \<Rightarrow> RequestId \<Rightarrow> json \<Rightarrow> Broker \<Rightarrow> Broker" where
  "list_provider_models env i params b =
    (case of_model_list params of
       None \<Rightarrow> refuse_params i ''invalid provider model list parameters'' b
     | Some provider \<Rightarrow>
         (case fst (discover_models (now env b) (be_codec env) provider (ec_runtime (b_config b))) of
            Inr result \<Rightarrow> reply i result (tick b)
          | Inl message \<Rightarrow> refuse i (- 32020) message (tick b)))"

definition retire_agent :: "BrEnv \<Rightarrow> string \<Rightarrow> Broker \<Rightarrow> Broker" where
  "retire_agent env i b =
    (case agent_of b i of
       None \<Rightarrow> b
     | Some _ \<Rightarrow>
         (let b1 = snd (send_command env i CmdShutdown b);
              b2 = upd_agent i (\<lambda>a. a\<lparr>ma_task := False\<rparr>) b1;
              b3 = upd_agent i (upd_summary (\<lambda>s. s\<lparr>as_state := Disconnected, as_active_turn_id := None,
                as_pending_approvals := 0\<rparr>)) b2;
              b4 = upd_agent i (\<lambda>a. a\<lparr>ma_pending_questions := 0, ma_pending_contexts := []\<rparr>) b3 in
          notify_state env (touch env i b4)))"

definition matches_session :: "Provider \<Rightarrow> string \<Rightarrow> ManagedAgent \<Rightarrow> bool" where
  "matches_session provider session_id a =
    (as_provider (ma_summary a) = provider \<and> as_provider_session_id (ma_summary a) = Some session_id)"

definition has_human_request :: "ManagedAgent \<Rightarrow> bool" where
  "has_human_request a = (as_pending_approvals (ma_summary a) > 0 \<or> ma_pending_questions a > 0)"

definition is_busy :: "ManagedAgent \<Rightarrow> bool" where
  "is_busy a =
    (as_state (ma_summary a) \<in> set [Starting, Running, WaitingInput, WaitingApproval] \<or> has_human_request a)"

definition same_task :: "ManagedWorkspace \<Rightarrow> ManagedWorkspace \<Rightarrow> bool" where
  "same_task m n = (mw_repository m = mw_repository n \<and> mw_task_id m = mw_task_id n)"

fun distinct_tasks :: "ManagedWorkspace list \<Rightarrow> ManagedWorkspace list \<Rightarrow> ManagedWorkspace list" where
  "distinct_tasks seen [] = seen"
| "distinct_tasks seen (m # ms) =
    distinct_tasks (if list_ex (same_task m) seen then seen else seen @ [m]) ms"

fun handoff_all :: "BrEnv \<Rightarrow> string \<Rightarrow> ManagedWorkspace list \<Rightarrow> Broker \<Rightarrow> WorkspaceError option \<times> Broker" where
  "handoff_all env program [] b = (None, b)"
| "handoff_all env program (m # ms) b =
    (case fst (handoff (now env b) program (mw_repository m) (mw_task_id m)) of
       Inl e \<Rightarrow> (Some e, tick b)
     | Inr _ \<Rightarrow> handoff_all env program ms (tick b))"

fun retire_all :: "BrEnv \<Rightarrow> string list \<Rightarrow> Broker \<Rightarrow> Broker" where
  "retire_all env [] b = b"
| "retire_all env (i # rest) b =
    retire_all env rest (if some_and ma_task (agent_of b i) then retire_agent env i b else b)"

definition finish_delete ::
  "BrEnv \<Rightarrow> RequestId \<Rightarrow> ProviderSessionDeleteParams \<Rightarrow> string \<Rightarrow> string list \<Rightarrow> ManagedWorkspace list \<Rightarrow> Broker \<Rightarrow> Broker" where
  "finish_delete env i p cwd matching managed b =
    (case fst (delete_provider_session (now env b) (be_codec env) (dp_provider p) (dp_provider_session_id p) cwd
        (ec_runtime (b_config b))) of
       Inl message \<Rightarrow> refuse i (- 32020) message (tick b)
     | Inr _ \<Rightarrow>
         notify_state env (reply i (jobj [(''deleted'', JBool True), (''provider'', json_of_provider (dp_provider p)),
             (''provider_session_id'', JString (dp_provider_session_id p)),
             (''workspace_handed_off'', JBool (managed \<noteq> [])), (''worktree_preserved'', JBool True)])
           (remove_agents matching (tick b))))"

definition delete_matching ::
  "BrEnv \<Rightarrow> RequestId \<Rightarrow> ProviderSessionDeleteParams \<Rightarrow> string \<Rightarrow> Broker \<Rightarrow> Broker" where
  "delete_matching env i p cwd b =
    (let matching = filter (\<lambda>a. some_and (matches_session (dp_provider p) (dp_provider_session_id p)) (agent_of b a)) (b_order b);
         managed = distinct_tasks [] (filter_map (\<lambda>a. Option.bind (agent_of b a) (as_managed_workspace \<circ> ma_summary)) matching) in
     if list_ex (\<lambda>a. some_and is_busy (agent_of b a)) matching
     then refuse i (- 32013) ''An agent with active work or a pending human request cannot be deleted'' b
     else if managed = [] then finish_delete env i p cwd matching managed (retire_all env matching b)
     else (case ec_workspace (b_config b) of
         None \<Rightarrow> lifecycle_disabled i b
       | Some program \<Rightarrow>
           (case handoff_all env program managed (retire_all env matching b) of
              (Some e, b1) \<Rightarrow> refuse i (- 32030) (workspace_error_text e) b1
            | (None, b1) \<Rightarrow> finish_delete env i p cwd matching managed b1)))"

definition delete_session :: "BrEnv \<Rightarrow> RequestId \<Rightarrow> json \<Rightarrow> Broker \<Rightarrow> Broker" where
  "delete_session env i params b =
    (case of_session_delete params of
       None \<Rightarrow> refuse_params i ''invalid provider session delete parameters'' b
     | Some p \<Rightarrow>
         if dp_provider_session_id p = [] \<or> length (dp_provider_session_id p) > 1024
         then refuse_params i ''invalid provider session identity'' b
         else (case canonical_directory (now env b) (dp_cwd p) of
             Inl message \<Rightarrow> refuse_params i message (tick b)
           | Inr cwd \<Rightarrow> delete_matching env i p cwd (tick b)))"

section \<open>Starting agents\<close>

definition one_live_agent :: "RequestId \<Rightarrow> Broker \<Rightarrow> Broker" where
  "one_live_agent i b = refuse i (- 32011) ''M2 embedded mode supports one live agent'' b"

definition resolve_managed_workspace ::
  "BrEnv \<Rightarrow> RequestId \<Rightarrow> ManagedWorkspaceParams \<Rightarrow> Broker \<Rightarrow> ResolvedWorkspace option \<times> Broker" where
  "resolve_managed_workspace env i m b =
    (if b_mode b = Embedded \<and> any_agent ma_task b then (None, one_live_agent i b)
     else if any_agent (owns_task (mp_repository m) (mp_task_id m)) b
     then (None, refuse i (- 32012) ''A writable agent already owns this managed task'' b)
     else (case ec_workspace (b_config b) of
         None \<Rightarrow> (None, lifecycle_disabled i b)
       | Some program \<Rightarrow>
           (case fst (claim (now env b) (cd_decode (be_codec env)) program (mp_repository m) (mp_task_id m) (mp_resume m)) of
              Inl e \<Rightarrow> (None, refuse i (- 32030) (workspace_error_text e) (tick b))
            | Inr (path, metadata) \<Rightarrow>
                (case canonical_directory (now env (tick b)) path of
                   Inl message \<Rightarrow> (None, refuse_params i message (tick (tick b)))
                 | Inr cwd \<Rightarrow>
                     (case validate_workspace (now env (tick b)) Worktree (Some path) cwd Durable of
                        Inl message \<Rightarrow> (None, refuse_params i message (tick (tick b)))
                      | Inr worktree_path \<Rightarrow>
                          (Some \<lparr>rw_cwd = cwd, rw_strategy = Worktree, rw_worktree_path = worktree_path,
                             rw_managed = Some metadata\<rparr>, tick (tick b)))))))"

definition resolve_explicit_workspace ::
  "BrEnv \<Rightarrow> RequestId \<Rightarrow> string option \<Rightarrow> WorkspaceStrategy option \<Rightarrow> string option \<Rightarrow> Broker
    \<Rightarrow> ResolvedWorkspace option \<times> Broker" where
  "resolve_explicit_workspace env i raw_cwd strategy worktree_path b =
    (case (raw_cwd, strategy) of
       (Some raw, Some strat) \<Rightarrow>
         (case canonical_directory (now env b) raw of
            Inl message \<Rightarrow> (None, refuse_params i message (tick b))
          | Inr cwd \<Rightarrow>
              (case validate_workspace (now env b) strat worktree_path cwd (b_mode b) of
                 Inl message \<Rightarrow> (None, refuse_params i message (tick b))
               | Inr worktree \<Rightarrow>
                   (Some \<lparr>rw_cwd = cwd, rw_strategy = strat, rw_worktree_path = worktree, rw_managed = None\<rparr>, tick b)))
     | _ \<Rightarrow> (None, refuse_params i ''explicit launches require cwd and workspace_strategy'' b))"

definition resolve_launch_workspace ::
  "BrEnv \<Rightarrow> RequestId \<Rightarrow> StartParams \<Rightarrow> Broker \<Rightarrow> ResolvedWorkspace option \<times> Broker" where
  "resolve_launch_workspace env i p b =
    (case sp_managed_workspace p of
       Some m \<Rightarrow>
         if sp_cwd p \<noteq> None \<or> sp_workspace_strategy p \<noteq> None \<or> sp_worktree_path p \<noteq> None
         then (None, refuse_params i ''managed_workspace cannot be combined with explicit workspace fields'' b)
         else resolve_managed_workspace env i m b
     | None \<Rightarrow> resolve_explicit_workspace env i (sp_cwd p) (sp_workspace_strategy p) (sp_worktree_path p) b)"

text \<open>An agent whose task runs and that is neither disconnected nor failed writes to its checkout.\<close>

definition occupies :: "string \<Rightarrow> ManagedAgent \<Rightarrow> bool" where
  "occupies identity a =
    (ma_task a \<and> as_state (ma_summary a) \<noteq> Disconnected \<and> as_state (ma_summary a) \<noteq> Failed
     \<and> path_eq (ma_workspace_identity a) identity)"

definition new_agent ::
  "string \<Rightarrow> string \<Rightarrow> Provider \<Rightarrow> ResolvedWorkspace \<Rightarrow> ProviderOptions \<Rightarrow> SessionLaunch \<Rightarrow> string \<Rightarrow> ManagedAgent" where
  "new_agent agent_id stamp provider workspace options launch identity =
    \<lparr>ma_summary =
       \<lparr>as_id = agent_id, as_provider = provider, as_provider_session_id = None, as_cwd = rw_cwd workspace,
        as_workspace_strategy = rw_strategy workspace, as_worktree_path = rw_worktree_path workspace,
        as_managed_workspace = rw_managed workspace, as_runtime = None, as_provider_options = options,
        as_title = directory_title (rw_cwd workspace) provider, as_state = Starting,
        as_active_turn_id = None, as_pending_approvals = 0, as_unread_events = 0,
        as_capabilities = capabilities provider, as_created_at = stamp, as_updated_at = stamp\<rparr>,
     ma_workspace_identity = identity, ma_commands = [], ma_channel_open = True, ma_parked_disconnects = 0,
     ma_task = True, ma_pending_contexts = [], ma_queued_prompts = [], ma_pending_questions = 0,
     ma_has_prompted = (launch \<noteq> LaunchStart), ma_title_from_prompt = False, ma_transcript = tr_default\<rparr>"

definition workspace_launch_allowed ::
  "BrEnv \<Rightarrow> Provider \<Rightarrow> ResolvedWorkspace \<Rightarrow> SessionLaunch \<Rightarrow> Broker \<Rightarrow> bool" where
  "workspace_launch_allowed env provider workspace launch b =
    (\<not> (rw_strategy workspace = Shared \<and> \<not> ec_allow_shared_workspaces (b_config b)
        \<and> \<not> is_codex_directory_resume (now env b) provider launch (rw_cwd workspace)))"

definition insert_agent :: "string \<Rightarrow> ManagedAgent \<Rightarrow> Broker \<Rightarrow> Broker" where
  "insert_agent i a b = b\<lparr>b_order := b_order b @ [i], b_agents := map_insert i a (b_agents b)\<rparr>"

definition launch_agent ::
  "BrEnv \<Rightarrow> RequestId \<Rightarrow> Provider \<Rightarrow> ResolvedWorkspace \<Rightarrow> ProviderOptions \<Rightarrow> SessionLaunch \<Rightarrow> Broker
    \<Rightarrow> string option \<times> Broker" where
  "launch_agent env i provider workspace options launch b =
    (if \<not> workspace_launch_allowed env provider workspace launch b
     then (None, refuse i (- 32031) ''Shared-checkout starts are disabled by broker policy'' (tick b))
     else if b_mode b = Embedded \<and> any_agent ma_task b then (None, one_live_agent i (tick b))
     else
       (let b1 = tick b;
            identity = checkout_identity (now env b1) (rw_strategy workspace) (rw_cwd workspace) in
        if any_agent (occupies identity) b1
        then (None, send (error_response (Some i) (- 32012)
            ''A writable agent already owns this checkout; select an isolated worktree''
            (Some (jobj [(''reason'', JString ''shared_checkout_writer_conflict''),
              (''cwd'', JString (rw_cwd workspace)), (''workspace_strategy'', json_of_strategy (rw_strategy workspace))])))
            (tick b1))
        else
          (let b2 = tick b1;
               agent_id = w_uuid (now env b2);
               a = new_agent agent_id (w_stamp (now env b2)) provider workspace options launch identity in
           case runtime_request i (tick b2) of
             (request_id, b3) \<Rightarrow>
               (let b4 = insert_agent agent_id a (b3\<lparr>b_spawned := b_spawned b3 @
                    [\<lparr>an_provider = provider, an_agent_id = agent_id, an_cwd = rw_cwd workspace,
                      an_start_request_id = request_id, an_launch = launch, an_provider_options = options\<rparr>]\<rparr>) in
                (Some agent_id, notify_state env b4)))))"

definition start_with :: "BrEnv \<Rightarrow> RequestId \<Rightarrow> StartParams \<Rightarrow> SessionLaunch \<Rightarrow> Broker \<Rightarrow> Broker" where
  "start_with env i p launch b =
    (let options = unwrap_or default_options (sp_provider_options p) in
     case validate_provider_options (sp_provider p) options of
       Inl message \<Rightarrow> refuse_params i message b
     | Inr _ \<Rightarrow>
         (case resolve_launch_workspace env i p b of
            (None, b1) \<Rightarrow> b1
          | (Some workspace, b1) \<Rightarrow> snd (launch_agent env i (sp_provider p) workspace options launch b1)))"

definition start_agent :: "BrEnv \<Rightarrow> RequestId \<Rightarrow> json \<Rightarrow> SessionLaunch \<Rightarrow> Broker \<Rightarrow> Broker" where
  "start_agent env i params launch b =
    (case of_start params of
       None \<Rightarrow> refuse_params i ''invalid start parameters'' b
     | Some p \<Rightarrow> start_with env i p launch b)"

definition resume_agent :: "BrEnv \<Rightarrow> RequestId \<Rightarrow> json \<Rightarrow> Broker \<Rightarrow> Broker" where
  "resume_agent env i params b =
    (case of_resume params of
       None \<Rightarrow> refuse_params i ''invalid resume parameters'' b
     | Some p \<Rightarrow>
         if rp_provider_session_id p = [] then refuse_params i ''provider session id must not be empty'' b
         else start_with env i (rp_start p) (LaunchResume (rp_provider_session_id p)) b)"

definition fork_agent :: "BrEnv \<Rightarrow> RequestId \<Rightarrow> json \<Rightarrow> Broker \<Rightarrow> Broker" where
  "fork_agent env i params b =
    (case parse_agent_id params of
       None \<Rightarrow> refuse_params i ''invalid agent id parameters'' b
     | Some source_id \<Rightarrow>
         (case agent_of b source_id of
            None \<Rightarrow> send (agent_not_found i) b
          | Some source \<Rightarrow>
              if as_state (ma_summary source) \<notin> set [Idle, Completed, Interrupted] \<or> has_human_request source
              then refuse i (- 32013) ''Agent must be idle with no pending human request before it can be forked'' b
              else (case as_provider_session_id (ma_summary source) of
                  None \<Rightarrow> refuse i (- 32013) ''Agent has no provider session identity to fork'' b
                | Some session_id \<Rightarrow>
                    (let s = ma_summary source;
                         workspace = \<lparr>rw_cwd = as_cwd s, rw_strategy = as_workspace_strategy s,
                           rw_worktree_path = as_worktree_path s, rw_managed = as_managed_workspace s\<rparr> in
                     case launch_agent env i (as_provider s) workspace (as_provider_options s)
                         (LaunchFork session_id) (retire_agent env source_id b) of
                       (None, b1) \<Rightarrow> b1
                     | (Some agent_id, b1) \<Rightarrow>
                         upd_agent agent_id (\<lambda>a. a\<lparr>ma_pending_contexts := ma_pending_contexts source\<rparr>) b1))))"

definition attach_agent :: "RequestId \<Rightarrow> json \<Rightarrow> Broker \<Rightarrow> Broker" where
  "attach_agent i params b =
    (case parse_agent_id params of
       None \<Rightarrow> refuse_params i ''invalid agent id parameters'' b
     | Some agent_id \<Rightarrow>
         (case agent_of b agent_id of
            None \<Rightarrow> send (agent_not_found i) b
          | Some a \<Rightarrow> reply i (jobj [(''agent'', json_of_summary (ma_summary a))]) b))"

definition archive_agent :: "BrEnv \<Rightarrow> RequestId \<Rightarrow> json \<Rightarrow> Broker \<Rightarrow> Broker" where
  "archive_agent env i params b =
    (case parse_agent_id params of
       None \<Rightarrow> refuse_params i ''invalid agent id parameters'' b
     | Some agent_id \<Rightarrow>
         (case agent_of b agent_id of
            None \<Rightarrow> send (agent_not_found i) b
          | Some a \<Rightarrow>
              if is_busy a
              then refuse i (- 32013) ''Only an inactive agent with no pending human request can be archived'' b
              else
                (let b1 = (if ma_task a then retire_agent env agent_id b else b) in
                 notify_state env (reply i (jobj [(''archived'', JBool True), (''agent_id'', JString agent_id)])
                   (remove_agents [agent_id] b1)))))"

end
