(* ===== verification/BrokerInputs.thy ===== *)
theory BrokerInputs
  imports BrokerRequests
begin

text \<open>
  The requests of a client that concern a running agent (\<open>embedded.rs\<close>): prompts and steering, the
  prompt queue, interrupts, answers to human requests, editor contexts, diffs, history, transcript
  and replay.
\<close>

datatype InputKind = InPrompt | InSteer

definition input_provider_options ::
  "ManagedAgent \<Rightarrow> ProviderOptions option \<Rightarrow> InputKind \<Rightarrow> string + ProviderOptions" where
  "input_provider_options a requested kind =
    (let current = as_provider_options (ma_summary a); options = unwrap_or current requested in
     case validate_provider_options (as_provider (ma_summary a)) options of
       Inl e \<Rightarrow> Inl e
     | Inr _ \<Rightarrow>
         if kind = InSteer \<and> options \<noteq> current
         then Inl ''provider options apply to ordinary prompts, not active-turn steering'' else Inr options)"

definition MAX_QUEUED_PROMPTS :: nat where "MAX_QUEUED_PROMPTS = 32"

definition channel_gone :: "BrEnv \<Rightarrow> string \<Rightarrow> RequestId \<Rightarrow> Broker \<Rightarrow> Broker" where
  "channel_gone env agent_id i b =
    notify_state env (refuse i (- 32020) ''Provider command channel is unavailable''
      (touch env agent_id (upd_agent agent_id (upd_summary (\<lambda>s. s\<lparr>as_state := Disconnected\<rparr>)) b)))"

definition begin_prompt :: "BrEnv \<Rightarrow> string \<Rightarrow> QueuedPrompt \<Rightarrow> Broker \<Rightarrow> Broker" where
  "begin_prompt env agent_id input b =
    touch env agent_id (upd_agent agent_id (\<lambda>a.
      (let a1 = upd_summary (\<lambda>s. s\<lparr>as_state := Running, as_provider_options := qd_provider_options input\<rparr>) a in
       if ma_has_prompted a then a1
       else
         (let a2 = a1\<lparr>ma_has_prompted := True\<rparr> in
          if as_managed_workspace (ma_summary a2) = None
          then (upd_summary (\<lambda>s. s\<lparr>as_title := prompt_title (qd_text input)\<rparr>) a2)\<lparr>ma_title_from_prompt := True\<rparr>
          else a2))) b)"

definition input_command :: "InputKind \<Rightarrow> RequestId \<Rightarrow> QueuedPrompt \<Rightarrow> AgentCommand" where
  "input_command kind request_id input =
    (case kind of
       InPrompt \<Rightarrow> CmdPrompt request_id (qd_text input) (qd_attachments input) (qd_provider_options input)
     | InSteer \<Rightarrow> CmdSteer request_id (qd_text input) (qd_attachments input))"

definition dispatch_agent_input ::
  "BrEnv \<Rightarrow> RequestId \<Rightarrow> string \<Rightarrow> QueuedPrompt \<Rightarrow> InputKind \<Rightarrow> Broker \<Rightarrow> Broker" where
  "dispatch_agent_input env i agent_id input kind b =
    (let b1 = (if kind = InPrompt then begin_prompt env agent_id input b else b) in
     case runtime_request i b1 of
       (request_id, b2) \<Rightarrow>
         (case send_command env agent_id (input_command kind request_id input) b2 of
            (False, b3) \<Rightarrow> channel_gone env agent_id i (forget_request request_id b3)
          | (True, b3) \<Rightarrow>
              (let b4 = record_user_input env agent_id (qd_text input) b3 in
               if kind = InPrompt then notify_state env b4 else b4)))"

definition wants_queue :: "InputKind \<Rightarrow> TurnInputParams \<Rightarrow> ManagedAgent \<Rightarrow> bool" where
  "wants_queue kind p a =
    (tp_queue p \<and> kind = InPrompt \<and> as_state (ma_summary a) \<in> set [Running, WaitingInput, WaitingApproval])"

definition input_allowed :: "InputKind \<Rightarrow> TurnInputParams \<Rightarrow> ManagedAgent \<Rightarrow> bool" where
  "input_allowed kind p a =
    (case kind of
       InPrompt \<Rightarrow> wants_queue kind p a \<or> as_state (ma_summary a) \<in> set [Idle, Completed, Interrupted]
     | InSteer \<Rightarrow> as_state (ma_summary a) = Running)"

definition queue_prompt :: "RequestId \<Rightarrow> string \<Rightarrow> ManagedAgent \<Rightarrow> QueuedPrompt \<Rightarrow> Broker \<Rightarrow> Broker" where
  "queue_prompt i agent_id a input b =
    reply i (jobj [(''accepted'', JBool True), (''queued'', JBool True),
        (''position'', jnat (Suc (length (ma_queued_prompts a))))])
      (upd_agent agent_id (\<lambda>a. a\<lparr>ma_queued_prompts := ma_queued_prompts a @ [input]\<rparr>) b)"

definition accept_input ::
  "BrEnv \<Rightarrow> RequestId \<Rightarrow> TurnInputParams \<Rightarrow> InputKind \<Rightarrow> ManagedAgent \<Rightarrow> ProviderOptions \<Rightarrow> Broker \<Rightarrow> Broker" where
  "accept_input env i p kind a options b =
    (if \<not> input_allowed kind p a then refuse i (- 32013) ''Agent state does not allow this input'' b
     else if wants_queue kind p a \<and> length (ma_queued_prompts a) \<ge> MAX_QUEUED_PROMPTS
     then refuse i (- 32013) ''Prompt queue is full (32 pending)'' b
     else (case merge_input_contexts (now env b) (cd_encode (be_codec env)) (ma_pending_contexts a)
         (ti_attachments (tp_input p)) (as_cwd (ma_summary a)) of
         Inl message \<Rightarrow> refuse_params i message (tick b)
       | Inr attachments \<Rightarrow>
           (let input = \<lparr>qd_text = ti_text (tp_input p), qd_attachments = attachments, qd_provider_options = options\<rparr>;
                b1 = upd_agent (tp_agent_id p) (\<lambda>a. a\<lparr>ma_pending_contexts := []\<rparr>) (tick b) in
            if wants_queue kind p a then queue_prompt i (tp_agent_id p) a input b1
            else dispatch_agent_input env i (tp_agent_id p) input kind b1)))"

definition send_agent_input :: "BrEnv \<Rightarrow> RequestId \<Rightarrow> json \<Rightarrow> InputKind \<Rightarrow> Broker \<Rightarrow> Broker" where
  "send_agent_input env i params kind b =
    (case of_turn params of
       None \<Rightarrow> refuse_params i ''invalid turn input parameters'' b
     | Some p \<Rightarrow>
         if ti_text (tp_input p) = [] then refuse_params i ''input text must not be empty'' b
         else (case agent_of b (tp_agent_id p) of
             None \<Rightarrow> send (agent_not_found i) b
           | Some a \<Rightarrow>
               (case input_provider_options a (tp_provider_options p) kind of
                  Inl message \<Rightarrow> refuse_params i message b
                | Inr options \<Rightarrow> accept_input env i p kind a options b)))"

section \<open>Interrupts, history and answers\<close>

definition interrupt_agent :: "BrEnv \<Rightarrow> RequestId \<Rightarrow> json \<Rightarrow> Broker \<Rightarrow> Broker" where
  "interrupt_agent env i params b =
    (case parse_agent_id params of
       None \<Rightarrow> refuse_params i ''invalid agent id parameters'' b
     | Some agent_id \<Rightarrow>
         (let b1 = cancel_queued_prompts env agent_id b in
          case agent_of b1 agent_id of
            None \<Rightarrow> send (agent_not_found i) b1
          | Some _ \<Rightarrow>
              (case runtime_request i b1 of
                 (request_id, b2) \<Rightarrow>
                   (case send_command env agent_id (CmdInterrupt request_id) b2 of
                      (False, b3) \<Rightarrow> channel_gone env agent_id i (forget_request request_id b3)
                    | (True, b3) \<Rightarrow> b3))))"

definition mark_history :: "RequestId \<Rightarrow> string \<Rightarrow> Broker \<Rightarrow> Broker" where
  "mark_history request_id agent_id b =
    b\<lparr>b_pending := map (\<lambda>(k, p). if k = request_id then (k, p\<lparr>pq_history_agent := Some agent_id\<rparr>) else (k, p))
       (b_pending b)\<rparr>"

definition history_request :: "BrEnv \<Rightarrow> RequestId \<Rightarrow> json \<Rightarrow> Broker \<Rightarrow> Broker" where
  "history_request env i params b =
    (case of_history_params params of
       None \<Rightarrow> refuse_params i ''invalid history parameters'' b
     | Some p \<Rightarrow>
         (case agent_of b (hp_agent_id p) of
            None \<Rightarrow> send (agent_not_found i) b
          | Some a \<Rightarrow>
              if \<not> ma_task a
              then refuse i (- 32013) ''Agent is not live; resume the provider session before reading history'' b
              else (case runtime_request i b of
                  (request_id, b1) \<Rightarrow>
                    (case send_command env (hp_agent_id p) (CmdHistory request_id (hp_cursor p) (hp_limit p))
                        (mark_history request_id (hp_agent_id p) b1) of
                       (False, b2) \<Rightarrow> command_channel_failed env (hp_agent_id p) i (forget_request request_id b2)
                     | (True, b2) \<Rightarrow> b2))))"

definition answer_command ::
  "BrEnv \<Rightarrow> RequestId \<Rightarrow> string \<Rightarrow> (RequestId \<Rightarrow> AgentCommand) \<Rightarrow> Broker \<Rightarrow> Broker" where
  "answer_command env i agent_id cmd b =
    (case agent_of b agent_id of
       None \<Rightarrow> send (agent_not_found i) b
     | Some _ \<Rightarrow>
         (case runtime_request i b of
            (request_id, b1) \<Rightarrow>
              (case send_command env agent_id (cmd request_id) b1 of
                 (False, b2) \<Rightarrow> command_channel_failed env agent_id i (forget_request request_id b2)
               | (True, b2) \<Rightarrow> b2)))"

definition too_long_message :: "string option \<Rightarrow> bool" where
  "too_long_message m = some_and (\<lambda>t. chars_count t > 4096) m"

definition respond_approval :: "BrEnv \<Rightarrow> RequestId \<Rightarrow> json \<Rightarrow> Broker \<Rightarrow> Broker" where
  "respond_approval env i params b =
    (case of_approval params of
       None \<Rightarrow> refuse_params i ''invalid approval response'' b
     | Some p \<Rightarrow>
         if ap_decision p \<notin> set [''allow'', ''deny'', ''defer''] then refuse_params i ''invalid approval decision'' b
         else if ap_agent_id p = [] \<or> ap_approval_id p = []
           \<or> some_and (\<lambda>v. \<not> is_object v) (ap_updated_input p) \<or> too_long_message (ap_message p)
         then refuse_params i ''invalid approval response'' b
         else answer_command env i (ap_agent_id p) (\<lambda>request_id.
           CmdApproval request_id (ap_approval_id p) (ap_decision p) (ap_updated_input p) (ap_message p)) b)"

definition respond_question :: "BrEnv \<Rightarrow> RequestId \<Rightarrow> json \<Rightarrow> Broker \<Rightarrow> Broker" where
  "respond_question env i params b =
    (case of_question params of
       None \<Rightarrow> refuse_params i ''invalid question response'' b
     | Some p \<Rightarrow>
         if qp_decision p \<notin> set [''answer'', ''deny''] then refuse_params i ''invalid question decision'' b
         else if qp_agent_id p = [] \<or> qp_question_id p = [] \<or> \<not> valid_question_answers (qp_answers p)
           \<or> too_long_message (qp_message p)
         then refuse_params i ''invalid question response'' b
         else answer_command env i (qp_agent_id p) (\<lambda>request_id.
           CmdQuestion request_id (qp_question_id p) (qp_decision p) (qp_answers p) (qp_message p)) b)"

section \<open>Contexts, diffs, transcript, replay\<close>

definition queue_context :: "BrEnv \<Rightarrow> RequestId \<Rightarrow> string \<Rightarrow> ManagedAgent \<Rightarrow> json \<Rightarrow> Broker \<Rightarrow> Broker" where
  "queue_context env i agent_id a context b =
    (let contexts = ma_pending_contexts a @ [context] in
     case validate_context_collection (cd_encode (be_codec env)) contexts of
       Inl message \<Rightarrow> refuse_params i message b
     | Inr _ \<Rightarrow>
         reply i (jobj [(''queued'', JBool True), (''count'', jnat (length contexts)), (''context'', context)])
           (upd_agent agent_id (\<lambda>a. a\<lparr>ma_pending_contexts := contexts\<rparr>) b))"

definition add_context :: "BrEnv \<Rightarrow> RequestId \<Rightarrow> json \<Rightarrow> Broker \<Rightarrow> Broker" where
  "add_context env i params b =
    (case of_context params of
       None \<Rightarrow> refuse_params i ''invalid editor context'' b
     | Some p \<Rightarrow>
         (case agent_of b (cp_agent_id p) of
            None \<Rightarrow> send (agent_not_found i) b
          | Some a \<Rightarrow>
              if \<not> ma_task a \<or> as_state (ma_summary a) = Disconnected
              then refuse i (- 32013) ''Editor context requires a live agent'' b
              else (case validate_context (now env b) (cd_encode (be_codec env)) (cp_context p) (as_cwd (ma_summary a)) of
                  Inl message \<Rightarrow> refuse_params i message (tick b)
                | Inr context \<Rightarrow> queue_context env i (cp_agent_id p) a context (tick b))))"

definition diff_directory :: "BrEnv \<Rightarrow> RequestId \<Rightarrow> string \<Rightarrow> Broker \<Rightarrow> Broker" where
  "diff_directory env i cwd b =
    (case w_run (now env b) ''git'' [''-C'', cwd, ''diff'', ''--no-ext-diff'', ''--no-textconv'', ''--''] of
       RunExited success out _ \<Rightarrow>
         if \<not> success then refuse i (- 32020) ''Workspace diff is unavailable for this directory'' (tick b)
         else reply i (jobj [(''cwd'', JString cwd), (''diff'', JString (from_utf8_lossy (take MAX_DIFF_BYTES out))),
             (''truncated'', JBool (length out > MAX_DIFF_BYTES))]) (tick b)
     | _ \<Rightarrow> refuse i (- 32020) ''Workspace diff timed out or could not be started'' (tick b))"

definition workspace_diff :: "BrEnv \<Rightarrow> RequestId \<Rightarrow> json \<Rightarrow> Broker \<Rightarrow> Broker" where
  "workspace_diff env i params b =
    (case of_workspace_diff params of
       None \<Rightarrow> refuse_params i ''invalid workspace diff parameters'' b
     | Some raw \<Rightarrow>
         (case canonical_directory (now env b) raw of
            Inl message \<Rightarrow> refuse_params i message (tick b)
          | Inr cwd \<Rightarrow> diff_directory env i cwd (tick b)))"

definition agent_diff :: "BrEnv \<Rightarrow> RequestId \<Rightarrow> json \<Rightarrow> Broker \<Rightarrow> Broker" where
  "agent_diff env i params b =
    (case parse_agent_id params of
       None \<Rightarrow> refuse_params i ''invalid agent id parameters'' b
     | Some agent_id \<Rightarrow>
         (case agent_of b agent_id of
            None \<Rightarrow> send (agent_not_found i) b
          | Some a \<Rightarrow> diff_directory env i (as_cwd (ma_summary a)) b))"

definition transcript_request :: "RequestId \<Rightarrow> json \<Rightarrow> Broker \<Rightarrow> Broker" where
  "transcript_request i params b =
    (case parse_agent_id params of
       None \<Rightarrow> refuse_params i ''invalid agent id parameters'' b
     | Some agent_id \<Rightarrow>
         (case agent_of b agent_id of
            None \<Rightarrow> send (agent_not_found i) b
          | Some a \<Rightarrow>
              reply i (jobj [(''agent_id'', JString agent_id), (''revision'', ju64 (tr_revision (ma_transcript a))),
                (''lines'', JArray (map json_of_line (tr_lines (ma_transcript a))))]) b))"

definition replay_request :: "RequestId \<Rightarrow> json \<Rightarrow> Broker \<Rightarrow> Broker" where
  "replay_request i params b =
    (case of_replay params of
       None \<Rightarrow> refuse_params i ''invalid replay parameters'' b
     | Some after_sequence \<Rightarrow>
         (case rb_replay_after (b_replay b) after_sequence of
            Events events \<Rightarrow> reply i (jobj [(''events'', JArray (map json_of_event events))]) b
          | ResyncRequired oldest latest \<Rightarrow>
              send (error_response (Some i) (- 32014) ''Replay cursor is outside the retained window''
                (Some (jobj [(''oldest'', ju64 oldest), (''latest'', ju64 latest)]))) b))"

end
