(* ===== verification/BrokerConn.thy ===== *)
theory BrokerConn
  imports BrokerInputs
begin

text \<open>
  Connections (\<open>embedded.rs\<close>: \<open>Broker::new\<close>, \<open>run\<close>, \<open>connect\<close>, \<open>disconnect\<close> and the dispatch of
  frames): the handshake, the dispatch of requests, and the loop that takes client inputs and
  provider reports in the order they arrive.
\<close>

section \<open>Starting\<close>

definition restored_agent :: "World \<Rightarrow> AgentSummary \<Rightarrow> ManagedAgent" where
  "restored_agent w s =
    \<lparr>ma_summary = s\<lparr>as_capabilities := capabilities (as_provider s)\<rparr>,
     ma_workspace_identity = checkout_identity w (as_workspace_strategy s) (as_cwd s),
     ma_commands = [], ma_channel_open = False, ma_parked_disconnects = 0, ma_task = False,
     ma_pending_contexts = [], ma_queued_prompts = [], ma_pending_questions = 0, ma_has_prompted = True,
     ma_title_from_prompt = False, ma_transcript = tr_default\<rparr>"

fun restore_all :: "World \<Rightarrow> AgentSummary list \<Rightarrow> (string \<times> ManagedAgent) list \<Rightarrow> (string \<times> ManagedAgent) list" where
  "restore_all w [] agents = agents"
| "restore_all w (s # rest) agents = restore_all w rest (map_insert (as_id s) (restored_agent w s) agents)"

definition broker_new ::
  "World \<Rightarrow> EmbeddedConfig \<Rightarrow> BrokerMode \<Rightarrow> RegistryStore option \<Rightarrow> string option \<Rightarrow> AgentSummary list
    \<Rightarrow> StatusStore option \<Rightarrow> string option \<Rightarrow> Broker option" where
  "broker_new w config mode registry registry_file agents status status_file =
    (case rb_new (ec_replay_capacity config) of
       None \<Rightarrow> None
     | Some replay \<Rightarrow> Some
         \<lparr>b_phase = AwaitInitialize, b_mode = mode, b_generation = 0, b_cursor = 0, b_config = config,
          b_agents = restore_all w agents [], b_order = map as_id agents, b_replay = replay,
          b_output = None, b_sent = [], b_next_request = 1, b_pending = [], b_queued_requests = [],
          b_registry = registry, b_registry_file = registry_file, b_status = status,
          b_status_file = status_file, b_spawned = [], b_ticks = 0, b_panicked = False\<rparr>)"

section \<open>The handshake\<close>

definition TESTED_CLAUDE_SDK_VERSION :: string where "TESTED_CLAUDE_SDK_VERSION = ''0.2.158''"
definition TESTED_CLAUDE_CODE_VERSION :: string where "TESTED_CLAUDE_CODE_VERSION = ''2.1.280''"

definition initialize_result :: "bool \<Rightarrow> Broker \<Rightarrow> json" where
  "initialize_result resync_required b =
    jobj [
      (''protocol_version'', JNum (PosInt (ucast PROTOCOL_VERSION))),
      (''protocol_revision'', JNum (PosInt (ucast PROTOCOL_REVISION))),
      (''broker_version'', JString BROKER_VERSION), (''mode'', JString (mode_name (b_mode b))),
      (''providers'', jobj [
        (''codex'', jobj [(''compatibility_profile'', JString CODEX_COMPATIBILITY_PROFILE),
          (''schema_baseline_version'', JString CODEX_SCHEMA_BASELINE_VERSION)]),
        (''claude'', jobj [(''compatibility_profile'', JString CLAUDE_COMPATIBILITY_PROFILE),
          (''tested_agent_sdk_version'', JString TESTED_CLAUDE_SDK_VERSION),
          (''tested_claude_code_version'', JString TESTED_CLAUDE_CODE_VERSION)])]),
      (''replay'', jobj [(''capacity'', jnat (ec_replay_capacity (b_config b))),
        (''oldest'', jopt ju64 (map_option fst (rb_bounds (b_replay b)))),
        (''latest'', jopt ju64 (map_option snd (rb_bounds (b_replay b)))),
        (''resync_required'', JBool resync_required)]),
      (''registry'', jobj [(''path'', jopt JString (map_option rg_path (b_registry b))), (''metadata_only'', JBool True)]),
      (''workspaces'', jobj [(''managed_tasks'', JBool (ec_workspace (b_config b) \<noteq> None)),
        (''shared_starts'', JBool (ec_allow_shared_workspaces (b_config b))),
        (''authority'', JString ''external_lifecycle''), (''destructive_controls'', JBool False)]),
      (''provider_sessions'', jobj [(''delete'', JBool True), (''worktree_preserved'', JBool True)])]"

definition greet :: "u64 \<Rightarrow> Broker \<Rightarrow> Broker" where
  "greet cursor b = b\<lparr>b_phase := AwaitInitialized, b_cursor := cursor\<rparr>"

definition broker_initialize :: "RequestId \<Rightarrow> json \<Rightarrow> Broker \<Rightarrow> Broker" where
  "broker_initialize i params b =
    (case of_initialize params of
       None \<Rightarrow> refuse_params i ''invalid initialize parameters'' b
     | Some p \<Rightarrow>
         if ip_protocol_version p \<noteq> PROTOCOL_VERSION \<or> ci_name (ip_client p) = [] \<or> ci_version (ip_client p) = []
         then refuse_params i ''unsupported protocol or empty client identity'' b
         else
           (let cursor = unwrap_or 0 (ip_last_sequence p);
                resync_required = (b_mode b = Durable
                  \<and> (case rb_replay_after (b_replay b) cursor of ResyncRequired _ _ \<Rightarrow> True | Events _ \<Rightarrow> False));
                cursor' = (if resync_required then unwrap_or cursor (map_option snd (rb_bounds (b_replay b))) else cursor);
                b1 = greet cursor' b in
            reply i (initialize_result resync_required b1) b1))"

fun send_events :: "EventEnvelope list \<Rightarrow> Broker \<Rightarrow> Broker" where
  "send_events [] b = b"
| "send_events (e # es) b = send_events es (send_event e b)"

definition open_session :: "Broker \<Rightarrow> Broker" where
  "open_session b =
    (let b1 = b\<lparr>b_phase := Ready\<rparr> in
     if b_mode b1 = Durable then
       (case rb_replay_after (b_replay b1) (b_cursor b1) of
          Events events \<Rightarrow> send_events events b1
        | ResyncRequired _ _ \<Rightarrow> b1)
     else b1)"

definition handle_notification :: "BrEnv \<Rightarrow> string \<Rightarrow> json \<Rightarrow> Broker \<Rightarrow> Broker" where
  "handle_notification env name params b =
    (if b_phase b = AwaitInitialized \<and> name = ''initialized'' \<and> as_object params = Some []
     then notify_state env (open_session b)
     else b)"

section \<open>Requests\<close>

text \<open>The flag tells the loop to end.\<close>

definition shutdown_request :: "RequestId \<Rightarrow> json \<Rightarrow> Broker \<Rightarrow> bool \<times> Broker" where
  "shutdown_request i params b =
    (if as_object params \<noteq> Some [] then (False, refuse_params i ''params must be empty'' b)
     else if b_mode b = Durable
     then (False, refuse i (- 32010) ''Durable broker shutdown is owned by the lifecycle manager'' b)
     else (True, reply i (jobj [(''shutdown'', JBool True)]) b))"

definition ready_handlers :: "BrEnv \<Rightarrow> RequestId \<Rightarrow> json \<Rightarrow> (string \<times> (Broker \<Rightarrow> Broker)) list" where
  "ready_handlers env i params =
    [(''initialize'', refuse i (- 32004) ''Broker is already initialized''),
     (''agent/list'', \<lambda>b. reply i (jobj [(''agents'', JArray (map json_of_summary (summaries b)))]) b),
     (''workspace/list'', list_workspaces env i),
     (''workspace/handoff'', handoff_workspace env i params),
     (''workspace/diff'', workspace_diff env i params),
     (''provider/model/list'', list_provider_models env i params),
     (''provider/session/list'', list_provider_sessions env i params),
     (''provider/session/delete'', delete_session env i params),
     (''agent/start'', start_agent env i params LaunchStart),
     (''agent/attach'', attach_agent i params),
     (''agent/history'', history_request env i params),
     (''agent/transcript'', transcript_request i params),
     (''agent/prompt'', send_agent_input env i params InPrompt),
     (''agent/steer'', send_agent_input env i params InSteer),
     (''agent/interrupt'', interrupt_agent env i params),
     (''agent/resume'', resume_agent env i params),
     (''agent/fork'', fork_agent env i params),
     (''agent/archive'', archive_agent env i params),
     (''agent/approval/respond'', respond_approval env i params),
     (''agent/question/respond'', respond_question env i params),
     (''agent/context/add'', add_context env i params),
     (''agent/diff'', agent_diff env i params),
     (''agent/replay'', replay_request i params)]"

definition handle_request :: "BrEnv \<Rightarrow> RequestId \<Rightarrow> string \<Rightarrow> json \<Rightarrow> Broker \<Rightarrow> bool \<times> Broker" where
  "handle_request env i name params b =
    (case b_phase b of
       AwaitInitialize \<Rightarrow>
         (False, if name \<noteq> ''initialize'' then refuse i (- 32002) ''Broker is not initialized'' b
                 else broker_initialize i params b)
     | AwaitInitialized \<Rightarrow> (False, refuse i (- 32003) ''Broker is waiting for initialized'' b)
     | Ready \<Rightarrow>
         (case map_of (ready_handlers env i params) name of
            Some handler \<Rightarrow> (False, handler b)
          | None \<Rightarrow>
              if name = ''broker/shutdown'' then shutdown_request i params b
              else (False, refuse i (- 32601) ''Method not found'' b)))"

definition invalid_request :: "Broker \<Rightarrow> Broker" where
  "invalid_request b = send (error_response None (- 32600) ''Invalid Request'' None) b"

definition handle_client_frame :: "BrEnv \<Rightarrow> json \<Rightarrow> Broker \<Rightarrow> bool \<times> Broker" where
  "handle_client_frame env frame b =
    (if \<not> is_object frame then (False, invalid_request b)
     else if get_str ''jsonrpc'' frame \<noteq> Some ''2.0'' then (False, invalid_request b)
     else (case get_str ''method'' frame of
         None \<Rightarrow> (False, invalid_request b)
       | Some name \<Rightarrow>
           (let params = unwrap_or (jobj []) (jget ''params'' frame) in
            if \<not> is_object params
            then (False, send (error_response (Option.bind (jget ''id'' frame) of_request_id) (- 32602) ''Invalid params'' None) b)
            else (case jget ''id'' frame of
                None \<Rightarrow> (False, handle_notification env name params b)
              | Some raw_id \<Rightarrow>
                  (case of_request_id raw_id of
                     None \<Rightarrow> (False, invalid_request b)
                   | Some i \<Rightarrow> handle_request env i name params b)))))"

section \<open>Connections and the loop\<close>

definition take_over :: "u64 \<Rightarrow> Broker \<Rightarrow> Broker" where
  "take_over generation b =
    b\<lparr>b_generation := generation, b_phase := AwaitInitialize, b_cursor := 0, b_output := Some generation\<rparr>"

definition broker_connect :: "u64 \<Rightarrow> Broker \<Rightarrow> Broker" where
  "broker_connect generation b = (if generation \<le> b_generation b then b else take_over generation b)"

definition hang_up :: "u64 \<Rightarrow> Broker \<Rightarrow> Broker" where
  "hang_up generation b =
    b\<lparr>b_output := None, b_phase := AwaitInitialize, b_cursor := 0,
      b_pending := filter (\<lambda>(_, p). pq_generation p \<noteq> generation) (b_pending b)\<rparr>"

fun disconnect_agents :: "BrEnv \<Rightarrow> string list \<Rightarrow> Broker \<Rightarrow> Broker" where
  "disconnect_agents env [] b = b"
| "disconnect_agents env (i # rest) b = disconnect_agents env rest (queue_client_disconnect env i b)"

definition broker_disconnect :: "BrEnv \<Rightarrow> u64 \<Rightarrow> Broker \<Rightarrow> Broker" where
  "broker_disconnect env generation b =
    (if generation \<noteq> b_generation b then b
     else (let b1 = hang_up generation b in disconnect_agents env (map fst (b_agents b1)) b1))"

datatype ClientInput =
    InConnected u64 | InFrame u64 json | InParseError u64 | InFrameTooLarge u64 | InIo u64 | InClosed u64

datatype BrokerInput = FromClient ClientInput | FromRuntime RuntimeEvent

text \<open>A finished loop says whether it ended with an error.\<close>

datatype Outcome = Continue | Finished bool

definition input_generation :: "ClientInput \<Rightarrow> u64" where
  "input_generation c = (case c of InConnected g \<Rightarrow> g | InFrame g _ \<Rightarrow> g | InParseError g \<Rightarrow> g
     | InFrameTooLarge g \<Rightarrow> g | InIo g \<Rightarrow> g | InClosed g \<Rightarrow> g)"

definition handle_current :: "BrEnv \<Rightarrow> ClientInput \<Rightarrow> Broker \<Rightarrow> Outcome \<times> Broker" where
  "handle_current env c b =
    (case c of
       InConnected g \<Rightarrow> (Continue, broker_connect g b)
     | InFrame g frame \<Rightarrow>
         (case handle_client_frame env frame b of (stop, b1) \<Rightarrow> (if stop then Finished True else Continue, b1))
     | InParseError g \<Rightarrow> (Continue, send (error_response None (- 32700) ''Parse error'' None) b)
     | InFrameTooLarge g \<Rightarrow>
         (let b1 = send (error_response None (- 32600) ''Invalid Request''
              (Some (jobj [(''reason'', JString ''frame_too_large'')]))) b in
          if b_mode b1 = Embedded then (Finished True, b1) else (Continue, broker_disconnect env g b1))
     | InIo g \<Rightarrow> if b_mode b = Embedded then (Finished False, b) else (Continue, broker_disconnect env g b)
     | InClosed g \<Rightarrow> if b_mode b = Embedded then (Finished True, b) else (Continue, broker_disconnect env g b))"

fun broker_step :: "BrEnv \<Rightarrow> BrokerInput \<Rightarrow> Broker \<Rightarrow> Outcome \<times> Broker" where
  "broker_step env (FromRuntime e) b = (Continue, handle_runtime_event env e b)"
| "broker_step env (FromClient (InConnected g)) b = (Continue, broker_connect g b)"
| "broker_step env (FromClient c) b =
    (if input_generation c \<noteq> b_generation b then (Continue, b) else handle_current env c b)"

text \<open>\<open>None\<close> when the broker panics; the loop ends at its first result or when the inputs are exhausted.\<close>

fun broker_run :: "BrEnv \<Rightarrow> BrokerInput list \<Rightarrow> Broker \<Rightarrow> (Outcome \<times> Broker) option" where
  "broker_run env [] b = Some (Continue, b)"
| "broker_run env (x # xs) b =
    (case broker_step env x b of
       (r, b1) \<Rightarrow> if b_panicked b1 then None
         else (case r of Finished ok \<Rightarrow> Some (Finished ok, b1) | Continue \<Rightarrow> broker_run env xs b1))"

text \<open>Every agent is told to stop, then every task is awaited or aborted.\<close>

fun shutdown_all :: "BrEnv \<Rightarrow> string list \<Rightarrow> Broker \<Rightarrow> Broker" where
  "shutdown_all env [] b = b"
| "shutdown_all env (i # rest) b = shutdown_all env rest (snd (send_command env i CmdShutdown b))"

definition shutdown_agents :: "BrEnv \<Rightarrow> Broker \<Rightarrow> Broker" where
  "shutdown_agents env b =
    (let b1 = shutdown_all env (map fst (b_agents b)) b in
     b1\<lparr>b_agents := map (\<lambda>(i, a). (i, a\<lparr>ma_task := False\<rparr>)) (b_agents b1)\<rparr>)"

definition durable_counts :: "BrEnv \<Rightarrow> Broker \<Rightarrow> u64 \<times> u64" where
  "durable_counts env b =
    (of_nat (length (b_agents b)), case b_registry b of None \<Rightarrow> 0 | Some r \<Rightarrow> rg_bytes (now env b) r)"

end
