(* ===== verification/BrokerSteps.thy ===== *)
theory BrokerSteps
  imports BrokerConn
begin

text \<open>
  The handlers of the broker as sequences of small steps.

  Every handler of \<open>embedded.rs\<close> is made of a few updates: a message is sent, an agent's record is
  changed, an event is numbered, an agent is launched or removed, a file is replaced, a request is
  registered with a provider task or taken back.  The relation \<open>bstep\<close> has one rule per update that
  concerns no request of the client, with the guards under which the code performs it; \<open>silently\<close> is
  its closure.  A handler of a request is \<open>served\<close>: silent steps around exactly one answer, or around
  one registration.  The lemmas of this theory show that each handler is; an invariant is then proved
  once per rule instead of once per handler.
\<close>

section \<open>Updates that concern no request\<close>

text \<open>What an update of an agent's record must leave alone.\<close>

definition calm :: "(ManagedAgent \<Rightarrow> ManagedAgent) \<Rightarrow> bool" where
  "calm f = (\<forall>a.
     as_id (ma_summary (f a)) = as_id (ma_summary a) \<and> as_provider (ma_summary (f a)) = as_provider (ma_summary a)
     \<and> as_cwd (ma_summary (f a)) = as_cwd (ma_summary a) \<and> ma_workspace_identity (f a) = ma_workspace_identity a
     \<and> ma_transcript (f a) = ma_transcript a \<and> (ma_task (f a) \<longrightarrow> ma_task a)
     \<and> length (ma_queued_prompts (f a)) \<le> length (ma_queued_prompts a)
     \<and> (ma_title_from_prompt a \<longrightarrow> ma_title_from_prompt (f a))
     \<and> (ma_title_from_prompt (f a) \<or> as_title (ma_summary (f a)) = as_title (ma_summary a)))"

definition registry_view :: "Broker \<Rightarrow> AgentSummary list" where
  "registry_view b = map registry_summary (filter_map (agent_of b) (b_order b))"

text \<open>The key under which a queued prompt is handed to its task.\<close>

definition queue_key :: "RequestId \<Rightarrow> bool" where
  "queue_key k = (\<exists>n. k = String (''queued:'' @ show_nat n))"

inductive bstep :: "BrEnv \<Rightarrow> Broker \<Rightarrow> Broker \<Rightarrow> bool" for env :: BrEnv where
  tick: "bstep env b (tick b)"
| agent: "calm f \<Longrightarrow> bstep env b (upd_agent i f b)"
| enqueue: "agent_of b i = Some a \<Longrightarrow> length (ma_queued_prompts a) < MAX_QUEUED_PROMPTS \<Longrightarrow>
    bstep env b (upd_agent i (\<lambda>a. a\<lparr>ma_queued_prompts := ma_queued_prompts a @ [p]\<rparr>) b)"
| transcript: "agent_of b i = Some a \<Longrightarrow>
    transcript_step (be_alnum env) (ma_transcript a) op = (r, t) \<Longrightarrow>
    bstep env b (case r of None \<Rightarrow> upd_agent i (set_transcript t) b
      | Some p \<Rightarrow> send_transcript_patch i p (upd_agent i (set_transcript t) b))"
| event: "rb_push (b_replay b) ev = Some (n, r) \<Longrightarrow>
    bstep env b (send_if_ready (ev\<lparr>ev_sequence := n\<rparr>) (b\<lparr>b_replay := r\<rparr>))"
| launch: "\<not> (b_mode b = Embedded \<and> any_agent ma_task b) \<Longrightarrow> \<not> any_agent (occupies identity) b \<Longrightarrow>
    i = w_uuid (now env b) \<Longrightarrow>
    bstep env b (insert_agent i (new_agent i stamp provider workspace options l identity)
      (tick (b\<lparr>b_spawned := b_spawned b @ [spawn]\<rparr>)))"
| remove: "bstep env b (remove_agents ids b)"
| registry: "b_registry b = Some r \<Longrightarrow>
    bstep env b (b\<lparr>b_registry_file := snd (rg_persist (now env b) (be_pretty env) r (registry_view b) (b_registry_file b))\<rparr>)"
| status: "bstep env b (b\<lparr>b_status := s, b_status_file := file'\<rparr>)"
| state: "b_phase b = Ready \<Longrightarrow> bstep env b (send (notification ''broker/state'' p) b)"
| queued: "set q \<subseteq> set (b_queued_requests b) \<union> Collect queue_key \<Longrightarrow> bstep env b (b\<lparr>b_queued_requests := q\<rparr>)"
| mark: "bstep env b (mark_history k i b)"
| number: "checked_add1 (b_next_request b) = Some n \<Longrightarrow> bstep env b (b\<lparr>b_next_request := n\<rparr>)"
| overflow: "rb_push (b_replay b) ev = None \<Longrightarrow> bstep env b (send_if_ready ev (b\<lparr>b_panicked := True\<rparr>))"
| panic: "bstep env b (b\<lparr>b_panicked := True\<rparr>)"

abbreviation silently :: "BrEnv \<Rightarrow> Broker \<Rightarrow> Broker \<Rightarrow> bool" where
  "silently env \<equiv> (bstep env)\<^sup>*\<^sup>*"

text \<open>
  An answer to request \<open>i\<close>, and the three ways in which a handler serves a request: it answers at
  once; it registers the request with the task that will answer; or the task turns out to be gone,
  the registration is taken back and an error is the answer.
\<close>

definition answer_to :: "RequestId \<Rightarrow> json \<Rightarrow> bool" where
  "answer_to i m = ((\<exists>v. m = success_response i v) \<or> (\<exists>c t d. m = error_response (Some i) c t d))"

inductive served :: "BrEnv \<Rightarrow> RequestId \<Rightarrow> Broker \<Rightarrow> Broker \<Rightarrow> bool" for env :: BrEnv and i :: RequestId where
  answered: "silently env b b1 \<Longrightarrow> answer_to i m \<Longrightarrow> silently env (send m b1) b2 \<Longrightarrow> served env i b b2"
| deferred: "silently env b b1 \<Longrightarrow> silently env (snd (runtime_request i b1)) b2 \<Longrightarrow> served env i b b2"
| withdrawn: "silently env b b1 \<Longrightarrow> runtime_request i b1 = (k, b2) \<Longrightarrow> silently env b2 b3 \<Longrightarrow>
    answer_to i m \<Longrightarrow> silently env (send m (forget_request k b3)) b4 \<Longrightarrow> served env i b b4"

section \<open>Composition\<close>

lemma silently_refl: "silently env b b"
  by simp

lemma silently_after: "silently env b1 b2 \<Longrightarrow> silently env b b1 \<Longrightarrow> silently env b b2"
  by simp

lemma bstep_silently: "bstep env b b' \<Longrightarrow> silently env b b'"
  by simp

lemma served_after: "silently env b1 b2 \<Longrightarrow> served env i b b1 \<Longrightarrow> served env i b b2"
  by (auto elim!: served.cases intro: served.intros rtranclp_trans)

lemma served_before: "served env i b1 b2 \<Longrightarrow> silently env b b1 \<Longrightarrow> served env i b b2"
  by (auto elim!: served.cases intro: served.intros rtranclp_trans)

lemmas step_rules = bstep.intros [THEN bstep_silently]

lemma answer_to_simps [simp]:
  "answer_to i (success_response i v)" "answer_to i (error_response (Some i) c t d)"
  "answer_to i (invalid_params i reason)" "answer_to i (agent_not_found i)"
  by (auto simp: answer_to_def invalid_params_def agent_not_found_def)

lemma served_send: "silently env b b1 \<Longrightarrow> answer_to i m \<Longrightarrow> served env i b (send m b1)"
  by (rule served.answered) auto

lemma served_reply: "silently env b b1 \<Longrightarrow> served env i b (reply i v b1)"
  unfolding reply_def by (rule served_send) auto

lemma served_refuse: "silently env b b1 \<Longrightarrow> served env i b (refuse i c m b1)"
  unfolding refuse_def by (rule served_send) auto

lemma served_refuse_params: "silently env b b1 \<Longrightarrow> served env i b (refuse_params i m b1)"
  unfolding refuse_params_def by (rule served_send) auto

lemmas served_answers = served_send served_reply served_refuse served_refuse_params

lemma served_request:
  "silently env b b1 \<Longrightarrow> runtime_request i b1 = (k, b2) \<Longrightarrow> silently env b2 b3 \<Longrightarrow> served env i b b3"
  by (metis served.deferred snd_conv)

section \<open>Silent operations\<close>

lemma map_of_update:
  "map_of (map (\<lambda>(k, a). if k = i then (k, f a) else (k, a)) xs) j =
    (if i = j then map_option f (map_of xs j) else map_of xs j)"
  by (induction xs) auto

lemma agent_of_upd [simp]:
  "agent_of (upd_agent i f b) j = (if i = j then map_option f (agent_of b j) else agent_of b j)"
  by (simp add: agent_of_def upd_agent_def map_of_update)

lemma agent_of_frame [simp]:
  "agent_of (tick b) j = agent_of b j" "agent_of (send m b) j = agent_of b j"
  by (simp_all add: agent_of_def tick_def send_def split: option.split)

lemma calm_simps [simp]:
  "calm (upd_summary (\<lambda>s. s\<lparr>as_updated_at := t\<rparr>))"
  "calm (upd_summary (\<lambda>s. s\<lparr>as_state := st\<rparr>))"
  "calm (upd_summary (\<lambda>s. s\<lparr>as_state := st, as_active_turn_id := tu\<rparr>))"
  "calm (upd_summary (\<lambda>s. s\<lparr>as_state := st, as_active_turn_id := tu, as_pending_approvals := n\<rparr>))"
  "calm (upd_summary (\<lambda>s. s\<lparr>as_state := st, as_provider_options := po\<rparr>))"
  "calm (upd_summary (\<lambda>s. s\<lparr>as_provider_session_id := ps, as_runtime := ru, as_state := st\<rparr>))"
  "calm (\<lambda>a. a\<lparr>ma_commands := g a\<rparr>)"
  "calm (\<lambda>a. a\<lparr>ma_parked_disconnects := h a\<rparr>)"
  "calm (\<lambda>a. a\<lparr>ma_pending_contexts := cs\<rparr>)"
  "calm (\<lambda>a. a\<lparr>ma_queued_prompts := []\<rparr>)"
  "calm (\<lambda>a. a\<lparr>ma_queued_prompts := tl (ma_queued_prompts a)\<rparr>)"
  "calm (\<lambda>a. a\<lparr>ma_pending_questions := q\<rparr>)"
  "calm (\<lambda>a. a\<lparr>ma_pending_questions := q, ma_pending_contexts := cs\<rparr>)"
  "calm (\<lambda>a. a\<lparr>ma_task := False\<rparr>)"
  "calm (\<lambda>a. a\<lparr>ma_task := False, ma_pending_contexts := cs\<rparr>)"
  by (simp_all add: calm_def upd_summary_def)

lemma calm_restore_waiting: "calm f \<Longrightarrow> calm (\<lambda>a. restore_waiting_state (f a))"
  by (simp add: calm_def restore_waiting_state_def upd_summary_def)

lemma calm_event_state [simp]: "calm (event_state event)"
  by (simp add: calm_def event_state_def restore_waiting_state_def upd_summary_def Let_def)

lemma silently_agent: "calm f \<Longrightarrow> silently env b (upd_agent i f b)"
  by (rule bstep_silently [OF bstep.agent])

lemma silently_touch: "silently env b (touch env i b)"
  unfolding touch_def by (rule silently_after [OF bstep_silently [OF bstep.tick] silently_agent]) simp

lemma silently_tick: "silently env b (tick b)"
  by (rule bstep_silently [OF bstep.tick])

lemma silently_save_registry: "save_registry env b = (failed, bytes, b') \<Longrightarrow> silently env b b'"
  by (auto simp: save_registry_def registry_view_def [symmetric] split: option.splits prod.splits
      intro!: silently_after [OF silently_tick] dest!: bstep.registry [where env = env])

lemma silently_save_status: "silently env b (save_status env failed bytes b)"
  by (auto simp: save_status_def Let_def split: option.splits prod.splits
      intro!: silently_after [OF silently_tick] bstep_silently [OF bstep.status])

lemma silently_notify_state: "silently env b (notify_state env b)"
  by (auto simp: notify_state_def Let_def split: prod.splits
      intro: silently_after [OF silently_save_status silently_save_registry]
        silently_after [OF bstep_silently [OF bstep.state] silently_after [OF silently_save_status silently_save_registry]])

lemma silently_accept: "silently env b (accept_command i c b)"
  unfolding accept_command_def by (rule silently_agent) simp

lemma silently_send_command: "send_command env i c b = (ok, b') \<Longrightarrow> silently env b b'"
  by (auto simp: send_command_def split: if_splits
      intro: silently_tick silently_after [OF silently_tick silently_accept])

lemma silently_try_command: "try_command env i c b = (ok, b') \<Longrightarrow> silently env b b'"
  by (auto simp: try_command_def split: if_splits
      intro: silently_tick silently_after [OF silently_tick silently_accept])

lemma silently_queue_disconnect: "silently env b (queue_client_disconnect env i b)"
  by (auto simp: queue_client_disconnect_def split: prod.splits bool.splits
      intro: silently_try_command silently_after [OF silently_agent silently_try_command])

lemma silently_record_user_input: "silently env b (record_user_input env i t b)"
proof (cases "agent_of b i")
  case (Some a)
  obtain p t' where "push_user (be_alnum env) (ma_transcript a) t = (p, t')"
    by (cases "push_user (be_alnum env) (ma_transcript a) t")
  then show ?thesis
    using bstep.transcript [OF Some, of env "OpUser t" "Some p" t'] Some
    by (simp add: record_user_input_def r_into_rtranclp)
qed (simp add: record_user_input_def)

section \<open>Reports of the tasks\<close>

lemma send_upd_agent: "send m (upd_agent i f b) = upd_agent i f (send m b)"
  by (simp add: send_def upd_agent_def split: option.split)

lemma send_touch: "send m (touch env i b) = touch env i (send m b)"
proof -
  have "now env (send m b) = now env b" "send m (tick x) = tick (send m x)" for x
    by (simp_all add: now_def tick_def send_def split: option.split)
  then show ?thesis by (simp add: touch_def send_upd_agent)
qed

lemma send_if_ready_event_state:
  "send_if_ready e (snd (apply_event_state env e' b)) = snd (apply_event_state env e' (send_if_ready e b))"
proof -
  have same: "agent_of (send m b) i = agent_of b i" "b_phase (upd_agent i f b) = b_phase b"
    "b_phase (touch env i b) = b_phase b" for m i f b
    by (simp_all add: send_def agent_of_def upd_agent_def touch_def tick_def split: option.split)
  show ?thesis
    by (simp add: send_if_ready_def send_event_def apply_event_state_def Let_def same send_upd_agent send_touch
        split: option.split)
qed

lemma silently_event_state: "silently env b (snd (apply_event_state env e b))"
  by (auto simp: apply_event_state_def Let_def split: option.splits
      intro: silently_agent silently_after [OF silently_touch silently_agent])

lemma silently_push_send: "push_event ev b = (ev', b1) \<Longrightarrow> silently env b (send_if_ready ev' b1)"
  by (auto simp: push_event_def split: option.splits prod.splits
      intro: bstep_silently [OF bstep.event] bstep_silently [OF bstep.overflow])

lemma silently_push:
  "push_event ev b = (ev', b1) \<Longrightarrow> silently env b (send_if_ready ev' (snd (apply_event_state env e b1)))"
  unfolding send_if_ready_event_state
  by (rule silently_after [OF silently_event_state silently_push_send])

lemma silently_update_transcript: "silently env b (update_transcript env event b)"
proof (cases "agent_of b (ev_agent_id event)")
  case (Some a)
  obtain p t where st: "transcript_step (be_alnum env) (ma_transcript a)
      (OpEvent event (po_model (as_provider_options (ma_summary a)))) = (p, t)"
    by (cases "transcript_step (be_alnum env) (ma_transcript a)
      (OpEvent event (po_model (as_provider_options (ma_summary a))))")
  from bstep.transcript [OF Some st] show ?thesis
    using Some st by (auto simp: update_transcript_def Let_def split: option.splits)
qed (simp add: update_transcript_def)

lemma silently_warn: "silently env b (warn_unattended env event b)"
  by (simp add: warn_unattended_def silently_queue_disconnect)

lemma silently_publish: "publish_event env event b = (changed, b') \<Longrightarrow> silently env b b'"
  unfolding publish_event_def
  by (auto split: prod.splits
      intro!: silently_after [OF silently_update_transcript])
    (metis silently_after silently_push silently_warn snd_conv)

lemma silently_notice: "silently env b (handle_notice env event b)"
  by (auto simp: handle_notice_def split: prod.splits
      intro: silently_publish silently_after [OF silently_notify_state silently_publish])

lemma silently_cancel: "silently env b (cancel_queued_prompts env i b)"
  by (auto simp: cancel_queued_prompts_def Let_def split: option.splits
      intro!: silently_after [OF silently_notice] silently_after [OF silently_tick] silently_agent)

lemmas silent_ops = silently_tick silently_touch silently_notify_state silently_queue_disconnect
  silently_record_user_input silently_update_transcript silently_warn silently_notice silently_cancel

lemmas silent_after = silent_ops [THEN silently_after] silently_agent [THEN silently_after]
  silently_try_command [THEN silently_after] silently_send_command [THEN silently_after]
  silently_push_send [THEN silently_after] silently_publish [THEN silently_after]

lemma silently_failure: "silently env b (handle_provider_failure env i message b)"
  unfolding handle_provider_failure_def Let_def
  by (auto split: option.splits prod.splits intro!: silently_cancel silently_notify_state [THEN silently_after])
    (erule silently_push_send [THEN silently_after], (rule silent_after; simp?)+)

lemma silently_dispatch: "silently env b (dispatch_queued_prompt env i b)"
proof (cases "agent_of b i")
  case (Some a)
  show ?thesis
  proof (cases "ma_queued_prompts a")
    case (Cons prompt rest)
    let ?b1 = "upd_agent i (\<lambda>a. a\<lparr>ma_queued_prompts := tl (ma_queued_prompts a)\<rparr>) b"
    have 1: "silently env b ?b1" by (rule silently_agent) simp
    show ?thesis
    proof (cases "checked_add1 (b_next_request ?b1)")
      case None
      then show ?thesis
        using Some Cons silently_after [OF bstep_silently [OF bstep.panic] 1]
        by (simp add: dispatch_queued_prompt_def Let_def)
    next
      case (Some n)
      have 2: "silently env b (?b1\<lparr>b_next_request := n\<rparr>)"
        by (rule silently_after [OF bstep_silently [OF bstep.number [OF Some]] 1])
      show ?thesis
        using \<open>agent_of b i = Some a\<close> Cons Some 2
        by (auto simp: dispatch_queued_prompt_def Let_def queue_key_def split: prod.splits bool.splits
            intro: silently_after [OF silently_failure] silently_after [OF silently_try_command]
            intro!: silently_touch [THEN silently_after] silently_agent [THEN silently_after]
              silently_after [OF bstep_silently [OF bstep.queued]])
    qed
  qed (simp add: dispatch_queued_prompt_def Some)
qed (simp add: dispatch_queued_prompt_def)

lemma silently_provider_event: "silently env b (handle_provider_event env event b)"
  unfolding handle_provider_event_def Let_def
  by (auto split: prod.splits intro!: silently_notify_state [THEN silently_after] silently_dispatch [THEN silently_after]
      silently_cancel [THEN silently_after] elim: silently_publish)

inductive reported :: "BrEnv \<Rightarrow> Broker \<Rightarrow> Broker \<Rightarrow> bool" for env :: BrEnv where
  nothing: "silently env b b' \<Longrightarrow> reported env b b'"
| settled: "silently env b b1 \<Longrightarrow> (\<And>j. answer_to j (response j)) \<Longrightarrow>
    silently env (send_runtime_response k response b1) b2 \<Longrightarrow> reported env b b2"

lemma reported_after: "silently env b1 b2 \<Longrightarrow> reported env b b1 \<Longrightarrow> reported env b b2"
  by (auto elim!: reported.cases intro: reported.intros rtranclp_trans)

lemma reported_settle:
  "silently env b b1 \<Longrightarrow> (\<And>j. answer_to j (response j)) \<Longrightarrow> reported env b (send_runtime_response k response b1)"
  by (rule reported.settled) auto

lemma silently_replace_history: "silently env b (replace_transcript_history env i messages b)"
proof (cases "agent_of b i")
  case (Some a)
  obtain p t where st: "replace_history (be_alnum env) (ma_transcript a) messages (as_provider (ma_summary a))
      (po_model (as_provider_options (ma_summary a))) = (p, t)"
    by (cases "replace_history (be_alnum env) (ma_transcript a) messages (as_provider (ma_summary a))
      (po_model (as_provider_options (ma_summary a)))")
  then show ?thesis
    using bstep.transcript [OF Some, of env "OpHistory messages (as_provider (ma_summary a))
      (po_model (as_provider_options (ma_summary a)))" "Some p" t] Some
    by (simp add: replace_transcript_history_def r_into_rtranclp)
qed (simp add: replace_transcript_history_def)

lemma silently_unqueue: "silently env b (unqueue_request k b)"
  unfolding unqueue_request_def by (rule bstep_silently [OF bstep.queued]) auto

lemma silently_remove: "silently env b (remove_agents ids b)"
  by (rule bstep_silently [OF bstep.remove])

lemma reported_response: "reported env b (handle_runtime_response env k result b)"
  unfolding handle_runtime_response_def Let_def
  by (auto split: option.splits intro!: reported_after [OF silently_replace_history] reported_settle silently_unqueue)

lemma reported_started: "reported env b (handle_started env k i session runtime b)"
  unfolding handle_started_def Let_def
  by (auto split: option.splits intro!: silently_remove reported_after [OF silently_notify_state]
      reported_settle silently_touch [THEN silently_after] silently_agent [THEN silently_after]
      intro: reported.nothing)

lemma silently_fail: "silently env b (fail_agent_now env i b)"
  by (cases "try_command env i CmdShutdown (touch env i (upd_agent i (upd_summary (\<lambda>s.
      s\<lparr>as_state := Failed, as_active_turn_id := None\<rparr>)) (cancel_queued_prompts env i b)))")
    (auto simp: fail_agent_now_def Let_def intro!: silently_cancel silently_touch [THEN silently_after]
      silently_agent [THEN silently_after] elim!: silently_try_command [THEN silently_after])

lemma reported_request_failed: "reported env b (handle_request_failed env k i code message fail_agent b)"
  by (auto simp: handle_request_failed_def Let_def
      intro!: reported_after [OF silently_notify_state] reported_settle silently_fail
        reported.nothing [OF silently_after [OF silently_failure]] silently_unqueue)

lemma silently_stopped: "silently env b (handle_stopped env i b)"
  unfolding handle_stopped_def Let_def
  by (auto split: option.splits intro!: silently_cancel silently_notify_state [THEN silently_after]
      silently_touch [THEN silently_after] silently_agent [THEN silently_after])

lemma reported_runtime_event: "reported env b (handle_runtime_event env e b)"
  by (cases e) (auto intro: reported_started reported_response reported_request_failed
    reported.nothing [OF silently_provider_event] reported.nothing [OF silently_failure]
    reported.nothing [OF silently_stopped])

end
