(* ===== verification/BrokerServed.thy ===== *)
theory BrokerServed
  imports BrokerSteps
begin

text \<open>
  Every handler of a request serves it (\<open>handler_serves\<close>): whatever the parameters, the state and the
  answers of the outside, it is silent but for one answer, or one registration with the task that
  will answer.
\<close>

lemmas serving = served_answers silent_ops [THEN silently_after] silently_agent [THEN silently_after]
  silently_remove [THEN silently_after] silently_notify_state [THEN served_after] silently_refl

lemma served_lifecycle_disabled: "silently env b b1 \<Longrightarrow> served env i b (lifecycle_disabled i b1)"
  unfolding lifecycle_disabled_def by (rule served_refuse)

lemma served_one_live_agent: "silently env b b1 \<Longrightarrow> served env i b (one_live_agent i b1)"
  unfolding one_live_agent_def by (rule served_refuse)

lemma serves_list_workspaces: "served env i b (list_workspaces env i b)"
  by (auto simp: list_workspaces_def split: option.split sum.split intro!: serving served_lifecycle_disabled)

lemma serves_handoff: "served env i b (handoff_workspace env i params b)"
  by (auto simp: handoff_workspace_def split: option.split sum.split intro!: serving served_lifecycle_disabled)

lemma serves_sessions: "served env i b (list_provider_sessions env i params b)"
  by (auto simp: list_provider_sessions_def split: option.split sum.split intro!: serving)

lemma serves_models: "served env i b (list_provider_models env i params b)"
  by (auto simp: list_provider_models_def split: option.split sum.split intro!: serving)

section \<open>Deleting\<close>

lemma silently_retire: "silently env b (retire_agent env a b)"
  by (cases "send_command env a CmdShutdown b")
    (auto simp: retire_agent_def Let_def split: option.splits
      intro!: serving elim!: silently_send_command)

lemma silently_retire_all: "silently env b (retire_all env ids b)"
proof (induction env ids b rule: retire_all.induct)
  case (2 env i rest b)
  have "silently env b (if some_and ma_task (agent_of b i) then retire_agent env i b else b)"
    by (simp add: silently_retire)
  with 2 show ?case by (auto intro: silently_after)
qed simp

lemma silently_handoff_all: "handoff_all env program ms b = (r, b') \<Longrightarrow> silently env b b'"
proof (induction env program ms b rule: handoff_all.induct)
  case (2 env program m ms b)
  then show ?case
    by (auto split: sum.splits intro: silently_tick silently_after [OF _ silently_tick])
qed simp

lemma served_finish_delete:
  "silently env b b1 \<Longrightarrow> served env i b (finish_delete env i p cwd matching managed b1)"
  by (auto simp: finish_delete_def split: sum.split intro!: serving)

lemma serves_delete: "served env i b (delete_session env i params b)"
proof -
  have matching: "served env i b (delete_matching env i p cwd b1)" if "silently env b b1" for p cwd b1
    using that silently_after [OF silently_retire_all]
    by (auto simp: delete_matching_def Let_def split: option.split prod.splits
        intro!: served_answers served_finish_delete served_lifecycle_disabled
        intro: silently_after [OF silently_handoff_all] silently_after)
  show ?thesis
    by (auto simp: delete_session_def split: option.split sum.split intro!: matching serving)
qed

section \<open>Starting\<close>

text \<open>Registering commutes with looking outside.\<close>

lemma runtime_request_tick:
  "runtime_request i (tick b) = (let (k, b') = runtime_request i b in (k, tick b'))"
  by (simp add: runtime_request_def tick_def Let_def split: option.split)

lemma runtime_request_fields:
  assumes "runtime_request i b = (k, b')"
  shows "b_mode b' = b_mode b" "b_agents b' = b_agents b" "b_ticks b' = b_ticks b" "b_order b' = b_order b"
  using assms by (auto simp: runtime_request_def Let_def split: option.splits)

lemma tick_spawned: "(tick b)\<lparr>b_spawned := x\<rparr> = tick (b\<lparr>b_spawned := x\<rparr>)"
  by (simp add: tick_def)

lemma tick_kept: "b_spawned (tick b) = b_spawned b"
  by (simp add: tick_def)

lemma launch_serves: "launch_agent env i provider workspace options l b = (r, b') \<Longrightarrow> served env i b b'"
proof -
  assume run: "launch_agent env i provider workspace options l b = (r, b')"
  let ?identity = "checkout_identity (now env (tick b)) (rw_strategy workspace) (rw_cwd workspace)"
  show "served env i b b'"
  proof (cases "workspace_launch_allowed env provider workspace l b \<and> \<not> (b_mode b = Embedded \<and> any_agent ma_task b)
      \<and> \<not> any_agent (occupies ?identity) (tick b)")
    case True
    let ?b2 = "tick (tick b)"
    let ?a = "new_agent (w_uuid (now env ?b2)) (w_stamp (now env ?b2)) provider workspace options l ?identity"
    obtain k b3 where rr: "runtime_request i ?b2 = (k, b3)" by (cases "runtime_request i ?b2")
    note f = runtime_request_fields [OF rr]
    have guards: "\<not> (b_mode b3 = Embedded \<and> any_agent ma_task b3)" "\<not> any_agent (occupies ?identity) b3"
      "w_uuid (now env ?b2) = w_uuid (now env b3)"
      using True f by (simp_all add: any_agent_def now_def) (simp_all add: tick_def any_agent_def)
    let ?spawn = "\<lparr>an_provider = provider, an_agent_id = w_uuid (now env ?b2), an_cwd = rw_cwd workspace,
      an_start_request_id = k, an_launch = l, an_provider_options = options\<rparr>"
    have "b' = notify_state env (insert_agent (w_uuid (now env ?b2)) ?a ((tick b3)\<lparr>b_spawned := b_spawned (tick b3) @ [?spawn]\<rparr>))"
      using run True rr
      by (auto simp: launch_agent_def Let_def runtime_request_tick [of i "tick (tick b)"] split: if_splits)
    then have b': "b' = notify_state env (insert_agent (w_uuid (now env ?b2)) ?a (tick (b3\<lparr>b_spawned := b_spawned b3 @ [?spawn]\<rparr>)))"
      by (simp only: tick_spawned tick_kept)
    have "silently env b3 b'"
      unfolding b' by (rule silently_notify_state [THEN silently_after], rule bstep_silently, rule bstep.launch) (rule guards)+
    with rr show ?thesis
      by (auto intro!: served_request [OF _ rr] serving)
  qed (use run in \<open>auto simp: launch_agent_def Let_def split: if_splits intro!: serving served_one_live_agent\<close>)
qed

text \<open>A resolution either answers the request or stays silent.\<close>

definition resolved :: "BrEnv \<Rightarrow> RequestId \<Rightarrow> Broker \<Rightarrow> 'w option \<times> Broker \<Rightarrow> bool" where
  "resolved env i b out = (case out of (None, b') \<Rightarrow> served env i b b' | (Some _, b') \<Rightarrow> silently env b b')"

lemma resolved_simps [simp]:
  "resolved env i b (None, b') = served env i b b'"
  "resolved env i b (Some w, b') = silently env b b'"
  by (simp_all add: resolved_def)

lemma resolves_managed: "resolved env i b (resolve_managed_workspace env i m b)"
  by (auto simp: resolve_managed_workspace_def split: option.split sum.split prod.split
      intro!: serving served_one_live_agent served_lifecycle_disabled)

lemma resolves_explicit: "resolved env i b (resolve_explicit_workspace env i raw strategy path b)"
  by (auto simp: resolve_explicit_workspace_def split: option.split sum.split intro!: serving)

lemma resolves_launch: "resolved env i b (resolve_launch_workspace env i p b)"
  by (auto simp: resolve_launch_workspace_def split: option.split
      intro!: serving resolves_managed resolves_explicit)

lemma serves_start_with: "served env i b (start_with env i p l b)"
proof (cases "resolve_launch_workspace env i p b")
  case (Pair w b1)
  have r: "resolved env i b (w, b1)"
    using resolves_launch [of env i b p] Pair by simp
  show ?thesis
  proof (cases w)
    case None
    with r Pair show ?thesis
      by (auto simp: start_with_def Let_def split: sum.split intro!: serving)
  next
    case (Some workspace)
    let ?o = "unwrap_or default_options (sp_provider_options p)"
    obtain x b2 where l: "launch_agent env i (sp_provider p) workspace ?o l b1 = (x, b2)"
      by (cases "launch_agent env i (sp_provider p) workspace ?o l b1")
    have "served env i b b2"
      using served_before [OF launch_serves [OF l]] r Some by simp
    with Some Pair l show ?thesis
      by (auto simp: start_with_def Let_def split: sum.split intro!: serving)
  qed
qed

lemma serves_start: "served env i b (start_agent env i params l b)"
  by (auto simp: start_agent_def split: option.split intro!: serving serves_start_with)

lemma serves_resume: "served env i b (resume_agent env i params b)"
  by (auto simp: resume_agent_def split: option.split intro!: serving serves_start_with)

lemma serves_fork: "served env i b (fork_agent env i params b)"
proof -
  have launched: "served env i b (case launch_agent env i provider workspace options l (retire_agent env a b) of
      (None, b1) \<Rightarrow> b1 | (Some n, b1) \<Rightarrow> upd_agent n (\<lambda>x. x\<lparr>ma_pending_contexts := cs\<rparr>) b1)"
    for provider workspace options l a cs
  proof (cases "launch_agent env i provider workspace options l (retire_agent env a b)")
    case (Pair r b1)
    have "served env i b b1"
      by (rule served_before [OF launch_serves [OF Pair] silently_retire])
    with Pair show ?thesis
      by (auto split: option.split intro!: served_after [OF silently_agent])
  qed
  show ?thesis
    by (auto simp: fork_agent_def Let_def split: option.split intro!: serving launched)
qed

lemma serves_attach: "served env i b (attach_agent i params b)"
  by (auto simp: attach_agent_def split: option.split intro!: serving)

lemma serves_archive: "served env i b (archive_agent env i params b)"
  by (auto simp: archive_agent_def Let_def split: option.split intro!: serving silently_retire)

section \<open>Input\<close>

lemma served_channel_gone: "silently env b b1 \<Longrightarrow> served env i b (channel_gone env a i b1)"
  unfolding channel_gone_def by (auto intro!: serving)

lemma calm_begin: "calm (\<lambda>a. (let a1 = upd_summary (\<lambda>s. s\<lparr>as_state := st, as_provider_options := po\<rparr>) a in
       if ma_has_prompted a then a1
       else
         (let a2 = a1\<lparr>ma_has_prompted := True\<rparr> in
          if as_managed_workspace (ma_summary a2) = None
          then (upd_summary (\<lambda>s. s\<lparr>as_title := title\<rparr>) a2)\<lparr>ma_title_from_prompt := True\<rparr>
          else a2)))"
  by (simp add: calm_def upd_summary_def Let_def)

lemma silently_begin: "silently env b (begin_prompt env a input b)"
  unfolding begin_prompt_def
  by (rule silently_touch [THEN silently_after], rule silently_agent, rule calm_begin)

lemma forget_upd_agent: "forget_request k (upd_agent a f b) = upd_agent a f (forget_request k b)"
  by (simp add: forget_request_def upd_agent_def)

lemma forget_touch: "forget_request k (touch env a b) = touch env a (forget_request k b)"
proof -
  have "now env (forget_request k b) = now env b" "forget_request k (tick x) = tick (forget_request k x)" for x
    by (simp_all add: now_def tick_def forget_request_def)
  then show ?thesis by (simp add: touch_def forget_upd_agent)
qed

text \<open>A command for a task: registered, and taken back when the task is gone.\<close>

lemma withdrawn_channel_gone:
  assumes "silently env b b1" "runtime_request i b1 = (k, b2)" "silently env b2 b3"
  shows "served env i b (channel_gone env a i (forget_request k b3))"
proof -
  have eq: "channel_gone env a i (forget_request k b3) =
      notify_state env (refuse i (- 32020) ''Provider command channel is unavailable''
        (forget_request k (touch env a (upd_agent a (upd_summary (\<lambda>s. s\<lparr>as_state := Disconnected\<rparr>)) b3))))"
    by (simp add: channel_gone_def forget_touch forget_upd_agent)
  show ?thesis
    unfolding eq refuse_def
    by (rule served.withdrawn [OF assms(1,2), where ?b3.0 = "touch env a (upd_agent a (upd_summary (\<lambda>s. s\<lparr>as_state := Disconnected\<rparr>)) b3)"])
      (auto intro!: serving assms(3) silently_notify_state)
qed

lemma withdrawn_channel_failed:
  assumes "silently env b b1" "runtime_request i b1 = (k, b2)" "silently env b2 b3"
  shows "served env i b (command_channel_failed env a i (forget_request k b3))"
proof -
  let ?quiet = "\<lambda>b. case agent_of b a of None \<Rightarrow> b
    | Some _ \<Rightarrow> upd_agent a (\<lambda>a. a\<lparr>ma_pending_contexts := []\<rparr>)
        (touch env a (upd_agent a (upd_summary (\<lambda>s. s\<lparr>as_state := Disconnected\<rparr>)) b))"
  have "agent_of (forget_request k b3) a = agent_of b3 a"
    by (simp add: agent_of_def forget_request_def)
  then have eq: "command_channel_failed env a i (forget_request k b3) =
      notify_state env (refuse i (- 32020) ''Provider command channel is unavailable'' (forget_request k (?quiet b3)))"
    by (simp add: command_channel_failed_def Let_def forget_touch forget_upd_agent split: option.split)
  have q: "silently env b2 (?quiet b3)"
    using assms(3) by (auto split: option.split intro!: serving)
  show ?thesis
    unfolding eq refuse_def
    by (rule served.withdrawn [OF assms(1,2) q]) (auto intro!: silently_notify_state)
qed

text \<open>All requests that end in a command to a task have this shape.\<close>

lemma commanded:
  assumes "silently env b b1"
    "\<And>k b2. runtime_request i b1 = (k, b2) \<Longrightarrow> silently env b2 (prep k b2)"
    "\<And>k b2 b4. runtime_request i b1 = (k, b2) \<Longrightarrow> silently env b2 b4 \<Longrightarrow> silently env b2 (ok b4)"
    "\<And>k b2 b4. runtime_request i b1 = (k, b2) \<Longrightarrow> silently env b2 b4 \<Longrightarrow> served env i b (gone (forget_request k b4))"
  shows "served env i b (case runtime_request i b1 of (k, b2) \<Rightarrow>
    (case send_command env a (c k) (prep k b2) of (False, b4) \<Rightarrow> gone (forget_request k b4) | (True, b4) \<Rightarrow> ok b4))"
proof -
  obtain k b2 where rr: "runtime_request i b1 = (k, b2)" by (cases "runtime_request i b1")
  obtain r b4 where c: "send_command env a (c k) (prep k b2) = (r, b4)"
    by (cases "send_command env a (c k) (prep k b2)")
  have "silently env b2 b4"
    by (rule silently_after [OF silently_send_command [OF c] assms(2) [OF rr]])
  with rr c assms(3,4) [OF rr] served_request [OF assms(1) rr] show ?thesis
    by (cases r) auto
qed

lemma serves_dispatch:
  assumes "silently env b b0"
  shows "served env i b (dispatch_agent_input env i a input kind b0)"
proof -
  let ?b1 = "if kind = InPrompt then begin_prompt env a input b0 else b0"
  have 1: "silently env b ?b1"
    using assms silently_begin [THEN silently_after] by simp
  show ?thesis
    unfolding dispatch_agent_input_def Let_def
    by (rule commanded [OF 1, where prep = "\<lambda>_ b. b"])
      (auto intro!: serving withdrawn_channel_gone [OF 1])
qed

lemma serves_accept:
  assumes a: "agent_of b (tp_agent_id p) = Some a"
  shows "served env i b (accept_input env i p kind a options b)"
proof -
  let ?b1 = "upd_agent (tp_agent_id p) (\<lambda>a. a\<lparr>ma_pending_contexts := []\<rparr>) (tick b)"
  have 1: "silently env b ?b1"
    by (auto intro!: serving)
  have "served env i b (queue_prompt i (tp_agent_id p) a input ?b1)" if "\<not> MAX_QUEUED_PROMPTS \<le> length (ma_queued_prompts a)" for input
  proof -
    have "silently env ?b1 (upd_agent (tp_agent_id p) (\<lambda>a. a\<lparr>ma_queued_prompts := ma_queued_prompts a @ [input]\<rparr>) ?b1)"
      by (rule bstep_silently, rule bstep.enqueue [where a = "a\<lparr>ma_pending_contexts := []\<rparr>"]) (use a that in simp_all)
    with 1 show ?thesis
      unfolding queue_prompt_def by (intro served_reply) (rule silently_after)
  qed
  then show ?thesis
    by (auto simp: accept_input_def Let_def split: sum.split intro!: serves_dispatch serving)
qed

lemma serves_send_input: "served env i b (send_agent_input env i params kind b)"
  by (auto simp: send_agent_input_def split: option.split sum.split intro!: serves_accept serving)

lemma serves_interrupt: "served env i b (interrupt_agent env i params b)"
proof -
  have "served env i b (case runtime_request i b1 of (k, b2) \<Rightarrow>
      (case send_command env a (CmdInterrupt k) b2 of
        (False, b3) \<Rightarrow> channel_gone env a i (forget_request k b3) | (True, b3) \<Rightarrow> b3))"
    if "silently env b b1" for a b1
    using commanded [OF that, where ok = "\<lambda>b. b" and prep = "\<lambda>_ b. b" and a = a and c = CmdInterrupt
      and gone = "channel_gone env a i"] withdrawn_channel_gone [OF that] by simp
  from this [OF silently_cancel] show ?thesis
    by (auto simp: interrupt_agent_def Let_def split: option.split intro!: serving)
qed

lemma serves_history: "served env i b (history_request env i params b)"
proof -
  have "served env i b (case runtime_request i b of (k, b1) \<Rightarrow>
      (case send_command env a (CmdHistory k c l) (mark_history k a b1) of
        (False, b2) \<Rightarrow> command_channel_failed env a i (forget_request k b2) | (True, b2) \<Rightarrow> b2))" for a c l
    using commanded [OF silently_refl, where ok = "\<lambda>b. b" and prep = "\<lambda>k. mark_history k a" and a = a
      and c = "\<lambda>k. CmdHistory k c l" and gone = "command_channel_failed env a i"]
      withdrawn_channel_failed [OF silently_refl] bstep_silently [OF bstep.mark] by simp
  then show ?thesis
    by (auto simp: history_request_def split: option.split intro!: serving)
qed

lemma serves_answer: "served env i b (answer_command env i a c b)"
proof -
  have "served env i b (case runtime_request i b of (k, b1) \<Rightarrow>
      (case send_command env a (c k) b1 of
        (False, b2) \<Rightarrow> command_channel_failed env a i (forget_request k b2) | (True, b2) \<Rightarrow> b2))"
    using commanded [OF silently_refl, where ok = "\<lambda>b. b" and prep = "\<lambda>_ b. b" and a = a
      and c = c and gone = "command_channel_failed env a i"]
      withdrawn_channel_failed [OF silently_refl] by simp
  then show ?thesis
    by (auto simp: answer_command_def split: option.split intro!: serving)
qed

lemma serves_approval: "served env i b (respond_approval env i params b)"
  by (auto simp: respond_approval_def split: option.split intro!: serving serves_answer)

lemma serves_question: "served env i b (respond_question env i params b)"
  by (auto simp: respond_question_def split: option.split intro!: serving serves_answer)

lemma serves_context: "served env i b (add_context env i params b)"
  by (auto simp: add_context_def queue_context_def Let_def split: option.split sum.split intro!: serving)

lemma served_diff: "silently env b b1 \<Longrightarrow> served env i b (diff_directory env i cwd b1)"
  by (auto simp: diff_directory_def split: Run.split intro!: serving)

lemma serves_workspace_diff: "served env i b (workspace_diff env i params b)"
  by (auto simp: workspace_diff_def split: option.split sum.split intro!: serving served_diff)

lemma serves_agent_diff: "served env i b (agent_diff env i params b)"
  by (auto simp: agent_diff_def split: option.split intro!: serving served_diff)

lemma serves_transcript: "served env i b (transcript_request i params b)"
  by (auto simp: transcript_request_def split: option.split intro!: serving)

lemma serves_replay: "served env i b (replay_request i params b)"
  by (auto simp: replay_request_def split: option.split ReplayResult.split intro!: serving)

end
