(* ===== verification/BrokerMoves.thy ===== *)
theory BrokerMoves
  imports BrokerServed
begin

text \<open>
  Every input of the broker is a sequence of moves: the silent steps, and what concerns requests,
  connections and the handshake.  An invariant of the broker is a predicate that no move breaks; the
  locale \<open>kept\<close> states that contract and gives the invariant along every run.
\<close>

inductive move :: "BrEnv \<Rightarrow> Broker \<Rightarrow> Broker \<Rightarrow> bool" for env :: BrEnv where
  quiet: "bstep env b b' \<Longrightarrow> move env b b'"
| answer: "answer_to i m \<Longrightarrow> move env b (send m b)"
| complain: "move env b (send (error_response None c t d) b)"
| register: "move env b (snd (runtime_request i b))"
| forget: "move env b (forget_request k b)"
| connect: "b_generation b < g \<Longrightarrow> move env b (take_over g b)"
| disconnect: "move env b (hang_up (b_generation b) b)"
| greet: "b_phase b = AwaitInitialize \<Longrightarrow> move env b (greet c b)"
| start: "b_phase b = AwaitInitialized \<Longrightarrow> move env b (open_session b)"

abbreviation moves :: "BrEnv \<Rightarrow> Broker \<Rightarrow> Broker \<Rightarrow> bool" where
  "moves env \<equiv> (move env)\<^sup>*\<^sup>*"

lemma silently_moves: "silently env b b' \<Longrightarrow> moves env b b'"
  by (rule mono_rtranclp [rule_format, of "bstep env"]) (auto intro: move.quiet)

lemma move_moves: "move env b b' \<Longrightarrow> moves env b b'"
  by (rule r_into_rtranclp)

lemma moves_then: "moves env b1 b2 \<Longrightarrow> move env b b1 \<Longrightarrow> moves env b b2"
  by (rule converse_rtranclp_into_rtranclp)

lemma moves_after: "move env b1 b2 \<Longrightarrow> moves env b b1 \<Longrightarrow> moves env b b2"
  by simp

lemma served_moves: "served env i b b' \<Longrightarrow> moves env b b'"
proof (induction rule: served.induct)
  case (answered b b1 m b2)
  have "moves env b1 b2"
    by (rule moves_then [OF silently_moves [OF answered(3)] move.answer [OF answered(2)]])
  with silently_moves [OF answered(1)] show ?case by (rule rtranclp_trans)
next
  case (deferred b b1 b2)
  have "moves env b1 b2"
    by (rule moves_then [OF silently_moves [OF deferred(2)] move.register])
  with silently_moves [OF deferred(1)] show ?case by (rule rtranclp_trans)
next
  case (withdrawn b b1 k b2 b3 m b4)
  have "moves env b3 b4"
    by (rule moves_then [OF moves_then [OF silently_moves [OF withdrawn(5)] move.answer [OF withdrawn(4)]] move.forget])
  moreover have "move env b1 b2"
    using move.register [of env b1 i] withdrawn(2) by simp
  ultimately have "moves env b1 b4"
    using moves_then [OF rtranclp_trans [OF silently_moves [OF withdrawn(3)]]] by blast
  with silently_moves [OF withdrawn(1)] show ?case by (rule rtranclp_trans)
qed

lemma reported_moves: "reported env b b' \<Longrightarrow> moves env b b'"
proof (induction rule: reported.cases)
  case (settled b b1 response k b2)
  have "moves env b1 (send_runtime_response k response b1)"
    using settled(4) by (auto simp: send_runtime_response_def Let_def split: option.split
        intro: moves_after [OF move.answer] moves_after [OF move.forget])
  then show ?case
    by (metis settled(1-3,5) silently_moves rtranclp_trans)
qed (simp add: silently_moves)

section \<open>Inputs\<close>

lemma ready_handler_serves:
  assumes "map_of (ready_handlers env i params) name = Some h"
  shows "served env i b (h b)"
proof -
  have "h \<in> set (map snd (ready_handlers env i params))"
    using map_of_SomeD [OF assms] by (force simp: image_iff)
  then show ?thesis
    by (auto simp: ready_handlers_def intro: serves_list_workspaces serves_handoff serves_workspace_diff serves_models
        serves_sessions serves_delete serves_start serves_attach serves_history serves_transcript serves_send_input
        serves_interrupt serves_resume serves_fork serves_archive serves_approval serves_question serves_context
        serves_agent_diff serves_replay served_refuse [OF silently_refl] served_reply [OF silently_refl])
qed

text \<open>A request is served, except the one that opens the session: it also starts the handshake.\<close>

lemma request_served:
  assumes "handle_request env i name params b = (stop, b')"
  shows "served env i b b' \<or> (b_phase b = AwaitInitialize \<and> (\<exists>c v. b' = reply i v (greet c b)))"
proof (cases "b_phase b")
  case AwaitInitialize
  then show ?thesis
    using assms by (auto simp: handle_request_def broker_initialize_def Let_def split: if_splits option.splits intro!: serving)
next
  case AwaitInitialized
  then show ?thesis
    using assms by (auto simp: handle_request_def intro!: serving)
next
  case Ready
  then show ?thesis
    using assms by (auto simp: handle_request_def shutdown_request_def split: if_splits option.splits
        intro!: serving intro: ready_handler_serves)
qed

lemma request_moves: "handle_request env i name params b = (stop, b') \<Longrightarrow> moves env b b'"
  by (drule request_served) (auto simp: reply_def intro: served_moves moves_after [OF move.answer [of i] move_moves [OF move.greet]])

lemma notification_moves: "moves env b (handle_notification env name params b)"
  by (auto simp: handle_notification_def
      intro!: moves_then [OF silently_moves [OF silently_notify_state]] move.start)

lemma frame_moves: "handle_client_frame env frame b = (stop, b') \<Longrightarrow> moves env b b'"
proof -
  have "moves env b (send (error_response (Option.bind x of_request_id) c t None) b)" for x c t
    by (cases "Option.bind x of_request_id")
      (simp_all add: move.complain move.answer [OF answer_to_simps(2)] r_into_rtranclp)
  moreover have "moves env b (invalid_request b)"
    by (auto simp: invalid_request_def intro!: move_moves move.complain)
  ultimately show "handle_client_frame env frame b = (stop, b') \<Longrightarrow> moves env b b'"
    by (auto simp: handle_client_frame_def Let_def split: if_splits option.splits
        intro: request_moves notification_moves)
qed

lemma silently_disconnect_agents: "silently env b (disconnect_agents env ids b)"
  by (induction env ids b rule: disconnect_agents.induct) (auto intro: silently_after silently_queue_disconnect)

lemma disconnect_moves: "moves env b (broker_disconnect env g b)"
  by (auto simp: broker_disconnect_def Let_def
      intro!: moves_then [OF silently_moves [OF silently_disconnect_agents]] move.disconnect)

lemma connect_moves: "moves env b (broker_connect g b)"
  by (auto simp: broker_connect_def intro!: move_moves move.connect)

lemma step_moves: "broker_step env x b = (r, b') \<Longrightarrow> moves env b b'"
  by (induction env x b rule: broker_step.induct)
    (auto simp: handle_current_def Let_def reported_moves [OF reported_runtime_event]
      split: if_splits ClientInput.splits prod.splits
      intro: connect_moves frame_moves disconnect_moves move_moves [OF move.complain]
        moves_then [OF disconnect_moves move.complain])

section \<open>Invariants\<close>

lemma send_panicked [simp]: "b_panicked (send m b) = b_panicked b"
  by (simp add: send_def split: option.split)

lemma upd_agent_panicked [simp]: "b_panicked (upd_agent i f b) = b_panicked b"
  by (simp add: upd_agent_def)

lemma send_events_panicked [simp]: "b_panicked (send_events es b) = b_panicked b"
  by (induction es b rule: send_events.induct) (simp_all add: send_event_def)

lemma bstep_panicked: "bstep env b b' \<Longrightarrow> b_panicked b \<Longrightarrow> b_panicked b'"
  by (induction rule: bstep.induct)
    (auto simp: tick_def send_transcript_patch_def send_if_ready_def send_event_def insert_agent_def remove_agents_def
      mark_history_def split: option.splits)

lemma move_panicked: "move env b b' \<Longrightarrow> b_panicked b \<Longrightarrow> b_panicked b'"
  by (induction rule: move.induct)
    (auto simp: bstep_panicked runtime_request_def Let_def forget_request_def take_over_def hang_up_def greet_def
      open_session_def split: option.splits ReplayResult.splits)

locale kept =
  fixes env :: BrEnv and I :: "Broker \<Rightarrow> bool"
  assumes kept_move: "I b \<Longrightarrow> move env b b' \<Longrightarrow> \<not> b_panicked b' \<Longrightarrow> I b'"
begin

lemma kept_moves: "moves env b b' \<Longrightarrow> I b \<Longrightarrow> \<not> b_panicked b' \<Longrightarrow> I b'"
  by (induction rule: rtranclp_induct) (auto intro: kept_move dest: move_panicked)

lemma kept_step: "broker_step env x b = (r, b') \<Longrightarrow> I b \<Longrightarrow> \<not> b_panicked b' \<Longrightarrow> I b'"
  by (rule kept_moves [OF step_moves])

lemma kept_run: "broker_run env xs b = Some (r, b') \<Longrightarrow> I b \<Longrightarrow> I b'"
proof (induction xs arbitrary: b)
  case (Cons x xs)
  obtain r1 b1 where st: "broker_step env x b = (r1, b1)"
    by (cases "broker_step env x b")
  then show ?case
    using Cons kept_step [OF st] by (auto split: if_splits Outcome.splits)
qed simp

end

lemma run_not_panicked: "broker_run env xs b = Some (r, b') \<Longrightarrow> \<not> b_panicked b \<Longrightarrow> \<not> b_panicked b'"
  by (induction xs arbitrary: b) (auto split: prod.splits if_splits Outcome.splits)

lemma run_append:
  "broker_run env (xs @ ys) b =
    (case broker_run env xs b of None \<Rightarrow> None | Some (Finished ok, b1) \<Rightarrow> Some (Finished ok, b1)
     | Some (Continue, b1) \<Rightarrow> broker_run env ys b1)"
  by (induction xs arbitrary: b) (auto split: prod.split Outcome.split)

end
