(* ===== verification/BrokerDemo.thy ===== *)
theory BrokerDemo
  imports BrokerMoves
begin

text \<open>A small durable broker with an idle world, on which the properties of runs are instantiated.\<close>

definition demo_runtime :: RuntimeConfig where
  "demo_runtime = \<lparr>rc_codex = \<lparr>cs_program = ''codex'', cs_args = []\<rparr>, rc_codex_thread_locks = None,
     rc_claude = \<lparr>cs_program = ''python3'', cs_args = []\<rparr>, rc_claude_setting_sources = [], rc_callback_timeout = 1\<rparr>"

definition demo_config :: EmbeddedConfig where
  "demo_config = \<lparr>ec_runtime = demo_runtime, ec_workspace = None, ec_allow_shared_workspaces = True, ec_replay_capacity = 8\<rparr>"

definition demo_env :: BrEnv where
  "demo_env = \<lparr>be_world = (\<lambda>n. quiet_world\<lparr>w_uuid := show_nat n\<rparr>),
     be_codec = \<lparr>cd_encode = (\<lambda>_. []), cd_decode = (\<lambda>_. None)\<rparr>, be_pretty = (\<lambda>_. []), be_alnum = (\<lambda>_. False)\<rparr>"

definition demo_broker :: Broker where
  "demo_broker =
     \<lparr>b_phase = AwaitInitialize, b_mode = Durable, b_generation = 0, b_cursor = 0, b_config = demo_config,
      b_agents = [], b_order = [], b_replay = \<lparr>rb_capacity = 8, rb_next_sequence = 1, rb_events = []\<rparr>,
      b_output = None, b_sent = [], b_next_request = 1, b_pending = [], b_queued_requests = [],
      b_registry = None, b_registry_file = None, b_status = None, b_status_file = None, b_spawned = [],
      b_ticks = 0, b_panicked = False\<rparr>"

lemma demo_new: "broker_new quiet_world demo_config Durable None None [] None None = Some demo_broker"
  by (simp add: broker_new_def rb_new_def demo_config_def demo_broker_def)

definition demo_request :: "string \<Rightarrow> string \<Rightarrow> json \<Rightarrow> json" where
  "demo_request i name params =
    jobj [(''jsonrpc'', JString ''2.0''), (''id'', JString i), (''method'', JString name), (''params'', params)]"

definition demo_notice :: "string \<Rightarrow> json \<Rightarrow> json" where
  "demo_notice name params = jobj [(''jsonrpc'', JString ''2.0''), (''method'', JString name), (''params'', params)]"

lemma demo_request_frame:
  "handle_client_frame env (demo_request i name (jobj params)) b = handle_request env (String i) name (jobj params) b"
  by (simp add: handle_client_frame_def demo_request_def jget_jobj get_str_def of_request_id_def)

lemma demo_notice_frame:
  "handle_client_frame env (demo_notice name (jobj params)) b = (False, handle_notification env name (jobj params) b)"
  by (simp add: handle_client_frame_def demo_notice_def jget_jobj get_str_def)

definition demo_hello :: "json" where
  "demo_hello = jobj [(''protocol_version'', JNum (PosInt 1)),
     (''client'', jobj [(''name'', JString ''editor''), (''version'', JString ''1'')])]"

lemma demo_hello_reads: "of_initialize demo_hello =
    Some \<lparr>ip_protocol_version = 1, ip_client = \<lparr>ci_name = ''editor'', ci_title = None, ci_version = ''1''\<rparr>, ip_last_sequence = None\<rparr>"
  by (simp add: demo_hello_def of_initialize_def struct_fields_jobj of_client_def field_defs of_u32_def)

end
