(* ===== verification/BrokerLedger.thy ===== *)
theory BrokerLedger
  imports BrokerDemo "HOL-Library.Multiset"
begin

text \<open>
  The account of a connection's requests: every request is answered, or waits with a provider task
  under a key of its own; \<open>ledger\<close> is the multiset of both.  Silent steps leave it alone, a served
  request adds exactly its identifier.
\<close>

section \<open>What the client has received\<close>

definition sent_on :: "u64 \<Rightarrow> Broker \<Rightarrow> json list" where
  "sent_on g b = map snd (filter (\<lambda>(c, _). c = g) (b_sent b))"

lemma sent_on_send [simp]: "sent_on g (send m b) = (if b_output b = Some g then sent_on g b @ [m] else sent_on g b)"
  by (auto simp: sent_on_def send_def split: option.split)

definition response_id :: "json \<Rightarrow> json option" where
  "response_id m = filter_opt (\<lambda>v. v \<noteq> JNull) (jget ''id'' m)"

lemma request_id_not_null [simp]: "json_of_request_id i \<noteq> JNull"
  by (cases i) (simp_all add: jint_def)

lemma response_id_simps [simp]:
  "response_id (notification n p) = None"
  "response_id (success_response i v) = Some (json_of_request_id i)"
  "response_id (error_response (Some i) c t d) = Some (json_of_request_id i)"
  "response_id (error_response None c t d) = None"
  by (simp_all add: response_id_def notification_def success_response_def error_response_def jget_jobj)

lemma response_id_answer: "answer_to i m \<Longrightarrow> response_id m = Some (json_of_request_id i)"
  by (auto simp: answer_to_def)

section \<open>The frame of a step\<close>

definition link :: "Broker \<Rightarrow> u64 option \<times> u64 \<times> ConnectionPhase \<times> BrokerMode" where
  "link b = (b_output b, b_generation b, b_phase b, b_mode b)"

definition tickets :: "Broker \<Rightarrow> (RequestId \<times> u64 \<times> RequestId) list" where
  "tickets b = map (\<lambda>(k, p). (k, pq_generation p, pq_public_id p)) (b_pending b)"

lemma send_link [simp]: "link (send m b) = link b" "tickets (send m b) = tickets b"
  "b_next_request (send m b) = b_next_request b" "b_output (send m b) = b_output b"
  "b_generation (send m b) = b_generation b"
  by (simp_all add: link_def tickets_def send_def split: option.split)

lemma upd_agent_link [simp]: "link (upd_agent i f b) = link b" "tickets (upd_agent i f b) = tickets b"
  "b_next_request (upd_agent i f b) = b_next_request b" "sent_on g (upd_agent i f b) = sent_on g b"
  by (simp_all add: link_def tickets_def upd_agent_def sent_on_def)

lemma patch_link [simp]: "link (send_transcript_patch i p b) = link b" "tickets (send_transcript_patch i p b) = tickets b"
  "b_next_request (send_transcript_patch i p b) = b_next_request b"
  by (simp_all add: send_transcript_patch_def)

lemma send_if_ready_link [simp]: "link (send_if_ready e b) = link b" "tickets (send_if_ready e b) = tickets b"
  "b_next_request (send_if_ready e b) = b_next_request b"
  by (simp_all add: send_if_ready_def send_event_def)

lemma tickets_mark: "tickets (mark_history k i b) = tickets b"
  by (auto simp: tickets_def mark_history_def)

lemma bstep_link: "bstep env b b' \<Longrightarrow> link b' = link b \<and> tickets b' = tickets b"
  by (induction rule: bstep.induct)
    (auto simp: tickets_mark split: option.split,
     auto simp: tick_def insert_agent_def remove_agents_def mark_history_def link_def tickets_def)

lemma silently_link: "silently env b b' \<Longrightarrow> link b' = link b \<and> tickets b' = tickets b"
  by (induction rule: rtranclp_induct) (auto dest: bstep_link)

definition answered_ids :: "u64 \<Rightarrow> Broker \<Rightarrow> json multiset" where
  "answered_ids g b = mset (filter_map response_id (sent_on g b))"

definition waiting_ids :: "u64 \<Rightarrow> Broker \<Rightarrow> json multiset" where
  "waiting_ids g b = mset (map (\<lambda>(_, _, i). json_of_request_id i) (filter (\<lambda>(_, c, _). c = g) (tickets b)))"

definition ledger :: "u64 \<Rightarrow> Broker \<Rightarrow> json multiset" where
  "ledger g b = answered_ids g b + waiting_ids g b"

lemma answered_send [simp]:
  "answered_ids g (send m b) =
    (if b_output b = Some g then answered_ids g b + mset (filter_map response_id [m]) else answered_ids g b)"
  by (simp add: answered_ids_def del: filter_map.simps)

lemma bstep_answered: "bstep env b b' \<Longrightarrow> answered_ids g b' = answered_ids g b"
  by (induction rule: bstep.induct)
    (auto simp: send_transcript_patch_def send_if_ready_def send_event_def split: option.split,
     auto simp: answered_ids_def sent_on_def tick_def insert_agent_def remove_agents_def mark_history_def upd_agent_def)

lemma silently_answered: "silently env b b' \<Longrightarrow> answered_ids g b' = answered_ids g b"
  by (induction rule: rtranclp_induct) (auto dest: bstep_answered [where g = g])

lemma silently_ledger: "silently env b b' \<Longrightarrow> ledger g b' = ledger g b"
  using silently_link [of env b b'] silently_answered [of env b b' g] by (simp add: ledger_def waiting_ids_def)

section \<open>Keys of their own\<close>

text \<open>
  The desk of the broker is in order: no two waiting requests share a key, every key was given out
  before, under the current connection or an earlier one, and the connections are numbered from 1.
\<close>

definition ticket_key :: "nat \<Rightarrow> nat \<Rightarrow> RequestId" where
  "ticket_key m n = String (''broker:'' @ show_nat m @ '':'' @ show_nat n)"

lemma ticket_key_inject: "ticket_key m n = ticket_key m' n' \<Longrightarrow> n = n'"
proof -
  have no_colon: "CHR '':'' \<notin> set (show_nat k)" for k
    using show_nat_is_digit [of "CHR '':''" k] by (auto simp: is_ascii_digit_def)
  have once: "split_once '':'' (show_nat a @ '':'' @ show_nat c) = Some (show_nat a, show_nat c)" for a c
    using split_once_char [OF no_colon [of a], of "show_nat c"] by simp
  assume "ticket_key m n = ticket_key m' n'"
  then have "show_nat m @ '':'' @ show_nat n = show_nat m' @ '':'' @ show_nat n'"
    by (simp add: ticket_key_def)
  then have "Some (show_nat m, show_nat n) = Some (show_nat m', show_nat n')"
    by (metis once)
  then show ?thesis by simp
qed

definition desk_ok :: "Broker \<Rightarrow> bool" where
  "desk_ok b =
    (distinct (map fst (tickets b))
     \<and> (\<forall>(k, g, i) \<in> set (tickets b). g \<le> b_generation b \<and> (\<exists>m n. k = ticket_key m n \<and> n < unat (b_next_request b)))
     \<and> (\<forall>(g, m) \<in> set (b_sent b). g \<le> b_generation b)
     \<and> (b_output b = None \<or> b_output b = Some (b_generation b) \<and> 0 < b_generation b))"

lemma register_tickets:
  assumes "runtime_request i b = (k, b')" and "\<not> b_panicked b'" and "desk_ok b"
  shows "tickets b' = (k, b_generation b, i) # tickets b \<and> k \<notin> fst ` set (tickets b)
    \<and> unat (b_next_request b') = Suc (unat (b_next_request b)) \<and> k = ticket_key (unat (b_generation b)) (unat (b_next_request b))
    \<and> link b' = link b \<and> b_sent b' = b_sent b"
proof -
  from assms(1,2) obtain n where n: "checked_add1 (b_next_request b) = Some n"
    by (auto simp: runtime_request_def Let_def split: option.splits)
  with assms(1) have k: "k = ticket_key (unat (b_generation b)) (unat (b_next_request b))"
    and b': "b' = b\<lparr>b_next_request := n, b_pending := map_insert k
        \<lparr>pq_generation = b_generation b, pq_public_id = i, pq_history_agent = None\<rparr> (b_pending b)\<rparr>"
    by (auto simp: runtime_request_def Let_def ticket_key_def)
  have fresh: "k \<notin> fst ` set (tickets b)"
    using assms(3) ticket_key_inject unfolding desk_ok_def k by fastforce
  then have "filter (\<lambda>kv. fst kv \<noteq> k) (b_pending b) = b_pending b"
    by (force simp: filter_id_conv tickets_def image_iff)
  then have "tickets b' = (k, b_generation b, i) # tickets b"
    by (simp add: tickets_def b' map_insert_def map_remove_def)
  with fresh k n show ?thesis
    by (simp add: b' link_def checked_add1_Some)
qed

lemma bstep_sent:
  "bstep env b b' \<Longrightarrow> b_sent b' = b_sent b \<or> (\<exists>c m. b_output b = Some c \<and> b_sent b' = b_sent b @ [(c, m)])"
  by (induction rule: bstep.induct)
    (auto simp: send_transcript_patch_def send_if_ready_def send_event_def send_def tick_def insert_agent_def
      remove_agents_def mark_history_def upd_agent_def split: option.split)

lemma bstep_next: "bstep env b b' \<Longrightarrow> unat (b_next_request b) \<le> unat (b_next_request b')"
  by (induction rule: bstep.induct)
    (auto simp: checked_add1_Some split: option.split,
     auto simp: tick_def insert_agent_def remove_agents_def mark_history_def send_if_ready_def)

lemma desk_ok_sent:
  assumes "desk_ok b" and "link b' = link b" and "tickets b' = tickets b"
    and "unat (b_next_request b) \<le> unat (b_next_request b')"
    and "b_sent b' = b_sent b \<or> (\<exists>c m. b_output b = Some c \<and> b_sent b' = b_sent b @ [(c, m)])"
  shows "desk_ok b'"
proof -
  have eq: "b_generation b' = b_generation b" "b_output b' = b_output b"
    using assms(2) by (simp_all add: link_def)
  have "\<forall>(g, m) \<in> set (b_sent b'). g \<le> b_generation b"
    using assms(1,5) by (auto simp: desk_ok_def)
  moreover have "n < unat (b_next_request b')" if "n < unat (b_next_request b)" for n
    using that assms(4) by simp
  ultimately show ?thesis
    using assms(1,3) unfolding desk_ok_def eq by (fastforce split: prod.splits)
qed

lemma send_sent: "b_sent (send m b) = b_sent b \<or> (\<exists>c m'. b_output b = Some c \<and> b_sent (send m b) = b_sent b @ [(c, m')])"
  by (simp add: send_def split: option.split)

lemma desk_ok_send: "desk_ok b \<Longrightarrow> desk_ok (send m b)"
  by (erule desk_ok_sent [OF _ send_link(1,2) _ send_sent]) simp

lemma desk_ok_open: "desk_ok b \<Longrightarrow> desk_ok (send_events es b)"
proof (induction es b rule: send_events.induct)
  case (2 e es b)
  have "desk_ok (send_event e b)"
    using 2(2) by (simp add: send_event_def desk_ok_send)
  with 2 show ?case by simp
qed simp

lemma desk_ok_move:
  assumes "desk_ok b" and "move env b b'" and "\<not> b_panicked b'"
  shows "desk_ok b'"
  using assms(2,1,3)
proof cases
  case quiet
  then show ?thesis
    using assms(1) bstep_link bstep_sent bstep_next desk_ok_sent by meson
next
  case (register i)
  obtain k where rr: "runtime_request i b = (k, b')"
    using register by (cases "runtime_request i b") simp
  from register_tickets [OF rr assms(3,1)] assms(1) show ?thesis
    by (fastforce simp: desk_ok_def link_def)
next
  case (forget k)
  have sub: "set (tickets b') \<subseteq> set (tickets b)" "map fst (tickets b') = filter (\<lambda>x. x \<noteq> k) (map fst (tickets b))"
    by (auto simp: forget tickets_def forget_request_def map_remove_def map_fst_filter comp_def case_prod_unfold
        simp flip: map_fst_filter)
  with assms(1) show ?thesis
    by (auto simp: desk_ok_def forget forget_request_def)
next
  case (start)
  have "desk_ok (b\<lparr>b_phase := Ready\<rparr>)"
    using assms(1) by (simp add: desk_ok_def tickets_def)
  then show ?thesis
    by (auto simp: start open_session_def Let_def desk_ok_open split: ReplayResult.split)
next
  case (connect g)
  have b': "tickets b' = tickets b" "b_sent b' = b_sent b" "b_next_request b' = b_next_request b"
    "b_generation b' = g" "b_output b' = Some g"
    by (simp_all add: connect take_over_def tickets_def)
  have "0 < g" and "c \<le> g" if "c \<le> b_generation b" for c
    using connect(2) that by (auto intro: le_less_trans)
  then show ?thesis
    using assms(1) unfolding desk_ok_def b' by blast
next
  case disconnect
  then show ?thesis
    using assms(1) by (auto simp: desk_ok_def hang_up_def tickets_def comp_def case_prod_unfold intro: distinct_map_filter)
next
  case (greet c)
  then show ?thesis
    using assms(1) by (simp add: desk_ok_def greet_def tickets_def)
qed (use assms(1) in \<open>simp_all add: desk_ok_send\<close>)

interpretation desk: kept env desk_ok for env
  by unfold_locales (rule desk_ok_move)

text \<open>A connection that has ended does not come back.\<close>

definition gone :: "u64 \<Rightarrow> Broker \<Rightarrow> bool" where
  "gone g b = (g \<le> b_generation b \<and> b_output b \<noteq> Some g)"

lemma send_events_link [simp]: "link (send_events es b) = link b"
  by (induction es b rule: send_events.induct) (simp_all add: send_event_def)

lemma open_session_link [simp]:
  "b_output (open_session b) = b_output b" "b_generation (open_session b) = b_generation b"
  "b_mode (open_session b) = b_mode b" "b_phase (open_session b) = Ready"
  using send_events_link [of _ "b\<lparr>b_phase := Ready\<rparr>"]
  by (auto simp: open_session_def Let_def link_def split: ReplayResult.split)

lemma gone_move: "gone g b \<Longrightarrow> move env b b' \<Longrightarrow> gone g b'"
proof -
  have register: "b_output (snd (runtime_request i b)) = b_output b"
    "b_generation (snd (runtime_request i b)) = b_generation b" for i
    by (simp_all add: runtime_request_def Let_def split: option.split)
  show "gone g b \<Longrightarrow> move env b b' \<Longrightarrow> gone g b'"
    by (erule move.cases) (auto simp: gone_def register forget_request_def take_over_def hang_up_def greet_def link_def
      dest!: bstep_link)
qed

interpretation ended: kept env "gone g" for env g
  by unfold_locales (rule gone_move)

section \<open>The account\<close>

definition on_link :: "u64 \<Rightarrow> Broker \<Rightarrow> bool" where
  "on_link g b = (b_output b = Some g \<and> b_generation b = g \<and> desk_ok b)"

lemma silently_panicked: "silently env b b' \<Longrightarrow> \<not> b_panicked b' \<Longrightarrow> \<not> b_panicked b"
  by (induction rule: rtranclp_induct) (auto dest: bstep_panicked)

lemma silently_on_link:
  assumes "on_link g b" and "silently env b b'" and "\<not> b_panicked b'"
  shows "on_link g b'"
  using assms silently_link [OF assms(2)] desk.kept_moves [OF silently_moves [OF assms(2)]]
  by (simp add: on_link_def link_def)

lemma register_ledger:
  assumes "on_link g b" and "runtime_request i b = (k, b')" and "\<not> b_panicked b'"
  shows "ledger g b' = add_mset (json_of_request_id i) (ledger g b)"
  using assms register_tickets [OF assms(2,3)]
  by (simp add: on_link_def ledger_def answered_ids_def waiting_ids_def sent_on_def)

lemma forget_tickets: "tickets (forget_request k b) = filter (\<lambda>t. fst t \<noteq> k) (tickets b)"
  by (simp add: tickets_def forget_request_def map_remove_def filter_map comp_def case_prod_unfold)

lemma forget_answered [simp]: "answered_ids g (forget_request k b) = answered_ids g b" "b_output (forget_request k b) = b_output b"
  by (simp_all add: answered_ids_def sent_on_def forget_request_def)

lemma send_ledger:
  "b_output b = Some g \<Longrightarrow> answer_to i m \<Longrightarrow> ledger g (send m b) = add_mset (json_of_request_id i) (ledger g b)"
  by (simp add: ledger_def waiting_ids_def response_id_answer)

lemma filter_other_keys: "k \<notin> fst ` set xs \<Longrightarrow> filter (\<lambda>t. fst t \<noteq> k) xs = xs"
  by (auto simp: filter_id_conv image_iff)

lemma served_ledger:
  assumes "served env i b b'" and "on_link g b" and "\<not> b_panicked b'"
  shows "ledger g b' = add_mset (json_of_request_id i) (ledger g b)"
  using assms
proof (induction rule: served.induct)
  case (answered b b1 m b2)
  then have "\<not> b_panicked b1" using silently_panicked by fastforce
  then have "on_link g b1" using answered silently_on_link by blast
  then show ?case
    using answered send_ledger [of b1 g i m] silently_ledger by (simp add: on_link_def)
next
  case (deferred b b1 b2)
  obtain k b3 where rr: "runtime_request i b1 = (k, b3)" by (cases "runtime_request i b1")
  have np: "\<not> b_panicked b3"
    using deferred rr silently_panicked by fastforce
  then have "\<not> b_panicked b1"
    using move_panicked [OF move.register, of b1 i] rr by auto
  then have "on_link g b1"
    using deferred silently_on_link by blast
  then show ?case
    using register_ledger [OF _ rr np] deferred rr silently_ledger by simp
next
  case (withdrawn b b1 k b2 b3 m b4)
  have np: "\<not> b_panicked b3"
    using withdrawn(5,7) silently_panicked by (fastforce simp: forget_request_def)
  then have np2: "\<not> b_panicked b2"
    using withdrawn(3) silently_panicked by blast
  then have "\<not> b_panicked b1"
    using move_panicked [OF move.register, of b1 i] withdrawn(2) by auto
  then have l: "on_link g b1"
    using withdrawn silently_on_link by blast
  then have d: "desk_ok b1" by (simp add: on_link_def)
  note reg = register_tickets [OF withdrawn(2) np2 d]
  have fresh: "k \<notin> fst ` set (tickets b1)"
    using reg by blast
  have "tickets b3 = (k, b_generation b1, i) # tickets b1"
    using reg silently_link [OF withdrawn(3)] by metis
  with filter_other_keys [OF fresh] have "tickets (forget_request k b3) = tickets b1"
    by (simp add: forget_tickets)
  moreover have "answered_ids g b3 = answered_ids g b1"
    using reg silently_answered [OF withdrawn(3)] by (simp add: answered_ids_def sent_on_def)
  ultimately have "ledger g (forget_request k b3) = ledger g b1"
    by (simp add: ledger_def waiting_ids_def)
  moreover have "b_output (forget_request k b3) = Some g"
    using reg silently_link [OF withdrawn(3)] l by (simp add: link_def on_link_def)
  ultimately show ?case
    using send_ledger [OF _ withdrawn(4)] silently_ledger withdrawn(1,5) by metis
qed

text \<open>A report settles at most one waiting request, and then with an answer of its own.\<close>

lemma mset_take_key:
  "distinct (map fst xs) \<Longrightarrow> t \<in> set xs \<Longrightarrow> mset xs = add_mset t (mset (filter (\<lambda>u. fst u \<noteq> fst t) xs))"
proof (induction xs)
  case (Cons x xs)
  show ?case
  proof (cases "x = t")
    case True
    then show ?thesis
      using Cons.prems(1) filter_other_keys [of "fst t" xs] by simp
  next
    case False
    then have "fst x \<noteq> fst t"
      using Cons.prems by (auto simp: image_iff)
    then show ?thesis
      using Cons False by simp
  qed
qed simp

lemma waiting_mset:
  "waiting_ids g b = image_mset (\<lambda>(_, _, i). json_of_request_id i) (filter_mset (\<lambda>(_, c, _). c = g) (mset (tickets b)))"
  by (simp add: waiting_ids_def flip: mset_filter mset_map)

lemma settle_ledger:
  assumes "on_link g b" and "\<And>j. answer_to j (response j)"
  shows "ledger g (send_runtime_response k response b) = ledger g b"
proof (cases "map_of (b_pending b) k")
  case (Some p)
  let ?t = "(k, pq_generation p, pq_public_id p)" and ?b = "forget_request k b"
  have "?t \<in> set (tickets b)" "distinct (map fst (tickets b))"
    using map_of_SomeD [OF Some] assms(1) by (force simp: tickets_def on_link_def desk_ok_def)+
  from mset_take_key [OF this(2,1)] have split: "mset (tickets b) = add_mset ?t (mset (tickets ?b))"
    by (simp add: forget_tickets)
  have "b_generation ?b = g" "b_output ?b = Some g"
    using assms(1) by (simp_all add: on_link_def forget_request_def)
  then show ?thesis
    using Some split assms(2) [of "pq_public_id p"]
    by (simp add: send_runtime_response_def ledger_def waiting_mset response_id_answer)
qed (simp add: send_runtime_response_def)

lemma reported_ledger:
  assumes "reported env b b'" and "on_link g b" and "\<not> b_panicked b'"
  shows "ledger g b' = ledger g b"
  using assms
proof (induction rule: reported.induct)
  case (settled b b1 response k b2)
  have "\<not> b_panicked (send_runtime_response k response b1)"
    using settled silently_panicked by blast
  then have "\<not> b_panicked b1"
    by (auto simp: send_runtime_response_def forget_request_def Let_def split: option.splits if_splits)
  then have "on_link g b1"
    using settled silently_on_link by blast
  from settle_ledger [OF this settled(2)] show ?case
    using settled silently_ledger by metis
qed (simp add: silently_ledger)

section \<open>Frames\<close>

text \<open>The identifier under which a frame asks for an answer.\<close>

definition request_of :: "json \<Rightarrow> RequestId option" where
  "request_of frame =
    (if is_object frame \<and> get_str ''jsonrpc'' frame = Some ''2.0'' \<and> get_str ''method'' frame \<noteq> None
     then Option.bind (jget ''id'' frame) of_request_id else None)"

fun requests_of :: "u64 \<Rightarrow> BrokerInput list \<Rightarrow> json multiset" where
  "requests_of g [] = {#}"
| "requests_of g (FromClient (InFrame c frame) # xs) =
    (case request_of frame of
       Some i \<Rightarrow> if c = g then add_mset (json_of_request_id i) (requests_of g xs) else requests_of g xs
     | None \<Rightarrow> requests_of g xs)"
| "requests_of g (x # xs) = requests_of g xs"

lemma frame_ledger:
  assumes "handle_client_frame env frame b = (stop, b')" and "on_link g b" and "\<not> b_panicked b'"
  shows "ledger g b' = (case request_of frame of None \<Rightarrow> ledger g b
    | Some i \<Rightarrow> add_mset (json_of_request_id i) (ledger g b))"
proof -
  have out: "b_output b = Some g"
    using assms(2) by (simp add: on_link_def)
  have error: "ledger g (send (error_response None c t d) b) = ledger g b" for c t d
    by (simp add: ledger_def waiting_ids_def)
  have answer: "ledger g (send (error_response (Some i) c t d) b) = add_mset (json_of_request_id i) (ledger g b)" for i c t d
    using out by (rule send_ledger) simp
  have request: "ledger g b' = add_mset (json_of_request_id i) (ledger g b)"
    if r: "handle_request env i name params b = (stop, b')" for i name params
    using request_served [OF r]
  proof
    assume "served env i b b'"
    then show ?thesis by (rule served_ledger [OF _ assms(2,3)])
  next
    assume "b_phase b = AwaitInitialize \<and> (\<exists>c v. b' = reply i v (greet c b))"
    then obtain c v where b': "b' = send (success_response i v) (greet c b)"
      by (auto simp: reply_def)
    have "ledger g (greet c b) = ledger g b" "b_output (greet c b) = Some g"
      using out by (simp_all add: greet_def ledger_def answered_ids_def waiting_ids_def sent_on_def tickets_def)
    then show ?thesis
      unfolding b' using send_ledger [of "greet c b" g i] by simp
  qed
  have notice: "ledger g (handle_notification env name params b) = ledger g b" for name params
  proof -
    have "ledger g (send_events es c) = ledger g c" for es c
      by (induction es c rule: send_events.induct) (simp_all add: send_event_def ledger_def waiting_ids_def)
    moreover have "ledger g (b\<lparr>b_phase := Ready\<rparr>) = ledger g b"
      by (simp add: ledger_def answered_ids_def waiting_ids_def sent_on_def tickets_def)
    ultimately have "ledger g (open_session b) = ledger g b"
      by (simp add: open_session_def Let_def split: ReplayResult.split)
    then show ?thesis
      by (simp add: handle_notification_def silently_ledger [OF silently_notify_state])
  qed
  show ?thesis
    using assms(1)
    by (auto simp: handle_client_frame_def request_of_def invalid_request_def Let_def error answer notice request
      split: if_splits option.splits)
qed

section \<open>Runs\<close>

lemma runtime_request_link: "link (snd (runtime_request i b)) = link b"
  by (simp add: runtime_request_def Let_def link_def split: option.split)

lemma forget_link [simp]: "link (forget_request k b) = link b"
  by (simp add: forget_request_def link_def)

lemma settle_link [simp]: "link (send_runtime_response k response b) = link b"
  by (simp add: send_runtime_response_def Let_def split: option.split)

lemma served_link: "served env i b b' \<Longrightarrow> link b' = link b"
proof (induction rule: served.induct)
  case (withdrawn b b1 k b2 b3 m b4)
  then show ?case
    using runtime_request_link [of i b1] by (auto dest!: silently_link)
qed (auto dest!: silently_link simp: runtime_request_link)

lemma reported_link: "reported env b b' \<Longrightarrow> link b' = link b"
  by (induction rule: reported.induct) (auto dest!: silently_link)

lemma frame_output: "handle_client_frame env frame b = (stop, b') \<Longrightarrow> b_output b' = b_output b"
proof -
  have request: "handle_request env i name params b = (stop, b') \<Longrightarrow> b_output b' = b_output b" for i name params
    by (drule request_served) (auto dest!: served_link simp: link_def reply_def greet_def)
  have notice: "b_output (handle_notification env name params b) = b_output b" for name params
    using silently_link [OF silently_notify_state, of env "open_session b"]
    by (simp add: handle_notification_def link_def)
  show "handle_client_frame env frame b = (stop, b') \<Longrightarrow> b_output b' = b_output b"
    by (auto simp: handle_client_frame_def invalid_request_def Let_def request notice split: if_splits option.splits)
qed

lemma hung_up: "b_output (broker_disconnect env (b_generation b) b) = None"
  using silently_link [OF silently_disconnect_agents, of env _ "hang_up (b_generation b) b"]
  by (simp add: broker_disconnect_def Let_def link_def) (simp add: hang_up_def)

text \<open>What one input does to the connection.\<close>

lemma current_output:
  assumes "handle_current env c b = (r, b')" and "input_generation c = b_generation b" and "\<And>g. c \<noteq> InConnected g"
  shows "b_output b' = b_output b \<or> b_output b' = None"
proof (cases c)
  case (InFrame g frame)
  obtain stop b1 where f: "handle_client_frame env frame b = (stop, b1)"
    by (cases "handle_client_frame env frame b")
  from frame_output [OF f] show ?thesis
    using assms(1) InFrame f by (simp add: handle_current_def)
next
  case (InFrameTooLarge g)
  let ?b1 = "send (error_response None (- 32600) ''Invalid Request''
    (Some (jobj [(''reason'', JString ''frame_too_large'')]))) b"
  have "b_output (broker_disconnect env g ?b1) = None"
    using hung_up [of env ?b1] assms(2) InFrameTooLarge by (simp add: input_generation_def)
  then show ?thesis
    using assms(1) InFrameTooLarge by (auto simp: handle_current_def Let_def split: if_splits)
qed (use assms hung_up [of env b] in \<open>auto simp: handle_current_def input_generation_def split: if_splits\<close>)

lemma client_step:
  "(\<And>g. c \<noteq> InConnected g) \<Longrightarrow> broker_step env (FromClient c) b =
    (if input_generation c \<noteq> b_generation b then (Continue, b) else handle_current env c b)"
  by (cases c) auto

lemma step_output:
  assumes "broker_step env x b = (r, b')"
  shows "b_output b' = b_output b \<or> b_output b' = None
    \<or> (\<exists>c. x = FromClient (InConnected c) \<and> b_generation b < c \<and> b' = take_over c b)"
proof (cases x)
  case (FromClient c)
  show ?thesis
  proof (cases "\<exists>g. c = InConnected g")
    case True
    with assms FromClient show ?thesis
      by (auto simp: broker_connect_def split: if_splits)
  next
    case False
    with assms FromClient current_output [of env c b r b'] show ?thesis
      by (auto simp: client_step split: if_splits)
  qed
next
  case (FromRuntime e)
  then show ?thesis
    using assms reported_link [OF reported_runtime_event, of env e b] by (auto simp: link_def)
qed

lemma step_ledger:
  assumes step: "broker_step env x b = (r, b')" and l: "on_link g b" and np: "\<not> b_panicked b'"
    and still: "b_output b' = Some g"
  shows "on_link g b' \<and> ledger g b' = ledger g b + requests_of g [x]"
proof
  have gen: "b_generation b = g" and out: "b_output b = Some g"
    using l by (simp_all add: on_link_def)
  have "desk_ok b'"
    using desk.kept_step [OF step _ np] l by (simp add: on_link_def)
  then show "on_link g b'"
    using still by (simp add: on_link_def desk_ok_def)
  show "ledger g b' = ledger g b + requests_of g [x]"
  proof (cases x)
    case (FromRuntime e)
    then show ?thesis
      using step reported_ledger [OF reported_runtime_event l] np by auto
  next
    case (FromClient c)
    show ?thesis
    proof (cases "\<exists>h. c = InConnected h \<or> input_generation c \<noteq> b_generation b")
      case True
      then show ?thesis
        using step FromClient gen still
        by (auto simp: client_step broker_connect_def take_over_def input_generation_def
          split: if_splits ClientInput.splits option.splits)
    next
      case False
      then have cur: "handle_current env c b = (r, b')" "input_generation c = g"
        using step FromClient gen by (auto simp: client_step)
      show ?thesis
      proof (cases c)
        case (InFrame h frame)
        then obtain stop where f: "handle_client_frame env frame b = (stop, b')"
          using cur by (auto simp: handle_current_def split: prod.splits)
        show ?thesis
          using frame_ledger [OF f l np] FromClient InFrame cur
          by (auto simp: input_generation_def split: option.splits)
      next
        case (InFrameTooLarge h)
        let ?b1 = "send (error_response None (- 32600) ''Invalid Request''
          (Some (jobj [(''reason'', JString ''frame_too_large'')]))) b"
        have "b_output (broker_disconnect env h ?b1) = None"
          using hung_up [of env ?b1] cur InFrameTooLarge gen by (simp add: input_generation_def)
        then have "b' = ?b1"
          using cur InFrameTooLarge still by (auto simp: handle_current_def Let_def split: if_splits)
        then show ?thesis
          by (simp add: FromClient InFrameTooLarge ledger_def waiting_ids_def)
      qed (use cur False FromClient still hung_up [of env b] gen in
        \<open>auto simp: handle_current_def input_generation_def ledger_def waiting_ids_def split: if_splits\<close>)
    qed
  qed
qed

lemma generation_move: "g \<le> b_generation b \<Longrightarrow> move env b b' \<Longrightarrow> g \<le> b_generation b'"
  by (erule move.cases) (auto simp: runtime_request_def Let_def forget_request_def take_over_def hang_up_def greet_def link_def
    split: option.split dest!: bstep_link)

interpretation reached: kept env "\<lambda>b. g \<le> b_generation b" for env g
  by unfold_locales (rule generation_move)

lemma run_ledger:
  assumes "broker_run env xs b = Some (r, b')" and "on_link g b" and "b_output b' = Some g"
  shows "\<exists>handled rest. xs = handled @ rest \<and> (r = Continue \<longrightarrow> rest = [])
    \<and> ledger g b' = ledger g b + requests_of g handled"
  using assms
proof (induction xs arbitrary: b)
  case (Cons x xs)
  obtain r1 b1 where st: "broker_step env x b = (r1, b1)" by (cases "broker_step env x b")
  have np: "\<not> b_panicked b1"
    using Cons.prems(1) st by (auto split: if_splits)
  have "b_output b1 = Some g"
  proof (rule ccontr)
    assume "b_output b1 \<noteq> Some g"
    moreover have "g \<le> b_generation b1"
      using reached.kept_step [OF st _ np] Cons.prems(2) by (simp add: on_link_def)
    ultimately have g: "gone g b1" by (simp add: gone_def)
    have "gone g b'"
      using Cons.prems(1) st np ended.kept_run g by (auto split: Outcome.splits)
    then show False using Cons.prems(3) by (simp add: gone_def)
  qed
  with step_ledger [OF st Cons.prems(2) np] have b1: "on_link g b1" "ledger g b1 = ledger g b + requests_of g [x]"
    by blast+
  have one: "requests_of g (x # ys) = requests_of g [x] + requests_of g ys" for ys
    by (cases x) (auto split: option.split ClientInput.split simp: requests_of.simps, rename_tac c, case_tac c, auto split: option.split)
  show ?case
  proof (cases r1)
    case Continue
    then have "broker_run env xs b1 = Some (r, b')"
      using Cons.prems(1) st np by simp
    from Cons.IH [OF this b1(1) Cons.prems(3)] obtain handled rest
      where "xs = handled @ rest" "r = Continue \<longrightarrow> rest = []" "ledger g b' = ledger g b1 + requests_of g handled"
      by blast
    then show ?thesis
      using b1(2) one [of handled] by (intro exI [of _ "x # handled"] exI [of _ rest]) (simp add: add_ac)
  next
    case (Finished ok)
    then have "r = Finished ok" "b' = b1"
      using Cons.prems(1) st np by simp_all
    then show ?thesis
      using b1(2) by (intro exI [of _ "[x]"] exI [of _ xs]) simp
  qed
qed (auto simp: exI [of _ "[]"])

lemma not_connected:
  "broker_run env xs b = Some (r, b') \<Longrightarrow> b_output b \<noteq> Some g \<Longrightarrow> FromClient (InConnected g) \<notin> set xs \<Longrightarrow>
   b_output b' \<noteq> Some g"
proof (induction xs arbitrary: b)
  case (Cons x xs)
  obtain r1 b1 where st: "broker_step env x b = (r1, b1)" by (cases "broker_step env x b")
  have "b_output b1 \<noteq> Some g"
    using step_output [OF st] Cons.prems(2,3) by (auto simp: take_over_def)
  then show ?case
    using Cons st by (auto split: if_splits Outcome.splits)
qed simp

lemma broker_new_ok: "broker_new w config mode registry rfile agents status sfile = Some b \<Longrightarrow>
    desk_ok b \<and> b_output b = None \<and> b_generation b = 0 \<and> \<not> b_panicked b \<and> b_sent b = []"
  by (auto simp: broker_new_def desk_ok_def tickets_def split: option.splits)

lemma take_over_ledger:
  assumes "desk_ok b" and "b_generation b < g" and "\<not> b_panicked b"
  shows "on_link g (take_over g b) \<and> ledger g (take_over g b) = {#}"
proof -
  have "\<not> g \<le> c" if "c \<le> b_generation b" for c
    using that assms(2) by simp
  then have none: "sent_on g b = []" "filter (\<lambda>(_, c, _). c = g) (tickets b) = []"
    using assms by (fastforce simp: desk_ok_def sent_on_def filter_empty_conv)+
  have same: "sent_on g (take_over g b) = sent_on g b" "tickets (take_over g b) = tickets b"
    by (simp_all add: take_over_def sent_on_def tickets_def)
  have "desk_ok (take_over g b)"
    by (rule desk_ok_move [OF assms(1) move.connect [OF assms(2)]]) (simp add: take_over_def assms(3))
  then show ?thesis
    using none by (simp add: on_link_def ledger_def answered_ids_def waiting_ids_def same) (simp add: take_over_def)
qed

text \<open>
  C2.  Every request is answered exactly once.  Take any broker, any inputs, and a connection that is
  still the current one at the end: the identifiers of the responses it was sent, together with
  those of its requests that wait with a provider task, are exactly the identifiers of the requests
  handled on it, each as often as the client used it.  No request is dropped, none is answered
  twice, and no response is made up, whatever the handlers do and whatever the tasks report; nothing
  is left unhandled unless the broker finished.
\<close>

theorem requests_answered_once:
  assumes new: "broker_new w config mode registry rfile agents status sfile = Some b0"
    and run: "broker_run env (before @ FromClient (InConnected g) # after) b0 = Some (r, b)"
    and first: "FromClient (InConnected g) \<notin> set before"
    and current: "b_output b = Some g"
  shows "\<exists>handled rest. after = handled @ rest \<and> (r = Continue \<longrightarrow> rest = [])
    \<and> answered_ids g b + waiting_ids g b = requests_of g handled"
proof -
  note ok0 = broker_new_ok [OF new]
  obtain r1 b1 where run1: "broker_run env before b0 = Some (r1, b1)"
    using run by (auto simp: run_append split: option.splits)
  have not_yet: "b_output b1 \<noteq> Some g"
    using not_connected [OF run1 _ first] ok0 by simp
  then have r1: "r1 = Continue" and run2: "broker_run env (FromClient (InConnected g) # after) b1 = Some (r, b)"
    using run run1 current by (auto simp: run_append split: Outcome.splits)
  have b1: "desk_ok b1" "\<not> b_panicked b1"
    using desk.kept_run [OF run1] run_not_panicked [OF run1] ok0 by blast+
  have run3: "broker_run env after (broker_connect g b1) = Some (r, b)"
    using run2 b1(2) by (auto split: if_splits)
  have "b_generation b1 < g"
  proof (rule ccontr)
    assume "\<not> b_generation b1 < g"
    then have "gone g b1" and "broker_connect g b1 = b1"
      using not_yet by (simp_all add: gone_def broker_connect_def)
    then show False
      using ended.kept_run run3 current by (metis gone_def)
  qed
  then have l: "on_link g (take_over g b1)" "ledger g (take_over g b1) = {#}"
    and conn: "broker_connect g b1 = take_over g b1"
    using take_over_ledger [OF b1(1) _ b1(2)] by (simp_all add: broker_connect_def)
  show ?thesis
    using run_ledger [OF run3 [unfolded conn] l(1) current] l(2) by (simp add: ledger_def)
qed

text \<open>On the demonstration broker: a request before the handshake is answered with an error.\<close>

lemma demo_refused:
  "\<exists>b. broker_run demo_env ([] @ FromClient (InConnected 1) # [FromClient (InFrame 1 (demo_request ''q'' ''agent/list'' (jobj [])))])
      demo_broker = Some (Continue, b) \<and> b_output b = Some 1"
proof -
  have "broker_step demo_env (FromClient (InConnected 1)) demo_broker = (Continue, take_over 1 demo_broker)"
    by (simp add: broker_connect_def demo_broker_def)
  moreover have "\<exists>b. broker_step demo_env (FromClient (InFrame 1 (demo_request ''q'' ''agent/list'' (jobj [])))) (take_over 1 demo_broker)
      = (Continue, b) \<and> b_output b = Some 1 \<and> \<not> b_panicked b"
    by (simp add: input_generation_def handle_current_def demo_request_frame handle_request_def)
      (simp add: take_over_def demo_broker_def refuse_def)
  moreover have "\<not> b_panicked (take_over 1 demo_broker)"
    by (simp add: take_over_def demo_broker_def)
  ultimately show ?thesis by auto
qed

theorem requests_answered_once_witness:
  "\<exists>b handled rest. [FromClient (InFrame 1 (demo_request ''q'' ''agent/list'' (jobj [])))] = handled @ rest \<and> rest = []
    \<and> answered_ids 1 b + waiting_ids 1 b = requests_of 1 handled"
proof -
  obtain b where run: "broker_run demo_env ([] @ FromClient (InConnected 1) # [FromClient (InFrame 1 (demo_request ''q'' ''agent/list'' (jobj [])))])
      demo_broker = Some (Continue, b)" and out: "b_output b = Some 1"
    using demo_refused by blast
  from requests_answered_once [OF demo_new run _ out] show ?thesis by auto
qed

section \<open>Waiting requests\<close>

lemma tickets_map: "map_of (tickets b) k = map_option (\<lambda>p. (pq_generation p, pq_public_id p)) (map_of (b_pending b) k)"
proof -
  have "map_of (map (\<lambda>(k, p). (k, pq_generation p, pq_public_id p)) ps) k
      = map_option (\<lambda>p. (pq_generation p, pq_public_id p)) (map_of ps k)" for ps
    by (induction ps) auto
  then show ?thesis by (simp add: tickets_def)
qed

lemma settle_answers:
  assumes "map_of (tickets b) k = Some (b_generation b, i)" and "b_output b = Some g" and "\<And>j. answer_to j (response j)"
  shows "answered_ids g (send_runtime_response k response b) = add_mset (json_of_request_id i) (answered_ids g b)
    \<and> tickets (send_runtime_response k response b) = filter (\<lambda>t. fst t \<noteq> k) (tickets b)"
proof -
  have "b_generation (forget_request k b) = b_generation b"
    by (simp add: forget_request_def)
  then show ?thesis
    using assms response_id_answer [OF assms(3), of i]
    by (auto simp: tickets_map send_runtime_response_def forget_tickets)
qed

lemma settle_nothing: "map_of (tickets b) k = None \<Longrightarrow> send_runtime_response k response b = b"
  by (simp add: tickets_map send_runtime_response_def)

text \<open>The reports about request \<open>k\<close> that settle it.\<close>

definition settles :: "RequestId \<Rightarrow> RuntimeEvent \<Rightarrow> Broker \<Rightarrow> bool" where
  "settles k report b =
    (case report of
       EvResponse k' _ \<Rightarrow> k' = k
     | EvRequestFailed k' _ _ _ _ \<Rightarrow> k' = k \<and> k \<notin> set (b_queued_requests b)
     | _ \<Rightarrow> False)"

lemma report_settles:
  assumes "settles k report b"
  shows "\<exists>b1 response. silently env b b1 \<and> (\<forall>j. answer_to j (response j))
    \<and> silently env (send_runtime_response k response b1) (handle_runtime_event env report b)"
proof (cases report)
  case (EvResponse k' result)
  let ?b1 = "unqueue_request k b" and ?r = "\<lambda>j. success_response j result"
  have "silently env (send_runtime_response k ?r ?b1) (handle_runtime_event env report b)"
    using EvResponse assms
    by (auto simp: settles_def handle_runtime_response_def Let_def silently_replace_history split: option.split)
  then show ?thesis
    using silently_unqueue by (intro exI [of _ ?b1] exI [of _ ?r]) simp
next
  case (EvRequestFailed k' a code message fail_agent)
  let ?r = "\<lambda>j. error_response (Some j) code message None"
  let ?b1 = "if fail_agent then fail_agent_now env a b else b"
  have "silently env b ?b1"
    by (simp add: silently_fail)
  moreover have "silently env (send_runtime_response k ?r ?b1) (handle_runtime_event env report b)"
    using EvRequestFailed assms by (simp add: settles_def handle_request_failed_def silently_notify_state)
  ultimately show ?thesis
    by (intro exI [of _ ?b1] exI [of _ ?r]) simp
qed (use assms in \<open>simp_all add: settles_def\<close>)


definition demo_waiting :: Broker where
  "demo_waiting = (take_over 1 demo_broker)\<lparr>b_pending :=
     [(String ''k'', \<lparr>pq_generation = 1, pq_public_id = Integer 7, pq_history_agent = None\<rparr>)]\<rparr>"


end
