(* ===== verification/BrokerAgents.thy ===== *)
theory BrokerAgents
  imports BrokerLedger
begin

text \<open>
  The agents of a broker along a run: the table and the order list name the same agents, each once;
  every agent carries its own identifier and a transcript in order, and its prompt queue is bounded;
  an embedded broker has at most one live agent.  New identifiers are random in the code; here they
  are the answers of the outside, assumed to differ from each other and from the restored ones.
\<close>

definition agent_ok :: "BrEnv \<Rightarrow> string \<Rightarrow> ManagedAgent \<Rightarrow> bool" where
  "agent_ok env i a =
    (as_id (ma_summary a) = i \<and> length (ma_queued_prompts a) \<le> MAX_QUEUED_PROMPTS
     \<and> tr_inv (be_alnum env) (ma_transcript a))"

definition live_agents :: "Broker \<Rightarrow> (string \<times> ManagedAgent) list" where
  "live_agents b = filter (\<lambda>(_, a). ma_task a) (b_agents b)"

definition new_id :: "BrEnv \<Rightarrow> nat \<Rightarrow> string" where
  "new_id env n = w_uuid (be_world env n)"

definition agents_ok :: "BrEnv \<Rightarrow> Broker \<Rightarrow> bool" where
  "agents_ok env b =
    (distinct (map fst (b_agents b)) \<and> distinct (b_order b) \<and> set (b_order b) = set (map fst (b_agents b))
     \<and> (\<forall>(i, a) \<in> set (b_agents b). agent_ok env i a)
     \<and> (b_mode b = Embedded \<longrightarrow> length (live_agents b) \<le> 1)
     \<and> inj (new_id env) \<and> (\<forall>n \<ge> b_ticks b. new_id env n \<notin> set (b_order b)))"

lemma agents_okD:
  assumes "agents_ok env b"
  shows "distinct (map fst (b_agents b))" "distinct (b_order b)" "set (b_order b) = fst ` set (b_agents b)"
    "(i, a) \<in> set (b_agents b) \<Longrightarrow> agent_ok env i a" "b_mode b = Embedded \<Longrightarrow> length (live_agents b) \<le> 1"
    "inj (new_id env)" "b_ticks b \<le> n \<Longrightarrow> new_id env n \<notin> set (b_order b)"
  using assms unfolding agents_ok_def by (simp_all, auto)

lemma agents_ok_frame:
  assumes "agents_ok env b" and "b_agents b' = b_agents b" and "b_order b' = b_order b" and "b_mode b' = b_mode b"
    and "b_ticks b \<le> b_ticks b'"
  shows "agents_ok env b'"
  using assms(1) order.trans [OF assms(5)] unfolding agents_ok_def live_agents_def assms(2-4) by blast

lemma agent_of_in: "agent_of b i = Some a \<Longrightarrow> (i, a) \<in> set (b_agents b)"
  by (simp add: agent_of_def map_of_SomeD)

lemma agents_ok_update:
  assumes ok: "agents_ok env b" and f: "\<And>a. agent_of b i = Some a \<Longrightarrow> agent_ok env i a \<Longrightarrow> agent_ok env i (f a) \<and> (ma_task (f a) \<longrightarrow> ma_task a)"
  shows "agents_ok env (upd_agent i f b)"
proof -
  let ?g = "\<lambda>(k, a). if k = i then (k, f a) else (k, a)"
  have keys: "map fst (map ?g (b_agents b)) = map fst (b_agents b)"
    by auto
  have at: "agent_of b i = Some a" if "(i, a) \<in> set (b_agents b)" for a
    using ok that by (simp add: agents_ok_def agent_of_def)
  have each: "agent_ok env k (snd (?g (k, a))) \<and> (ma_task (snd (?g (k, a))) \<longrightarrow> ma_task a)"
    if "(k, a) \<in> set (b_agents b)" for k a
    using ok that f at by (cases "k = i") (auto simp: agents_ok_def)
  have "length (filter (\<lambda>(_, a). ma_task a) (map ?g xs)) \<le> length (filter (\<lambda>(_, a). ma_task a) xs)"
    if "set xs \<subseteq> set (b_agents b)" for xs
    using that
  proof (induction xs)
    case (Cons x xs)
    obtain k a where x: "x = (k, a)" by (cases x)
    with each [of k a] Cons show ?case by auto
  qed simp
  from this [of "b_agents b"] have "length (live_agents (upd_agent i f b)) \<le> length (live_agents b)"
    by (simp add: live_agents_def upd_agent_def)
  moreover have "\<forall>(k, a) \<in> set (b_agents (upd_agent i f b)). agent_ok env k a"
    using each by (fastforce simp: upd_agent_def split: if_splits)
  moreover have same: "map fst (b_agents (upd_agent i f b)) = map fst (b_agents b)"
    using keys by (simp add: upd_agent_def)
  moreover have "fst ` set (b_agents (upd_agent i f b)) = fst ` set (b_agents b)"
    using arg_cong [OF same, of set] by simp
  moreover have "b_order (upd_agent i f b) = b_order b" "b_mode (upd_agent i f b) = b_mode b"
    "b_ticks (upd_agent i f b) = b_ticks b"
    by (simp_all add: upd_agent_def)
  ultimately show ?thesis
    unfolding agents_ok_def using agents_okD [OF ok] by (auto intro: order.trans)
qed

lemma calm_agent_ok: "calm f \<Longrightarrow> agent_ok env i a \<Longrightarrow> agent_ok env i (f a) \<and> (ma_task (f a) \<longrightarrow> ma_task a)"
  by (simp add: calm_def agent_ok_def) (meson order.trans)

lemma agents_ok_launch:
  assumes ok: "agents_ok env b" and one: "\<not> (b_mode b = Embedded \<and> any_agent ma_task b)" and i: "i = new_id env (b_ticks b)"
    and a: "agent_ok env i a" and b': "b_agents b' = map_insert i a (b_agents b)" "b_order b' = b_order b @ [i]"
    "b_mode b' = b_mode b" "b_ticks b' = Suc (b_ticks b)"
  shows "agents_ok env b'"
proof -
  have fresh: "i \<notin> set (b_order b)"
    unfolding i by (rule agents_okD(7) [OF ok]) simp
  then have out: "i \<notin> fst ` set (b_agents b)"
    by (simp add: agents_okD(3) [OF ok])
  have agents: "b_agents b' = (i, a) # b_agents b"
    by (simp add: b'(1) map_insert_def filter_other_keys [OF out])
  have "b_mode b = Embedded \<Longrightarrow> live_agents b = []"
    using one by (auto simp: any_agent_def live_agents_def filter_empty_conv list_ex_iff)
  moreover have "new_id env n \<noteq> i" if "Suc (b_ticks b) \<le> n" for n
    using ok that i by (auto simp: agents_ok_def dest: injD)
  moreover have "new_id env n \<notin> set (b_order b)" if "Suc (b_ticks b) \<le> n" for n
    by (rule agents_okD(7) [OF ok]) (use that in simp)
  ultimately show ?thesis
    using agents_okD [OF ok] fresh out a by (auto simp: agents_ok_def agents b' live_agents_def)
qed

lemma agents_ok_remove: "agents_ok env b \<Longrightarrow> agents_ok env (remove_agents ids b)"
proof -
  let ?P = "\<lambda>(i, _). i \<notin> set ids"
  assume ok: "agents_ok env b"
  have keys: "map fst (filter ?P xs) = filter (\<lambda>i. i \<notin> set ids) (map fst xs)" for xs :: "(string \<times> ManagedAgent) list"
    by (induction xs) auto
  have "length (filter (\<lambda>(_, a). ma_task a) (filter ?P xs)) \<le> length (filter (\<lambda>(_, a). ma_task a) xs)" for xs
    by (induction xs) auto
  then have "length (live_agents (remove_agents ids b)) \<le> length (live_agents b)"
    by (simp add: live_agents_def remove_agents_def del: filter_filter)
  then show ?thesis
    using ok by (auto simp: agents_ok_def remove_agents_def keys)
qed

lemma agents_ok_bstep:
  assumes "bstep env b b'" and ok: "agents_ok env b"
  shows "agents_ok env b'"
  using assms
proof (induction rule: bstep.induct)
  case (agent f b i)
  show ?case by (rule agents_ok_update [OF agent(2)]) (rule calm_agent_ok [OF agent(1)])
next
  case (enqueue b i a p)
  then show ?case
    by (intro agents_ok_update) (auto simp: agent_ok_def)
next
  case (transcript b i a op r t)
  then have "agents_ok env (upd_agent i (set_transcript t) b)"
    by (intro agents_ok_update) (auto simp: agent_ok_def set_transcript_def dest: tr.step_ok)
  moreover from this have "agents_ok env (send_transcript_patch i p (upd_agent i (set_transcript t) b))" for p
    by (rule agents_ok_frame) (simp_all add: send_transcript_patch_def send_def split: option.split)
  ultimately show ?case by (simp split: option.split)
next
  case (event b ev n r)
  then show ?case
    by (elim agents_ok_frame) (simp_all add: send_if_ready_def send_event_def send_def split: option.split)
next
  case (overflow b ev)
  then show ?case
    by (elim agents_ok_frame) (simp_all add: send_if_ready_def send_event_def send_def split: option.split)
next
  case (launch b identity i stamp provider workspace options l spawn)
  then show ?case
    by (intro agents_ok_launch [OF launch(4,1)])
      (auto simp: new_id_def now_def insert_agent_def tick_def agent_ok_def new_agent_def tr_inv_default)
next
  case (remove b ids)
  then show ?case by (rule agents_ok_remove)
qed (auto elim!: agents_ok_frame simp: tick_def send_def mark_history_def split: option.split)

lemma agents_ok_move:
  assumes "agents_ok env b" and "move env b b'"
  shows "agents_ok env b'"
proof -
  have events: "b_agents (send_events es x) = b_agents x \<and> b_order (send_events es x) = b_order x
      \<and> b_mode (send_events es x) = b_mode x \<and> b_ticks (send_events es x) = b_ticks x" for es x
    by (induction es x rule: send_events.induct) (simp_all add: send_event_def send_def split: option.split)
  show ?thesis
    using assms(2,1)
  proof (cases rule: move.cases)
    case quiet
    then show ?thesis using assms(1) agents_ok_bstep by blast
  qed (auto elim!: agents_ok_frame simp: events send_def runtime_request_def forget_request_def
      take_over_def hang_up_def greet_def open_session_def Let_def split: option.split ReplayResult.split)
qed

interpretation roster: kept env "agents_ok env" for env
  by unfold_locales (rule agents_ok_move)

section \<open>Runs\<close>

lemma restore_all_fresh:
  "distinct (map as_id ss) \<Longrightarrow> fst ` set acc \<inter> as_id ` set ss = {} \<Longrightarrow>
   restore_all w ss acc = rev (map (\<lambda>s. (as_id s, restored_agent w s)) ss) @ acc"
proof (induction ss arbitrary: acc)
  case (Cons s ss)
  have "as_id s \<notin> fst ` set acc"
    using Cons.prems(2) by auto
  then have "map_insert (as_id s) (restored_agent w s) acc = (as_id s, restored_agent w s) # acc"
    by (simp add: map_insert_def filter_other_keys)
  with Cons show ?case by auto
qed simp

lemma agents_ok_new:
  assumes new: "broker_new w config mode registry rfile agents status sfile = Some b"
    and ids: "distinct (map as_id agents)" "inj (new_id env)" "\<And>n. new_id env n \<notin> as_id ` set agents"
  shows "agents_ok env b \<and> b_mode b = mode"
proof -
  have all: "restore_all w agents [] = rev (map (\<lambda>s. (as_id s, restored_agent w s)) agents)"
    using restore_all_fresh [OF ids(1), of "[]" w] by simp
  have b: "b_agents b = restore_all w agents []" "b_order b = map as_id agents" "b_mode b = mode"
    using new by (auto simp: broker_new_def split: option.splits)
  have "agent_ok env (as_id s) (restored_agent w s)" for s
    by (simp add: agent_ok_def restored_agent_def tr_inv_default)
  moreover have "live_agents b = []"
    by (auto simp: live_agents_def b all filter_empty_conv restored_agent_def)
  ultimately show ?thesis
    using ids by (auto simp: agents_ok_def b all comp_def rev_map [symmetric])
qed

lemma mode_move: "b_mode b = m \<Longrightarrow> move env b b' \<Longrightarrow> b_mode b' = m"
  by (erule move.cases) (auto simp: runtime_request_def Let_def forget_request_def take_over_def hang_up_def greet_def
    link_def send_def split: option.split dest!: bstep_link)

interpretation same_mode: kept env "\<lambda>b. b_mode b = m" for env m
  by unfold_locales (rule mode_move)

lemma summaries_ids: "agents_ok env b \<Longrightarrow> map as_id (summaries b) = b_order b"
proof -
  assume ok: "agents_ok env b"
  have "map as_id (map ma_summary (filter_map (agent_of b) is)) = is" if "set is \<subseteq> set (b_order b)" for "is"
    using that
  proof (induction "is")
    case (Cons i "is")
    then have "i \<in> fst ` set (b_agents b)"
      using agents_okD(3) [OF ok] by auto
    then obtain a where a: "agent_of b i = Some a"
      by (auto simp: agent_of_def) (metis option.exhaust map_of_eq_None_iff image_eqI fst_conv)
    then have "as_id (ma_summary a) = i"
      using agents_okD(4) [OF ok agent_of_in] by (auto simp: agent_ok_def)
    with Cons a show ?case by simp
  qed simp
  then show ?thesis by (simp add: summaries_def)
qed

text \<open>
  C14.  The agents of a broker stay consistent.  Whatever the inputs and the reports, as long as the
  random identifiers do not collide: the agent list shown to clients and stored in the registry
  names every agent of the table exactly once, under the identifier of its record; no prompt queue
  holds more than 32 prompts; and an embedded broker never has two live agents.
\<close>

theorem agents_consistent:
  assumes "broker_new w config mode registry rfile agents status sfile = Some b0"
    and "distinct (map as_id agents)" and "inj (new_id env)" and "\<And>n. new_id env n \<notin> as_id ` set agents"
    and "broker_run env inputs b0 = Some (r, b)"
  shows "map as_id (summaries b) = b_order b \<and> distinct (b_order b) \<and> set (b_order b) = fst ` set (b_agents b)
    \<and> distinct (map fst (b_agents b))
    \<and> list_all (\<lambda>(i, a). as_id (ma_summary a) = i \<and> length (ma_queued_prompts a) \<le> 32) (b_agents b)
    \<and> (mode = Embedded \<longrightarrow> length (filter (ma_task \<circ> snd) (b_agents b)) \<le> 1)"
proof -
  have ok: "agents_ok env b" and mode: "b_mode b = mode"
    using agents_ok_new [OF assms(1-4)] roster.kept_run [OF assms(5)] same_mode.kept_run [OF assms(5)] by blast+
  have "live_agents b = filter (ma_task \<circ> snd) (b_agents b)"
    by (simp add: live_agents_def comp_def case_prod_unfold)
  then show ?thesis
    using agents_okD [OF ok] summaries_ids [OF ok] mode
    by (auto simp: list_all_iff agent_ok_def MAX_QUEUED_PROMPTS_def)
qed

lemma demo_ids: "inj (new_id demo_env)"
  by (simp add: inj_def new_id_def demo_env_def)

lemma demo_id_not_a: "new_id demo_env n \<noteq> ''a''"
proof
  assume "new_id demo_env n = ''a''"
  then have "show_nat n = ''a''" by (simp add: new_id_def demo_env_def)
  then show False
    using show_nat_is_digit [of "CHR ''a''" n] by (simp add: is_ascii_digit_def)
qed

theorem agents_consistent_witness:
  "\<exists>b0 b. broker_new quiet_world demo_config Durable None None [sample_agent] None None = Some b0
    \<and> broker_run demo_env [FromClient (InConnected 1)] b0 = Some (Continue, b)
    \<and> map as_id (summaries b) = [''a''] \<and> distinct (b_order b) \<and> set (b_order b) = fst ` set (b_agents b)"
proof -
  obtain b0 where new: "broker_new quiet_world demo_config Durable None None [sample_agent] None None = Some b0"
    and b0: "b_generation b0 = 0" "\<not> b_panicked b0" "b_order b0 = [''a'']"
    by (auto simp: broker_new_def rb_new_def demo_config_def sample_agent_def)
  have run: "broker_run demo_env [FromClient (InConnected 1)] b0 = Some (Continue, take_over 1 b0)"
    using b0 by (simp add: broker_connect_def) (simp add: take_over_def)
  have "b_order (take_over 1 b0) = [''a'']"
    using b0 by (simp add: take_over_def)
  then show ?thesis
    using agents_consistent [OF new _ demo_ids _ run] new run demo_id_not_a
    by (auto simp: sample_agent_def)
qed

end
