(* ===== verification/BrokerStream.thy ===== *)
theory BrokerStream
  imports BrokerAgents
begin

text \<open>
  The event stream of a connection: what a client receives is a contiguous piece of the history that
  ends with the latest event.  The history is the one the replay buffer stands for (\<open>rb_history\<close>).
\<close>

definition event_note :: "EventEnvelope \<Rightarrow> json" where
  "event_note e = notification ''agent/event'' (json_of_event e)"

definition is_event :: "json \<Rightarrow> bool" where
  "is_event m = (get_str ''method'' m = Some ''agent/event'')"

definition events_sent :: "u64 \<Rightarrow> Broker \<Rightarrow> json list" where
  "events_sent g b = filter is_event (sent_on g b)"

lemma is_event_simps [simp]:
  "is_event (event_note e)" "is_event (notification n p) = (n = ''agent/event'')"
  "\<not> is_event (success_response i v)" "\<not> is_event (error_response j c t d)"
  by (simp_all add: is_event_def event_note_def notification_def success_response_def error_response_def get_str_def jget_jobj)

lemma answer_no_event [simp]: "answer_to i m \<Longrightarrow> \<not> is_event m"
  by (auto simp: answer_to_def)

lemma events_sent_send [simp]:
  "events_sent g (send m b) = (if b_output b = Some g \<and> is_event m then events_sent g b @ [m] else events_sent g b)"
  by (simp add: events_sent_def)

lemma events_sent_same: "b_sent b' = b_sent b \<Longrightarrow> events_sent g b' = events_sent g b"
  by (simp add: events_sent_def sent_on_def)

lemma send_replay [simp]: "b_replay (send m b) = b_replay b" "b_phase (send m b) = b_phase b" "b_cursor (send m b) = b_cursor b"
  "b_mode (send m b) = b_mode b"
  by (simp_all add: send_def split: option.split)

lemma upd_agent_stream [simp]: "b_replay (upd_agent i f b) = b_replay b" "b_cursor (upd_agent i f b) = b_cursor b"
  "events_sent g (upd_agent i f b) = events_sent g b" "b_phase (upd_agent i f b) = b_phase b"
  "b_output (upd_agent i f b) = b_output b"
  by (simp_all add: upd_agent_def events_sent_def sent_on_def)

text \<open>A silent step either leaves the stream alone or numbers one event and sends it.\<close>

lemma bstep_stream:
  assumes "bstep env b b'" and "\<not> b_panicked b'"
  shows "(b_replay b' = b_replay b \<and> events_sent g b' = events_sent g b)
    \<or> (\<exists>ev n. rb_push (b_replay b) ev = Some (n, b_replay b')
       \<and> events_sent g b' = events_sent g b @
         (if b_phase b = Ready \<and> b_output b = Some g then [event_note (ev\<lparr>ev_sequence := n\<rparr>)] else []))"
  using assms
proof (induction rule: bstep.induct)
  case (event b ev n r)
  then show ?case
    by (intro disjI2 exI [of _ ev] exI [of _ n])
      (auto simp: send_if_ready_def send_event_def event_note_def, simp_all add: events_sent_def sent_on_def)
next
  case (transcript b i a op r t)
  then show ?case by (simp add: send_transcript_patch_def split: option.split)
qed (auto simp: tick_def insert_agent_def remove_agents_def mark_history_def send_if_ready_def send_event_def
    intro: events_sent_same)

lemma bstep_cursor: "bstep env b b' \<Longrightarrow> b_cursor b' = b_cursor b"
  by (induction rule: bstep.induct)
    (auto simp: tick_def insert_agent_def remove_agents_def mark_history_def send_if_ready_def send_event_def
      send_transcript_patch_def split: option.split)

lemma send_events_stream:
  "b_output b = Some g \<Longrightarrow> events_sent g (send_events es b) = events_sent g b @ map event_note es
    \<and> b_replay (send_events es b) = b_replay b"
  by (induction es b rule: send_events.induct) (simp_all add: send_event_def event_note_def)

text \<open>What the opening of a durable session sends: the missing suffix, when the window still has it.\<close>

definition caught_up :: "nat \<Rightarrow> u64 \<Rightarrow> EventEnvelope list \<Rightarrow> EventEnvelope list" where
  "caught_up window c log = (if length log \<le> unat c + window then drop (unat c) log else [])"

lemma open_session_stream:
  assumes "rb_history (b_replay b) log" and "b_mode b = Durable" and "b_output b = Some g"
  shows "events_sent g (open_session b) = events_sent g b @ map event_note (caught_up (rb_capacity (b_replay b)) (b_cursor b) log)
    \<and> b_replay (open_session b) = b_replay b"
proof -
  let ?b = "b\<lparr>b_phase := Ready\<rparr>"
  have same: "events_sent g ?b = events_sent g b"
    by (rule events_sent_same) simp
  show ?thesis
    using assms send_events_stream [of ?b g] rb_replay_after_history [OF assms(1), of "b_cursor b"]
    by (auto simp: open_session_def Let_def caught_up_def same split: if_splits)
qed

definition stream_ok :: "u64 \<Rightarrow> u64 \<Rightarrow> Broker \<Rightarrow> bool" where
  "stream_ok g c b =
    ((b_phase b = AwaitInitialized \<and> b_cursor b = c \<and> events_sent g b = [] \<and> (\<exists>log. rb_history (b_replay b) log))
     \<or> (b_phase b = Ready \<and> (\<exists>opened new. rb_history (b_replay b) (opened @ new)
         \<and> events_sent g b = map event_note (caught_up (rb_capacity (b_replay b)) c opened @ new))))"

definition streaming :: "u64 \<Rightarrow> u64 \<Rightarrow> Broker \<Rightarrow> bool" where
  "streaming g c b = (b_mode b = Durable \<and> g \<le> b_generation b \<and> (b_output b = Some g \<longrightarrow> stream_ok g c b))"

lemma stream_ok_frame:
  assumes "stream_ok g c b" and "b_phase b' = b_phase b" and "b_cursor b' = b_cursor b" and "b_replay b' = b_replay b"
    and "events_sent g b' = events_sent g b"
  shows "stream_ok g c b'"
  using assms by (simp add: stream_ok_def)

lemma stream_ok_bstep:
  assumes "stream_ok g c b" and step: "bstep env b b'" and np: "\<not> b_panicked b'" and out: "b_output b = Some g"
  shows "stream_ok g c b'"
proof -
  have phase: "b_phase b' = b_phase b" and cursor: "b_cursor b' = b_cursor b"
    using bstep_link [OF step] bstep_cursor [OF step] by (simp_all add: link_def)
  show ?thesis
    using bstep_stream [OF step np, of g]
  proof
    assume "b_replay b' = b_replay b \<and> events_sent g b' = events_sent g b"
    then show ?thesis
      using stream_ok_frame [OF assms(1) phase cursor] by blast
  next
    assume "\<exists>ev n. rb_push (b_replay b) ev = Some (n, b_replay b')
       \<and> events_sent g b' = events_sent g b @
         (if b_phase b = Ready \<and> b_output b = Some g then [event_note (ev\<lparr>ev_sequence := n\<rparr>)] else [])"
    then obtain ev n where push: "rb_push (b_replay b) ev = Some (n, b_replay b')"
      and sent: "events_sent g b' = events_sent g b @ (if b_phase b = Ready then [event_note (ev\<lparr>ev_sequence := n\<rparr>)] else [])"
      using out by auto
    from assms(1) [unfolded stream_ok_def] show ?thesis
    proof (elim disjE conjE exE)
      fix log assume "b_phase b = AwaitInitialized" "b_cursor b = c" "events_sent g b = []" "rb_history (b_replay b) log"
      then show ?thesis
        using rb.push_history [OF _ push] sent phase cursor by (auto simp: stream_ok_def)
    next
      fix opened new assume a: "b_phase b = Ready" "rb_history (b_replay b) (opened @ new)"
        "events_sent g b = map event_note (caught_up (rb_capacity (b_replay b)) c opened @ new)"
      have "rb_history (b_replay b') (opened @ (new @ [ev\<lparr>ev_sequence := n\<rparr>]))"
        using rb.push_history [OF a(2) push] by simp
      moreover have "events_sent g b' = map event_note (caught_up (rb_capacity (b_replay b')) c opened @ new @ [ev\<lparr>ev_sequence := n\<rparr>])"
        using a sent rb.push_window [OF a(2) push] by simp
      ultimately have "\<exists>opened new. rb_history (b_replay b') (opened @ new)
          \<and> events_sent g b' = map event_note (caught_up (rb_capacity (b_replay b')) c opened @ new)"
        by (intro exI [of _ opened] exI [of _ "new @ [ev\<lparr>ev_sequence := n\<rparr>]"] conjI)
      then show ?thesis
        using a(1) phase by (simp add: stream_ok_def)
    qed
  qed
qed

lemma streaming_move:
  assumes "streaming g c b" and "move env b b'" and "\<not> b_panicked b'"
  shows "streaming g c b'"
proof -
  have mode: "b_mode b' = Durable" and gen: "g \<le> b_generation b'"
    using assms(1) mode_move [OF _ assms(2)] generation_move [OF _ assms(2)] by (simp_all add: streaming_def)
  have "stream_ok g c b'" if out: "b_output b' = Some g"
    using assms(2)
  proof cases
    case quiet
    then show ?thesis
      using assms(1,3) out stream_ok_bstep [OF _ quiet assms(3)] bstep_link [OF quiet] by (simp add: streaming_def link_def)
  next
    case (answer i m)
    then show ?thesis
      using assms(1) out by (auto simp: streaming_def elim: stream_ok_frame)
  next
    case (complain k t d)
    then show ?thesis
      using assms(1) out by (auto simp: streaming_def elim: stream_ok_frame)
  next
    case (register i)
    then show ?thesis
      using assms(1) out
      by (auto simp: streaming_def runtime_request_def Let_def elim!: stream_ok_frame intro: events_sent_same split: option.splits)
  next
    case (forget k)
    then show ?thesis
      using assms(1) out
      by (auto simp: streaming_def forget_request_def elim!: stream_ok_frame intro: events_sent_same)
  next
    case (connect h)
    then show ?thesis
      using assms(1) out by (auto simp: streaming_def take_over_def)
  next
    case disconnect
    then show ?thesis
      using out by (simp add: hang_up_def)
  next
    case (greet k)
    then show ?thesis
      using assms(1) out by (simp add: streaming_def greet_def stream_ok_def)
  next
    case start
    then have b: "b_output b = Some g" "b_mode b = Durable"
      using out assms(1) by (simp_all add: streaming_def)
    with assms(1) start obtain log where log: "rb_history (b_replay b) log" "b_cursor b = c" "events_sent g b = []"
      by (auto simp: streaming_def stream_ok_def)
    from open_session_stream [OF log(1) b(2,1)] log
    have "rb_history (b_replay b') (log @ []) \<and> events_sent g b' = map event_note (caught_up (rb_capacity (b_replay b')) c log @ [])"
      by (simp add: start)
    moreover have "b_phase b' = Ready"
      by (simp add: start)
    ultimately show ?thesis
      unfolding stream_ok_def by blast
  qed
  with mode gen show ?thesis by (simp add: streaming_def)
qed

interpretation stream: kept env "streaming g c" for env g c
  by unfold_locales (rule streaming_move)


text \<open>
  C20.  The handshake is honest about lost events.  A client that asks to resume after event \<open>c\<close> is
  told that it must resynchronise exactly when an event it lacks has been evicted; the stream then
  starts after the latest event, otherwise right after \<open>c\<close>.  (A cursor beyond the latest event, as
  after a restart of the broker, counts as up to date.)
\<close>

theorem handshake_honest:
  assumes "of_initialize params = Some p" and "ip_protocol_version p = 1"
    and "ci_name (ip_client p) \<noteq> []" and "ci_version (ip_client p) \<noteq> []"
    and "b_mode b = Durable" and "rb_history (b_replay b) log"
  shows "let c = unat (unwrap_or 0 (ip_last_sequence p)); lost = (c + rb_capacity (b_replay b) < length log);
      b1 = greet (if lost then of_nat (length log) else of_nat c) b
    in broker_initialize i params b = reply i (initialize_result lost b1) b1"
proof -
  let ?c = "unwrap_or 0 (ip_last_sequence p)"
  have replay: "rb_replay_after (b_replay b) ?c = (if unat ?c + rb_capacity (b_replay b) < length log
      then ResyncRequired (of_nat (Suc (length log - rb_capacity (b_replay b)))) (of_nat (length log))
      else Events (drop (unat ?c) log))"
    using rb_replay_after_history [OF assms(6), of ?c] by (simp add: less_diff_conv)
  have latest: "map_option snd (rb_bounds (b_replay b)) = Some (of_nat (length log))" if "log \<noteq> []"
    using rb_bounds_history [OF assms(6) that] by (auto dest: u64_eq_of_nat)
  show ?thesis
  proof (cases "unat ?c + rb_capacity (b_replay b) < length log")
    case True
    then have "log \<noteq> []" by auto
    from latest [OF this] True replay show ?thesis
      using assms(1-5) by (simp add: broker_initialize_def Let_def PROTOCOL_VERSION_def del: map_option_eq_Some option.map_sel)
  next
    case False
    then show ?thesis
      using assms(1-5) replay by (simp add: broker_initialize_def Let_def PROTOCOL_VERSION_def)
  qed
qed

lemma demo_history: "rb_history (b_replay demo_broker) []"
  by (simp add: rb_history_def numbered_def demo_broker_def)

theorem handshake_honest_witness:
  "broker_initialize (String ''q'') demo_hello demo_broker
    = reply (String ''q'') (initialize_result False (greet 0 demo_broker)) (greet 0 demo_broker)"
proof -
  have "b_mode demo_broker = Durable"
    by (simp add: demo_broker_def)
  from handshake_honest [OF demo_hello_reads _ _ _ this demo_history, of "String ''q''"] show ?thesis
    by (simp add: Let_def)
qed

text \<open>A client that resumes at the start, opens the session and then sees one event.\<close>

definition demo_session :: Broker where
  "demo_session = greet 0 (take_over 1 demo_broker)"

definition demo_event :: EventEnvelope where
  "demo_event = new_event ''t'' ''x'' Codex ''message.delta'' JNull JNull"

lemma notify_ready:
  "b_registry b = None \<Longrightarrow> b_status b = None \<Longrightarrow> b_phase b = Ready \<Longrightarrow>
   notify_state env b = send (notification ''broker/state'' (jobj [(''agents'', JArray (map json_of_summary (summaries b)))])) b"
  by (simp add: notify_state_def save_registry_def save_status_def Let_def)

lemma demo_opened:
  "\<exists>b. broker_step demo_env (FromClient (InFrame 1 (demo_notice ''initialized'' (jobj [])))) demo_session = (Continue, b)
    \<and> b_phase b = Ready \<and> b_output b = Some 1 \<and> \<not> b_panicked b \<and> b_agents b = [] \<and> b_replay b = b_replay demo_broker
    \<and> b_mode b = Durable"
proof -
  let ?b = "demo_session\<lparr>b_phase := Ready\<rparr>"
  have opened: "open_session demo_session = ?b"
    by (simp add: open_session_def demo_session_def greet_def take_over_def demo_broker_def rb_replay_after_def rb_bounds_def)
  have s: "b_phase demo_session = AwaitInitialized" "b_generation demo_session = 1" "b_output demo_session = Some 1"
    "\<not> b_panicked demo_session" "b_agents demo_session = []" "b_replay demo_session = b_replay demo_broker"
    "b_mode demo_session = Durable" "b_registry demo_session = None" "b_status demo_session = None"
    by (simp_all add: demo_session_def greet_def take_over_def demo_broker_def)
  have "as_object (jobj []) = Some []"
    by (simp add: jobj_def obj_of_def)
  then have "handle_notification demo_env ''initialized'' (jobj []) demo_session = notify_state demo_env ?b"
    unfolding handle_notification_def opened using s by simp
  also have "\<dots> = send (notification ''broker/state'' (jobj [(''agents'', JArray (map json_of_summary (summaries ?b)))])) ?b"
    by (rule notify_ready) (simp_all add: s)
  finally have "broker_step demo_env (FromClient (InFrame 1 (demo_notice ''initialized'' (jobj [])))) demo_session
      = (Continue, send (notification ''broker/state'' (jobj [(''agents'', JArray (map json_of_summary (summaries ?b)))])) ?b)"
    using s by (simp add: input_generation_def handle_current_def demo_notice_frame)
  moreover have "b_agents (send m x) = b_agents x" for m x
    by (simp add: send_def split: option.split)
  ultimately show ?thesis
    using s by simp
qed

lemma stray_event:
  assumes "agent_of b (ev_agent_id ev) = None" and "rb_push (b_replay b) ev = Some (n, r)"
    and "ev_type ev \<noteq> ''turn.completed''" "ev_type ev \<noteq> ''turn.failed''"
  shows "handle_provider_event env ev b = send_if_ready (ev\<lparr>ev_sequence := n\<rparr>) (b\<lparr>b_replay := r\<rparr>)"
proof -
  have "agent_of (b\<lparr>b_replay := r\<rparr>) i = agent_of b i" "agent_of (send_if_ready e c) i = agent_of c i" for i e c
    by (simp_all add: agent_of_def send_if_ready_def send_event_def send_def split: option.split)
  then show ?thesis
    using assms by (simp add: handle_provider_event_def publish_event_def warn_unattended_def push_event_def
      apply_event_state_def update_transcript_def)
qed


end
