(* ===== verification/BrokerMirror.thy ===== *)
theory BrokerMirror
  imports BrokerStream
begin

text \<open>
  The editor's copy of a transcript, end to end: a client that has read an agent's transcript and
  applies the patches its connection receives keeps the copy equal to the broker's transcript, for
  as long as the connection and the agent last.  This composes the contract of \<open>line_server\<close>
  with every path of the broker that changes a transcript.
\<close>

definition patch_note :: "string \<Rightarrow> Patch \<Rightarrow> json" where
  "patch_note i p = notification ''agent/transcript/patch''
     (jobj [(''agent_id'', JString i), (''revision'', ju64 (pa_revision p)), (''start'', jnat (pa_start p)),
            (''end'', jnat (pa_end p)), (''lines'', JArray (map json_of_line (pa_lines p)))])"

definition is_patch :: "string \<Rightarrow> json \<Rightarrow> bool" where
  "is_patch i m = (get_str ''method'' m = Some ''agent/transcript/patch''
     \<and> Option.bind (jget ''params'' m) (get_str ''agent_id'') = Some i)"

definition patches_sent :: "u64 \<Rightarrow> string \<Rightarrow> Broker \<Rightarrow> json list" where
  "patches_sent g i b = filter (is_patch i) (sent_on g b)"

lemma is_patch_simps [simp]:
  "is_patch i (patch_note j p) = (i = j)" "\<not> is_patch i (event_note e)"
  "\<not> is_patch i (success_response k v)" "\<not> is_patch i (error_response l c t d)"
  "n \<noteq> ''agent/transcript/patch'' \<Longrightarrow> \<not> is_patch i (notification n q)"
  by (auto simp: is_patch_def patch_note_def event_note_def notification_def success_response_def error_response_def
      get_str_def jget_jobj)

lemma answer_no_patch [simp]: "answer_to k m \<Longrightarrow> \<not> is_patch i m"
  by (auto simp: answer_to_def)

lemma patches_sent_send [simp]:
  "patches_sent g i (send m b) = (if b_output b = Some g \<and> is_patch i m then patches_sent g i b @ [m] else patches_sent g i b)"
  by (simp add: patches_sent_def)

lemma patches_sent_same: "b_sent b' = b_sent b \<Longrightarrow> patches_sent g i b' = patches_sent g i b"
  by (simp add: patches_sent_def sent_on_def)

lemma patches_upd_agent [simp]: "patches_sent g i (upd_agent j f b) = patches_sent g i b"
  by (simp add: patches_sent_def)

lemma agent_of_send_if_ready [simp]: "agent_of (send_if_ready e b) i = agent_of b i"
  by (simp add: send_if_ready_def send_event_def)

lemma send_patch_note: "send_transcript_patch i p b = (if b_phase b = Ready then send (patch_note i p) b else b)"
  by (simp add: send_transcript_patch_def patch_note_def)

lemma agent_of_patch [simp]: "agent_of (send_transcript_patch j p b) i = agent_of b i"
  by (simp add: send_transcript_patch_def)

text \<open>What the client sees of agent \<open>i\<close>'s transcript.\<close>

definition copy_of :: "Transcript \<Rightarrow> u64 \<times> Line list" where
  "copy_of t = (tr_revision t, tr_lines t)"

definition shown :: "Broker \<Rightarrow> string \<Rightarrow> (u64 \<times> Line list) option" where
  "shown b i = map_option (\<lambda>a. copy_of (ma_transcript a)) (agent_of b i)"

lemma shown_same: "b_agents b' = b_agents b \<Longrightarrow> shown b' i = shown b i"
  by (simp add: shown_def agent_of_def)

lemma agent_of_remove: "agent_of (remove_agents ids b) i = (if i \<in> set ids then None else agent_of b i)"
proof -
  have "map_of (filter (\<lambda>(k, _). k \<notin> set ids) xs) i = (if i \<in> set ids then None else map_of xs i)"
    for xs :: "(string \<times> ManagedAgent) list"
    by (induction xs) auto
  then show ?thesis by (simp add: agent_of_def remove_agents_def)
qed

text \<open>
  A silent step leaves the copy alone, removes the agent, or changes the transcript by a patch that
  it sends when the session is open.
\<close>

lemma bstep_shown:
  assumes "bstep env b b'" and "agents_ok env b" and "new_id env (b_ticks b) \<noteq> i"
  shows "(patches_sent g i b' = patches_sent g i b \<and> (shown b' i = shown b i \<or> shown b' i = None))
    \<or> (\<exists>p n ls. shown b i = Some (n, ls) \<and> shown b' i = Some (pa_revision p, apply_patch ls p) \<and> pa_revision p = n + 1
      \<and> patches_sent g i b' = patches_sent g i b @
        (if b_phase b = Ready \<and> b_output b = Some g then [patch_note i p] else []))"
  using assms
proof (induction rule: bstep.induct)
  case (agent f b j)
  have "copy_of (ma_transcript (f a)) = copy_of (ma_transcript a)" for a
    using agent(1) by (simp add: calm_def)
  then show ?case by (cases "agent_of b i") (simp_all add: shown_def)
next
  case (enqueue b j a p)
  then show ?case by (cases "agent_of b i") (simp_all add: shown_def)
next
  case (transcript b j a op r t)
  have inv: "tr_inv (be_alnum env) (ma_transcript a)"
    using agents_okD(4) [OF transcript(3) agent_of_in [OF transcript(1)]] by (simp add: agent_ok_def)
  show ?case
  proof (cases r)
    case None
    then show ?thesis
      using tr.step_silent [OF inv, of op t] transcript(1,2)
      by (cases "agent_of b i") (auto simp: shown_def set_transcript_def copy_of_def)
  next
    case (Some p)
    note patch = tr.step_patch [OF inv transcript(2) [unfolded Some]]
    show ?thesis
    proof (cases "i = j")
      case True
      then show ?thesis
        using transcript(1) Some patch
        by (intro disjI2 exI [of _ p] exI [of _ "tr_revision (ma_transcript a)"] exI [of _ "tr_lines (ma_transcript a)"])
          (auto simp: shown_def set_transcript_def copy_of_def send_patch_note)
    next
      case False
      then show ?thesis
        using Some by (simp add: shown_def send_patch_note)
    qed
  qed
next
  case (launch b identity j stamp provider workspace options l spawn)
  then have "i \<noteq> j"
    by (simp add: new_id_def now_def)
  then show ?case
    by (auto simp: shown_def agent_of_def insert_agent_def tick_def patches_sent_def sent_on_def)
next
  case (remove b ids)
  have "patches_sent g i (remove_agents ids b) = patches_sent g i b"
    by (rule patches_sent_same) (simp add: remove_agents_def)
  then show ?case by (simp add: shown_def agent_of_remove)
next
  case (event b ev n r)
  have "agent_of (b\<lparr>b_replay := r\<rparr>) i = agent_of b i" "patches_sent g i (b\<lparr>b_replay := r\<rparr>) = patches_sent g i b"
    by (simp add: agent_of_def) (rule patches_sent_same, simp)
  then show ?case
    by (simp add: shown_def) (simp add: send_if_ready_def send_event_def)
next
  case (overflow b ev)
  have "agent_of (b\<lparr>b_panicked := True\<rparr>) i = agent_of b i" "patches_sent g i (b\<lparr>b_panicked := True\<rparr>) = patches_sent g i b"
    by (simp add: agent_of_def) (rule patches_sent_same, simp)
  then show ?case
    by (simp add: shown_def) (simp add: send_if_ready_def send_event_def)
next
  case (state b p)
  then show ?case by (simp add: shown_def)
qed (auto simp: tick_def mark_history_def intro!: patches_sent_same shown_same)

lemma bstep_ticks: "bstep env b b' \<Longrightarrow> b_ticks b \<le> b_ticks b'"
  by (induction rule: bstep.induct)
    (auto simp: tick_def insert_agent_def remove_agents_def mark_history_def send_if_ready_def send_event_def
      send_transcript_patch_def send_def upd_agent_def split: option.splits)

lemma send_ticks [simp]: "b_ticks (send m b) = b_ticks b" "b_ticks (send_events es b) = b_ticks b"
proof -
  show "b_ticks (send m b) = b_ticks b" for m and b :: Broker
    by (simp add: send_def split: option.split)
  then show "b_ticks (send_events es b) = b_ticks b"
    by (induction es b rule: send_events.induct) (simp_all add: send_event_def)
qed

lemma move_ticks: "move env b b' \<Longrightarrow> b_ticks b \<le> b_ticks b'"
  by (erule move.cases) (auto simp: runtime_request_def Let_def forget_request_def take_over_def hang_up_def greet_def
    open_session_def bstep_ticks split: option.split ReplayResult.split)

lemma follow_snoc:
  "follow c ps = Some (n, ls) \<Longrightarrow> pa_revision p = n + 1 \<Longrightarrow> follow c (ps @ [p]) = Some (pa_revision p, apply_patch ls p)"
  by (induction c ps rule: follow.induct) (auto split: if_splits)

definition mirrored :: "u64 \<Rightarrow> string \<Rightarrow> u64 \<times> Line list \<Rightarrow> json list \<Rightarrow> Broker \<Rightarrow> bool" where
  "mirrored g i c0 before b =
    (b_phase b = Ready \<and> (\<exists>ps. patches_sent g i b = before @ map (patch_note i) ps
      \<and> (shown b i = None \<or> follow c0 ps = shown b i)))"

definition mirroring :: "BrEnv \<Rightarrow> u64 \<Rightarrow> string \<Rightarrow> u64 \<times> Line list \<Rightarrow> json list \<Rightarrow> Broker \<Rightarrow> bool" where
  "mirroring env g i c0 before b =
    (agents_ok env b \<and> (\<forall>n \<ge> b_ticks b. new_id env n \<noteq> i) \<and> g \<le> b_generation b
     \<and> (b_output b = Some g \<longrightarrow> mirrored g i c0 before b))"

lemma mirrored_frame:
  "mirrored g i c0 before b \<Longrightarrow> b_phase b' = b_phase b \<Longrightarrow> patches_sent g i b' = patches_sent g i b \<Longrightarrow> shown b' i = shown b i \<Longrightarrow>
   mirrored g i c0 before b'"
  by (simp add: mirrored_def)

lemma mirrored_bstep:
  assumes m: "mirrored g i c0 before b" and step: "bstep env b b'" and ok: "agents_ok env b" "new_id env (b_ticks b) \<noteq> i"
    and out: "b_output b = Some g"
  shows "mirrored g i c0 before b'"
proof -
  have ready: "b_phase b = Ready" "b_phase b' = Ready"
    using m bstep_link [OF step] by (simp_all add: mirrored_def link_def)
  obtain ps where ps: "patches_sent g i b = before @ map (patch_note i) ps" "shown b i = None \<or> follow c0 ps = shown b i"
    using m by (auto simp: mirrored_def)
  from bstep_shown [OF step ok, of g] show ?thesis
  proof (elim disjE conjE exE)
    fix p n ls
    assume s: "shown b i = Some (n, ls)" "shown b' i = Some (pa_revision p, apply_patch ls p)" "pa_revision p = n + 1"
      "patches_sent g i b' = patches_sent g i b @ (if b_phase b = Ready \<and> b_output b = Some g then [patch_note i p] else [])"
    then have "patches_sent g i b' = before @ map (patch_note i) (ps @ [p])"
      using ps ready out by simp
    moreover have "follow c0 (ps @ [p]) = shown b' i"
      using follow_snoc [of c0 ps n ls p] ps s by simp
    ultimately show ?thesis
      using ready unfolding mirrored_def by blast
  qed (use ps ready in \<open>auto simp: mirrored_def\<close>)
qed

lemma mirroring_move:
  assumes "mirroring env g i c0 before b" and "move env b b'"
  shows "mirroring env g i c0 before b'"
proof -
  have ok: "agents_ok env b'" and gen: "g \<le> b_generation b'"
    using assms agents_ok_move [OF _ assms(2)] generation_move [OF _ assms(2)] by (simp_all add: mirroring_def)
  have ticks: "b_ticks b \<le> b_ticks b'"
    by (rule move_ticks [OF assms(2)])
  have "mirrored g i c0 before b'" if out: "b_output b' = Some g"
    using assms(2)
  proof cases
    case quiet
    then show ?thesis
      using assms(1) out bstep_link [OF quiet] mirrored_bstep [OF _ quiet] by (auto simp: mirroring_def link_def)
  next
    case (answer k m)
    then show ?thesis
      using assms(1) out by (auto simp: mirroring_def shown_def elim!: mirrored_frame)
  next
    case (complain k t d)
    then show ?thesis
      using assms(1) out by (auto simp: mirroring_def shown_def elim!: mirrored_frame)
  next
    case (register k)
    then show ?thesis
      using assms(1) out by (auto simp: mirroring_def runtime_request_def Let_def elim!: mirrored_frame
        intro: patches_sent_same shown_same split: option.splits)
  next
    case (forget k)
    then show ?thesis
      using assms(1) out by (auto simp: mirroring_def forget_request_def elim!: mirrored_frame intro: patches_sent_same shown_same)
  next
    case (connect h)
    then show ?thesis
      using assms(1) out by (auto simp: mirroring_def take_over_def)
  next
    case disconnect
    then show ?thesis
      using out by (simp add: hang_up_def)
  next
    case (greet k)
    then show ?thesis
      using assms(1) out by (simp add: mirroring_def greet_def mirrored_def)
  next
    case start
    then show ?thesis
      using assms(1) out by (simp add: mirroring_def mirrored_def)
  qed
  with ok gen ticks assms(1) show ?thesis
    by (auto simp: mirroring_def)
qed

interpretation mirror: kept env "mirroring env g i c0 before" for env g i c0 before
  by unfold_locales (rule mirroring_move)

text \<open>
  C8.  The editor's copy of a transcript is exact.  Take any broker, any inputs that lead to an open
  session, and an agent whose revision and lines the client has read at that point.  Whatever
  happens afterwards, while the connection and the agent last: the patches received for the agent,
  applied one after the other to the copy and each only if it continues its revision, are all
  accepted and yield exactly the revision and the lines of the broker's transcript.
\<close>

theorem editor_copy_exact:
  assumes "broker_new w config mode registry rfile agents status sfile = Some b00"
    and "distinct (map as_id agents)" and "inj (new_id env)" and "\<And>n. new_id env n \<notin> as_id ` set agents"
    and "broker_run env before b00 = Some (r0, b0)" and "b_phase b0 = Ready" and "b_output b0 = Some g"
    and "agent_of b0 i = Some a0"
    and "broker_run env inputs b0 = Some (r, b)" and "b_output b = Some g" and "agent_of b i = Some a"
  shows "\<exists>ps. patches_sent g i b = patches_sent g i b0 @ map (patch_note i) ps
    \<and> follow (tr_revision (ma_transcript a0), tr_lines (ma_transcript a0)) ps
      = Some (tr_revision (ma_transcript a), tr_lines (ma_transcript a))"
proof -
  let ?c = "copy_of (ma_transcript a0)"
  have ok: "agents_ok env b0"
    using agents_ok_new [OF assms(1-4)] roster.kept_run [OF assms(5)] by blast
  have "desk_ok b0"
    using broker_new_ok [OF assms(1)] desk.kept_run [OF assms(5)] by blast
  then have gen: "b_generation b0 = g"
    using assms(7) by (simp add: desk_ok_def)
  have "new_id env n \<noteq> i" if "b_ticks b0 \<le> n" for n
    using agents_okD(7) [OF ok that] agents_okD(3) [OF ok] agent_of_in [OF assms(8)] by force
  moreover have "mirrored g i ?c (patches_sent g i b0) b0"
    using assms(6,8) unfolding mirrored_def by (intro conjI exI [of _ "[]"]) (simp_all add: shown_def copy_of_def)
  ultimately have "mirroring env g i ?c (patches_sent g i b0) b0"
    using ok gen by (simp add: mirroring_def)
  from mirror.kept_run [OF assms(9) this] assms(10,11) show ?thesis
    by (auto simp: mirroring_def mirrored_def shown_def copy_of_def)
qed

section \<open>A session with one agent\<close>

definition demo_agents :: Broker where
  "demo_agents = demo_broker\<lparr>b_agents := [(''a'', restored_agent quiet_world sample_agent)], b_order := [''a'']\<rparr>"

lemma demo_agents_new: "broker_new quiet_world demo_config Durable None None [sample_agent] None None = Some demo_agents"
  by (simp add: broker_new_def rb_new_def demo_config_def demo_agents_def demo_broker_def map_insert_def sample_agent_def)

definition demo_ready :: Broker where
  "demo_ready = (reply (String ''q'') (initialize_result False (greet 0 (take_over 1 demo_agents)))
     (greet 0 (take_over 1 demo_agents)))\<lparr>b_phase := Ready\<rparr>"

definition demo_greeting :: "BrokerInput list" where
  "demo_greeting = [FromClient (InConnected 1), FromClient (InFrame 1 (demo_request ''q'' ''initialize'' demo_hello)),
     FromClient (InFrame 1 (demo_notice ''initialized'' (jobj [])))]"

lemma demo_fields:
  "b_phase demo_ready = Ready" "b_generation demo_ready = 1" "b_output demo_ready = Some 1" "\<not> b_panicked demo_ready"
  "b_agents demo_ready = b_agents demo_agents" "b_replay demo_ready = b_replay demo_broker" "b_mode demo_ready = Durable"
  "b_registry demo_ready = None" "b_status demo_ready = None" "b_pending demo_ready = []" "b_next_request demo_ready = 1"
  "b_config demo_ready = demo_config"
  by (simp_all add: demo_ready_def reply_def send_def greet_def take_over_def demo_agents_def demo_broker_def)

lemma demo_greeted:
  "\<exists>b. broker_run demo_env demo_greeting demo_agents = Some (Continue, b) \<and> b_phase b = Ready \<and> b_output b = Some 1
    \<and> b_agents b = b_agents demo_agents \<and> b_replay b = b_replay demo_broker \<and> \<not> b_panicked b \<and> b_mode b = Durable
    \<and> b_pending b = [] \<and> b_next_request b = 1 \<and> b_config b = demo_config \<and> b_registry b = None \<and> b_status b = None"
proof -
  let ?t = "take_over 1 demo_agents"
  let ?g = "reply (String ''q'') (initialize_result False (greet 0 ?t)) (greet 0 ?t)"
  have t: "b_generation ?t = 1" "b_phase ?t = AwaitInitialize" "b_mode ?t = Durable" "\<not> b_panicked ?t"
    "rb_replay_after (b_replay ?t) 0 = Events []"
    by (simp_all add: take_over_def demo_agents_def demo_broker_def rb_replay_after_def rb_bounds_def)
  have g: "b_generation ?g = 1" "b_phase ?g = AwaitInitialized" "b_mode ?g = Durable" "\<not> b_panicked ?g" "b_cursor ?g = 0"
    "rb_replay_after (b_replay ?g) 0 = Events []"
    using t by (simp_all add: reply_def greet_def)
  have one: "broker_step demo_env (FromClient (InConnected 1)) demo_agents = (Continue, ?t)"
    by (simp add: broker_connect_def demo_agents_def demo_broker_def)
  have "broker_initialize (String ''q'') demo_hello ?t = ?g"
    using t by (simp add: broker_initialize_def demo_hello_reads PROTOCOL_VERSION_def Let_def)
  then have "handle_client_frame demo_env (demo_request ''q'' ''initialize'' demo_hello) ?t = (False, ?g)"
    using demo_request_frame [of demo_env "''q''" "''initialize''"] t by (simp add: demo_hello_def handle_request_def)
  then have two: "broker_step demo_env (FromClient (InFrame 1 (demo_request ''q'' ''initialize'' demo_hello))) ?t = (Continue, ?g)"
    using t by (simp add: input_generation_def handle_current_def)
  have "open_session ?g = demo_ready"
    using g by (simp add: open_session_def demo_ready_def)
  moreover have "as_object (jobj []) = Some []"
    by (simp add: jobj_def obj_of_def)
  ultimately have "handle_notification demo_env ''initialized'' (jobj []) ?g = notify_state demo_env demo_ready"
    using g by (simp add: handle_notification_def del: as_object_Some)
  also have "\<dots> = send (notification ''broker/state'' (jobj [(''agents'', JArray (map json_of_summary (summaries demo_ready)))])) demo_ready"
    by (rule notify_ready) (simp_all add: demo_fields)
  finally have three: "broker_step demo_env (FromClient (InFrame 1 (demo_notice ''initialized'' (jobj [])))) ?g
      = (Continue, send (notification ''broker/state'' (jobj [(''agents'', JArray (map json_of_summary (summaries demo_ready)))])) demo_ready)"
    using g by (simp add: input_generation_def handle_current_def demo_notice_frame)
  have "b_agents (send m x) = b_agents x" "b_pending (send m x) = b_pending x" "b_config (send m x) = b_config x"
    "b_registry (send m x) = b_registry x" "b_status (send m x) = b_status x" for m x
    by (simp_all add: send_def split: option.split)
  then show ?thesis
    using one two three t g demo_fields by (simp add: demo_greeting_def del: broker_step.simps)
qed

text \<open>The session receives a piece of an answer: one patch goes out.\<close>

theorem editor_copy_exact_witness:
  "\<exists>b0 b a0 a ps. broker_run demo_env demo_greeting demo_agents = Some (Continue, b0)
    \<and> broker_run demo_env [FromRuntime (EvProvider (demo_event\<lparr>ev_agent_id := ''a''\<rparr>))] b0 = Some (Continue, b)
    \<and> agent_of b0 ''a'' = Some a0 \<and> agent_of b ''a'' = Some a
    \<and> patches_sent 1 ''a'' b = patches_sent 1 ''a'' b0 @ map (patch_note ''a'') ps
    \<and> follow (tr_revision (ma_transcript a0), tr_lines (ma_transcript a0)) ps
      = Some (tr_revision (ma_transcript a), tr_lines (ma_transcript a))"
proof -
  obtain b0 where run0: "broker_run demo_env demo_greeting demo_agents = Some (Continue, b0)"
    and b0: "b_phase b0 = Ready" "b_output b0 = Some 1" "b_agents b0 = b_agents demo_agents" "b_replay b0 = b_replay demo_broker"
      "\<not> b_panicked b0" "b_mode b0 = Durable"
    using demo_greeted by blast
  let ?ev = "demo_event\<lparr>ev_agent_id := ''a''\<rparr>"
  let ?b = "handle_provider_event demo_env ?ev b0"
  obtain n rest where push: "rb_push (b_replay b0) ?ev = Some (n, rest)"
    by (auto simp: b0 rb_push_def checked_add1_def u64_max_def demo_broker_def Let_def)
  have a0: "agent_of b0 ''a'' = Some (restored_agent quiet_world sample_agent)"
    by (simp add: agent_of_def b0 demo_agents_def)
  have ty: "ev_type demo_event = ''message.delta''"
    by (simp add: demo_event_def)
  have b: "?b = update_transcript demo_env (?ev\<lparr>ev_sequence := n\<rparr>) (send_if_ready (?ev\<lparr>ev_sequence := n\<rparr>)
      (upd_agent ''a'' (event_state (?ev\<lparr>ev_sequence := n\<rparr>)) (b0\<lparr>b_replay := rest\<rparr>)))"
  proof -
    have "event_state (?ev\<lparr>ev_sequence := n\<rparr>) x = x" for x
      by (simp add: event_state_def ty)
    moreover have "agent_of (b0\<lparr>b_replay := rest\<rparr>) ''a'' = Some (restored_agent quiet_world sample_agent)"
      using a0 by (simp add: agent_of_def)
    ultimately show ?thesis
      using b0 push
      by (simp add: handle_provider_event_def publish_event_def warn_unattended_def push_event_def apply_event_state_def
        state_differs_def ty)
  qed
  let ?c = "send_if_ready (?ev\<lparr>ev_sequence := n\<rparr>) (upd_agent ''a'' (event_state (?ev\<lparr>ev_sequence := n\<rparr>)) (b0\<lparr>b_replay := rest\<rparr>))"
  have "agent_of (b0\<lparr>b_replay := rest\<rparr>) ''a'' \<noteq> None"
    using a0 by (simp add: agent_of_def)
  then have c: "agent_of ?c ''a'' \<noteq> None" "\<not> b_panicked ?c"
    using b0 by (auto simp: send_if_ready_def send_event_def)
  have "agent_of (update_transcript demo_env e x) ''a'' \<noteq> None \<and> b_panicked (update_transcript demo_env e x) = b_panicked x"
    if "agent_of x ''a'' \<noteq> None" for e x
    using that by (auto simp: update_transcript_def Let_def send_transcript_patch_def split: option.split prod.split)
  then have alive: "agent_of ?b ''a'' \<noteq> None" and np: "\<not> b_panicked ?b"
    using c unfolding b by blast+
  have out: "b_output ?b = Some 1"
    using silently_link [OF silently_provider_event, of demo_env ?ev b0] b0 by (simp add: link_def)
  obtain a where a: "agent_of ?b ''a'' = Some a"
    using alive by blast
  have run: "broker_run demo_env [FromRuntime (EvProvider ?ev)] b0 = Some (Continue, ?b)"
    using np by simp
  show ?thesis
    using editor_copy_exact [OF demo_agents_new _ demo_ids _ run0 b0(1,2) a0 run out a] run0 run a0 a demo_id_not_a
    by (auto simp: sample_agent_def simp del: broker_run.simps broker_step.simps)
qed

end
