(* ===== verification/BrokerConfig.thy ===== *)
theory BrokerConfig
  imports BrokerState
begin

text \<open>
  The configuration of a broker: the defaults of its parts (\<open>codex.rs\<close>, \<open>worker.rs\<close>, \<open>workspace.rs\<close>,
  \<open>runtime.rs\<close>) and the builder of \<open>EmbeddedConfig\<close> (\<open>embedded.rs\<close>).

  The variables of the process environment are a function from names to values.  A time-out is a
  number of seconds.
\<close>

type_synonym Variables = "string \<Rightarrow> string option"

section \<open>Defaults\<close>

definition codex_command_default :: CommandSpec where
  "codex_command_default = \<lparr>cs_program = ''codex'', cs_args = [''app-server'', ''--stdio'']\<rparr>"

definition worker_arguments :: "string list" where
  "worker_arguments = [''-B'', ''-I'', ''-m'', ''agent_manager_claude_worker'']"

definition worker_command_default :: CommandSpec where
  "worker_command_default = \<lparr>cs_program = ''python'', cs_args = worker_arguments\<rparr>"

definition workspace_command_default :: string where
  "workspace_command_default = ''zemrip-agent-workspace''"

definition DEFAULT_CALLBACK_TIMEOUT :: nat where "DEFAULT_CALLBACK_TIMEOUT = 300"
definition DEFAULT_REPLAY_CAPACITY :: nat where "DEFAULT_REPLAY_CAPACITY = 2000"

definition default_thread_lock_directory :: "Variables \<Rightarrow> string option" where
  "default_thread_lock_directory vars =
    (case vars ''CODEX_HOME'' of
       Some path \<Rightarrow> if is_absolute path then Some (path_join path ''thread-writer-locks'') else None
     | None \<Rightarrow>
         map_option (\<lambda>path. path_join (path_join path ''.codex'') ''thread-writer-locks'')
           (filter_opt is_absolute (vars ''HOME'')))"

definition runtime_default :: "Variables \<Rightarrow> RuntimeConfig" where
  "runtime_default vars =
    \<lparr>rc_codex = codex_command_default, rc_codex_thread_locks = default_thread_lock_directory vars,
     rc_claude = worker_command_default, rc_claude_setting_sources = [],
     rc_callback_timeout = DEFAULT_CALLBACK_TIMEOUT\<rparr>"

definition config_default :: "Variables \<Rightarrow> EmbeddedConfig" where
  "config_default vars =
    \<lparr>ec_runtime = runtime_default vars, ec_workspace = Some workspace_command_default,
     ec_allow_shared_workspaces = True, ec_replay_capacity = DEFAULT_REPLAY_CAPACITY\<rparr>"

section \<open>The builder\<close>

definition with_codex_program :: "string \<Rightarrow> EmbeddedConfig \<Rightarrow> EmbeddedConfig" where
  "with_codex_program program c =
    c\<lparr>ec_runtime := (ec_runtime c)\<lparr>rc_codex := (rc_codex (ec_runtime c))\<lparr>cs_program := program\<rparr>\<rparr>\<rparr>"

definition with_claude_python :: "string \<Rightarrow> EmbeddedConfig \<Rightarrow> EmbeddedConfig" where
  "with_claude_python python c =
    c\<lparr>ec_runtime := (ec_runtime c)\<lparr>rc_claude := \<lparr>cs_program = python, cs_args = worker_arguments\<rparr>\<rparr>\<rparr>"

definition with_claude_setting_sources :: "string list \<Rightarrow> EmbeddedConfig \<Rightarrow> EmbeddedConfig" where
  "with_claude_setting_sources sources c =
    c\<lparr>ec_runtime := (ec_runtime c)\<lparr>rc_claude_setting_sources := sources\<rparr>\<rparr>"

definition with_workspace_lifecycle :: "string \<Rightarrow> EmbeddedConfig \<Rightarrow> EmbeddedConfig" where
  "with_workspace_lifecycle program c = c\<lparr>ec_workspace := Some program\<rparr>"

definition without_workspace_lifecycle :: "EmbeddedConfig \<Rightarrow> EmbeddedConfig" where
  "without_workspace_lifecycle c = c\<lparr>ec_workspace := None\<rparr>"

definition with_shared_workspaces :: "bool \<Rightarrow> EmbeddedConfig \<Rightarrow> EmbeddedConfig" where
  "with_shared_workspaces allowed c = c\<lparr>ec_allow_shared_workspaces := allowed\<rparr>"

definition with_provider_commands :: "CommandSpec \<Rightarrow> CommandSpec \<Rightarrow> EmbeddedConfig \<Rightarrow> EmbeddedConfig" where
  "with_provider_commands codex claude c =
    c\<lparr>ec_runtime := (ec_runtime c)\<lparr>rc_codex := codex, rc_codex_thread_locks := None, rc_claude := claude\<rparr>\<rparr>"

definition with_codex_thread_locks :: "string \<Rightarrow> EmbeddedConfig \<Rightarrow> EmbeddedConfig" where
  "with_codex_thread_locks directory c =
    c\<lparr>ec_runtime := (ec_runtime c)\<lparr>rc_codex_thread_locks := Some directory\<rparr>\<rparr>"

definition with_callback_timeout :: "nat \<Rightarrow> EmbeddedConfig \<Rightarrow> EmbeddedConfig" where
  "with_callback_timeout timeout c = c\<lparr>ec_runtime := (ec_runtime c)\<lparr>rc_callback_timeout := timeout\<rparr>\<rparr>"

text \<open>\<open>None\<close> when the assertion fails.\<close>

definition with_replay_capacity :: "nat \<Rightarrow> EmbeddedConfig \<Rightarrow> EmbeddedConfig option" where
  "with_replay_capacity capacity c = (if capacity > 0 then Some (c\<lparr>ec_replay_capacity := capacity\<rparr>) else None)"

section \<open>A configured broker starts\<close>

text \<open>
  The replay buffer refuses only the capacity zero, which no configuration has: the default is
  positive, the builder refuses zero, and the other settings leave the capacity alone.
\<close>

lemma config_capacity [simp]:
  "0 < ec_replay_capacity (config_default vars)"
  "ec_replay_capacity (with_codex_program p c) = ec_replay_capacity c"
  "ec_replay_capacity (with_claude_python p c) = ec_replay_capacity c"
  "ec_replay_capacity (with_claude_setting_sources s c) = ec_replay_capacity c"
  "ec_replay_capacity (with_workspace_lifecycle p c) = ec_replay_capacity c"
  "ec_replay_capacity (without_workspace_lifecycle c) = ec_replay_capacity c"
  "ec_replay_capacity (with_shared_workspaces a c) = ec_replay_capacity c"
  "ec_replay_capacity (with_provider_commands cx cl c) = ec_replay_capacity c"
  "ec_replay_capacity (with_codex_thread_locks d c) = ec_replay_capacity c"
  "ec_replay_capacity (with_callback_timeout t c) = ec_replay_capacity c"
  by (simp_all add: config_default_def DEFAULT_REPLAY_CAPACITY_def with_codex_program_def with_claude_python_def
      with_claude_setting_sources_def with_workspace_lifecycle_def without_workspace_lifecycle_def
      with_shared_workspaces_def with_provider_commands_def with_codex_thread_locks_def with_callback_timeout_def)

lemma with_replay_capacity_pos: "with_replay_capacity n c = Some c' \<Longrightarrow> 0 < ec_replay_capacity c'"
  by (auto simp: with_replay_capacity_def split: if_splits)

end
