(* ===== verification/Pumps.thy ===== *)
theory Pumps
  imports BrokerAgents BrokerConfig
begin

text \<open>
  The tasks around the broker (\<open>embedded.rs\<close>: \<open>read_client\<close>, \<open>write_client\<close>, \<open>serve\<close>): one turns the
  bytes of a client into inputs, one turns messages into bytes, and \<open>serve\<close> runs an embedded broker
  between the two.

  The reader is the one of the framing; the channel to the broker takes inputs until the broker has
  ended, which is an optional number of inputs that it still takes.  The writer takes whole frames
  until it breaks, which is an optional number of frames.
\<close>

definition MAX_PUBLIC_FRAME_BYTES :: nat where "MAX_PUBLIC_FRAME_BYTES = 8 * 1024 * 1024"

definition client_input :: "codec \<Rightarrow> u64 \<Rightarrow> string \<Rightarrow> ClientInput" where
  "client_input cd g data =
    (case cd_decode cd (strip_line_end data) of None \<Rightarrow> InParseError g | Some v \<Rightarrow> InFrame g v)"

definition taken :: "nat option \<Rightarrow> ClientInput list \<Rightarrow> ClientInput list" where
  "taken room xs = (if room = Some 0 then [] else xs)"

function read_client :: "codec \<Rightarrow> u64 \<Rightarrow> nat option \<Rightarrow> reader \<Rightarrow> ClientInput list" where
  "read_client cd g room r =
    (case read_bounded_line MAX_PUBLIC_FRAME_BYTES r of
       None \<Rightarrow> taken room [InIo g]
     | Some (Closed, r1) \<Rightarrow> taken room [InClosed g]
     | Some (TooLarge, r1) \<Rightarrow> taken room [InFrameTooLarge g]
     | Some (Data data, r1) \<Rightarrow>
         if room = Some 0 then []
         else client_input cd g data # read_client cd g (map_option (\<lambda>n. n - 1) room) r1)"
  by pat_completeness auto
termination
  by (relation "measure (\<lambda>(cd, g, room, r). reader_weight r)") (auto dest: read_bounded_line_weight)

declare read_client.simps [simp del]

text \<open>The bytes written, and whether the writer is still sound.\<close>

fun write_client :: "codec \<Rightarrow> nat option \<Rightarrow> json list \<Rightarrow> bool \<times> string" where
  "write_client cd room [] = (True, [])"
| "write_client cd room (m # ms) =
    (if room = Some 0 then (False, [])
     else (case write_client cd (map_option (\<lambda>n. n - 1) room) ms of
         (ok, rest) \<Rightarrow> (ok, cd_encode cd m @ [newline] @ rest)))"

section \<open>The last input of a reader\<close>

definition ends_connection :: "ClientInput \<Rightarrow> bool" where
  "ends_connection x = (case x of InClosed g \<Rightarrow> True | InIo g \<Rightarrow> True | InFrameTooLarge g \<Rightarrow> True | _ \<Rightarrow> False)"

definition carries :: "ClientInput \<Rightarrow> bool" where
  "carries x = (case x of InFrame g v \<Rightarrow> True | InParseError g \<Rightarrow> True | _ \<Rightarrow> False)"

lemma client_input_carries [simp]:
  "carries (client_input cd g d)" "input_generation (client_input cd g d) = g"
  by (simp_all add: carries_def client_input_def input_generation_def split: option.split)

lemma read_client_shape:
  "\<exists>xs x. read_client cd g None r = xs @ [x] \<and> list_all carries xs \<and> ends_connection x
     \<and> (\<forall>y\<in>set (read_client cd g None r). input_generation y = g)"
proof (induction cd g "None :: nat option" r rule: read_client.induct)
  case (1 cd g r)
  show ?case
  proof (cases "\<exists>d r1. read_bounded_line MAX_PUBLIC_FRAME_BYTES r = Some (Data d, r1)")
    case True
    then obtain d r1 where d: "read_bounded_line MAX_PUBLIC_FRAME_BYTES r = Some (Data d, r1)"
      by blast
    obtain xs x where "read_client cd g None r1 = xs @ [x]" "list_all carries xs" "ends_connection x"
      "\<forall>y\<in>set (read_client cd g None r1). input_generation y = g"
      using 1 [OF d refl refl] by auto
    then show ?thesis
      by (intro exI [of _ "client_input cd g d # xs"] exI [of _ x])
        (subst (1 2) read_client.simps, simp add: d)
  next
    case False
    then show ?thesis
      by (subst (1 2) read_client.simps)
        (auto simp: taken_def ends_connection_def input_generation_def split: option.split prod.split BoundedFrame.split
          intro!: exI [of _ "[]"])
  qed
qed

section \<open>What a client writes is what the broker reads\<close>

lemma strip_line_end_plain: "s = [] \<or> last s \<noteq> newline \<and> last s \<noteq> CHR 0x0D \<Longrightarrow> strip_line_end (s @ [newline]) = s"
  by (cases s rule: rev_cases) (auto simp: strip_line_end_def)

text \<open>A codec that writes the messages as single lines within the bound and reads them back.\<close>

definition plain_lines :: "codec \<Rightarrow> json list \<Rightarrow> bool" where
  "plain_lines cd ms = list_all (\<lambda>m. cd_decode cd (cd_encode cd m) = Some m
     \<and> newline \<notin> set (cd_encode cd m) \<and> CHR 0x0D \<notin> set (cd_encode cd m)
     \<and> length (cd_encode cd m) \<le> MAX_PUBLIC_FRAME_BYTES) ms"

lemma plain_frame:
  assumes "newline \<notin> set e" and "length e \<le> lim"
  shows "frame_spec lim (e @ newline # rest) = Data (e @ [newline])" and "rest_spec (e @ newline # rest) = rest"
  using assms position_None [of newline e] by (simp_all add: frame_spec_def rest_spec_def position_append)

lemma read_written:
  assumes "plain_lines cd ms" and "healthy r" and "stream r = snd (write_client cd None ms)"
  shows "read_client cd g None r = map (InFrame g) ms @ [InClosed g]"
  using assms
proof (induction ms arbitrary: r)
  case Nil
  then have "\<exists>r1. read_bounded_line MAX_PUBLIC_FRAME_BYTES r = Some (Closed, r1)"
    using read_bounded_line_spec [of r MAX_PUBLIC_FRAME_BYTES] by (auto simp: frame_spec_def)
  then show ?case
    by (auto simp: taken_def read_client.simps)
next
  case (Cons m ms)
  let ?e = "cd_encode cd m" and ?rest = "snd (write_client cd None ms)"
  have e: "newline \<notin> set ?e" "CHR 0x0D \<notin> set ?e" "length ?e \<le> MAX_PUBLIC_FRAME_BYTES" "cd_decode cd ?e = Some m"
    and ms: "plain_lines cd ms"
    using Cons.prems(1) by (auto simp: plain_lines_def)
  have str: "stream r = ?e @ newline # ?rest"
    using Cons.prems(3) by (simp split: prod.splits)
  obtain r1 where r1: "read_bounded_line MAX_PUBLIC_FRAME_BYTES r = Some (Data (?e @ [newline]), r1)"
    "healthy r1" "stream r1 = ?rest"
    using read_bounded_line_spec [OF Cons.prems(2), of MAX_PUBLIC_FRAME_BYTES]
    unfolding str plain_frame [OF e(1,3)] by auto
  have "strip_line_end (?e @ [newline]) = ?e"
    using e(1,2) by (intro strip_line_end_plain) (metis last_in_set)
  with r1(1) e(4) Cons.IH [OF ms r1(2,3)] show ?case
    by (subst read_client.simps) (simp add: client_input_def)
qed

section \<open>When the broker ends\<close>

definition clients :: "BrokerInput list \<Rightarrow> ClientInput list" where
  "clients xs = filter_map (\<lambda>x. case x of FromClient c \<Rightarrow> Some c | FromRuntime e \<Rightarrow> None) xs"

lemma clients_simps [simp]:
  "clients [] = []" "clients (FromClient c # xs) = c # clients xs" "clients (FromRuntime e # xs) = clients xs"
  by (simp_all add: clients_def)

lemma frame_generation: "handle_client_frame env frame b = (stop, b') \<Longrightarrow> b_generation b' = b_generation b"
proof -
  have request: "handle_request env i name params b = (stop, b') \<Longrightarrow> b_generation b' = b_generation b" for i name params
    by (drule request_served) (auto dest!: served_link simp: link_def reply_def greet_def)
  have notice: "b_generation (handle_notification env name params b) = b_generation b" for name params
    using silently_link [OF silently_notify_state, of env "open_session b"]
    by (simp add: handle_notification_def link_def)
  show "handle_client_frame env frame b = (stop, b') \<Longrightarrow> b_generation b' = b_generation b"
    by (auto simp: handle_client_frame_def invalid_request_def Let_def request notice split: if_splits option.splits)
qed

lemma disconnect_agents_link: "link (disconnect_agents env ids b) = link b"
  using silently_link [OF silently_disconnect_agents] by blast

lemma disconnect_link:
  "link (broker_disconnect env g b) =
    (if g = b_generation b then (None, b_generation b, AwaitInitialize, b_mode b) else link b)"
  by (simp add: broker_disconnect_def Let_def disconnect_agents_link) (simp add: link_def hang_up_def)

lemma disconnect_generation [simp]: "b_generation (broker_disconnect env g b) = b_generation b"
  using disconnect_link [of env g b] by (simp add: link_def split: if_splits)

lemma step_generation:
  assumes "broker_step env x b = (r, b')" and "\<And>g. x \<noteq> FromClient (InConnected g)"
  shows "b_generation b' = b_generation b"
proof (cases x)
  case (FromRuntime e)
  then show ?thesis
    using assms(1) reported_link [OF reported_runtime_event, of env e b] by (auto simp: link_def)
next
  case (FromClient c)
  then have c: "c \<noteq> InConnected g" for g
    using assms(2) by blast
  show ?thesis
    using assms(1) FromClient c
    by (auto simp: client_step handle_current_def Let_def dest: frame_generation
      split: if_splits ClientInput.splits prod.splits)
qed

text \<open>Only an embedded broker is ended by what a client does.\<close>

lemma frame_stop: "handle_client_frame env frame b = (True, b') \<Longrightarrow> b_mode b = Embedded"
  by (cases "b_mode b")
    (auto simp: handle_client_frame_def handle_request_def shutdown_request_def Let_def
      split: if_splits option.splits ConnectionPhase.splits)

lemma send_mode [simp]: "b_mode (send m b) = b_mode b"
  by (simp add: send_def split: option.split)

lemma step_finished:
  assumes "broker_step env x b = (Finished ok, b')"
  shows "b_mode b = Embedded"
proof (cases "b_mode b")
  case Durable
  have "handle_client_frame env frame b \<noteq> (True, b1)" for frame b1
    using frame_stop [of env frame b b1] Durable by auto
  then show ?thesis
    using assms Durable
    by (cases "(env, x, b)" rule: broker_step.cases)
      (auto simp: handle_current_def Let_def split: if_splits ClientInput.splits prod.splits)
qed simp

lemma ending_step:
  assumes "ends_connection c" and "input_generation c = b_generation b" and "b_mode b = Embedded"
    and "broker_step env (FromClient c) b = (r, b')"
  shows "r \<noteq> Continue"
  using assms by (cases c) (auto simp: ends_connection_def input_generation_def handle_current_def Let_def)

lemma embedded_run_ends:
  assumes "broker_run env xs b = Some (r, b')" and "clients xs = ys @ [c]"
    and "list_all carries ys" and "ends_connection c" and "\<forall>y\<in>set (clients xs). input_generation y = b_generation b"
    and "b_mode b = Embedded"
  shows "r \<noteq> Continue"
  using assms
proof (induction xs arbitrary: b ys)
  case (Cons x xs)
  obtain r1 b1 where st: "broker_step env x b = (r1, b1)"
    by (cases "broker_step env x b")
  have mode: "b_mode b1 = Embedded" if "\<not> b_panicked b1"
    using same_mode.kept_step [OF st Cons.prems(6) that] .
  show ?case
  proof (cases x)
    case (FromRuntime e)
    then show ?thesis
      using Cons.prems st mode step_generation [OF st] Cons.IH [of b1 ys]
      by (auto split: if_splits Outcome.splits)
  next
    case (FromClient d)
    show ?thesis
    proof (cases ys)
      case Nil
      then show ?thesis
        using Cons.prems st FromClient ending_step [of c b env r1 b1]
        by (auto split: if_splits Outcome.splits)
    next
      case (Cons y zs)
      then have "d = y" "carries y"
        using Cons.prems FromClient by auto
      then have "x \<noteq> FromClient (InConnected g)" for g
        using FromClient by (auto simp: carries_def)
      then show ?thesis
        using Cons.prems Cons st mode step_generation [OF st] FromClient Cons.IH [of b1 zs]
        by (auto split: if_splits Outcome.splits)
    qed
  qed
qed simp

lemma client_run_ends:
  assumes "broker_run env xs b = Some (res, b')" and "clients xs = InConnected 1 # read_client cd 1 None r"
    and "b_generation b = 0" and "b_mode b = Embedded"
  shows "res \<noteq> Continue"
proof -
  obtain ys c where ys: "read_client cd 1 None r = ys @ [c]" "list_all carries ys" "ends_connection c"
    "\<forall>y\<in>set (read_client cd 1 None r). input_generation y = 1"
    using read_client_shape [of cd 1 r] by metis
  show ?thesis
    using assms
  proof (induction xs arbitrary: b)
    case (Cons x xs)
    obtain r1 b1 where st: "broker_step env x b = (r1, b1)"
      by (cases "broker_step env x b")
    have mode: "b_mode b1 = Embedded" if "\<not> b_panicked b1"
      using same_mode.kept_step [OF st Cons.prems(4) that] .
    show ?case
    proof (cases x)
      case (FromRuntime e)
      then show ?thesis
        using Cons.prems st mode step_generation [OF st] Cons.IH [of b1] by (auto split: if_splits Outcome.splits)
    next
      case (FromClient d)
      then have "b1 = take_over 1 b" "r1 = Continue" "clients xs = ys @ [c]"
        using Cons.prems st ys(1) by (auto simp: broker_connect_def)
      then show ?thesis
        using Cons.prems st mode ys embedded_run_ends [of env xs b1 res b' ys c]
        by (auto simp: take_over_def split: if_splits)
    qed
  qed simp
qed

section \<open>The embedded broker\<close>

datatype EmbeddedError = EmIo | EmJoin | EmJson

datatype Served = Panicked | Waiting | Ended "EmbeddedError + unit" Broker string

text \<open>
  \<open>serve\<close> for the inputs that the loop takes, in their order, and a writer that takes \<open>room\<close> frames.
  The inputs of the client come from \<open>read_client\<close>; how they interleave with the reports of the
  provider tasks is not determined.  The first input of the loop is the connection itself.
\<close>

definition embedded_serve :: "BrEnv \<Rightarrow> EmbeddedConfig \<Rightarrow> nat option \<Rightarrow> BrokerInput list \<Rightarrow> Served" where
  "embedded_serve env config room inputs =
    (case broker_new (be_world env 0) config Embedded None None [] None None of
       None \<Rightarrow> Panicked
     | Some b \<Rightarrow>
         (case broker_run env inputs b of
            None \<Rightarrow> Panicked
          | Some (Continue, _) \<Rightarrow> Waiting
          | Some (Finished ok, b1) \<Rightarrow>
              (let b2 = (shutdown_agents env b1)\<lparr>b_output := None\<rparr> in
               case write_client (be_codec env) room (map snd (b_sent b2)) of
                 (written, bytes) \<Rightarrow> Ended (if written \<and> ok then Inr () else Inl EmIo) b2 bytes)))"

lemma write_client_sound [simp]: "write_client cd None ms = (True, concat (map (\<lambda>m. cd_encode cd m @ [newline]) ms))"
  by (induction ms) simp_all

lemma read_client_no_error:
  "healthy r \<Longrightarrow> InIo h \<notin> set (read_client cd g None r)"
proof (induction cd g "None :: nat option" r rule: read_client.induct)
  case (1 cd g r)
  obtain r' where r': "read_bounded_line MAX_PUBLIC_FRAME_BYTES r = Some (frame_spec MAX_PUBLIC_FRAME_BYTES (stream r), r')"
    "healthy r'"
    using read_bounded_line_spec [OF 1(2)] by blast
  have "InIo h \<noteq> client_input cd g d" for d
    by (simp add: client_input_def split: option.split)
  then show ?case
    using 1(1) [OF r'(1) refl] r'
    by (subst read_client.simps) (simp add: taken_def split: BoundedFrame.split)
qed

lemma step_failed: "broker_step env x b = (Finished False, b') \<Longrightarrow> \<exists>g. x = FromClient (InIo g)"
  by (cases "(env, x, b)" rule: broker_step.cases)
    (auto simp: handle_current_def Let_def split: if_splits ClientInput.splits prod.splits)

lemma run_failed: "broker_run env xs b = Some (Finished False, b') \<Longrightarrow> \<exists>g. InIo g \<in> set (clients xs)"
proof (induction xs arbitrary: b)
  case (Cons x xs)
  obtain r1 b1 where st: "broker_step env x b = (r1, b1)"
    by (cases "broker_step env x b")
  then show ?case
    using Cons step_failed [of env x b b1]
    by (cases x) (auto split: if_splits Outcome.splits)
qed simp


text \<open>A client that connects and hangs up.\<close>

definition demo_visit :: "BrokerInput list" where
  "demo_visit = [FromClient (InConnected 1), FromClient (InClosed 1)]"



text \<open>Two messages, of which the second is cut by a buffer boundary.\<close>

definition demo_codec :: codec where
  "demo_codec = \<lparr>cd_encode = (\<lambda>m. case m of JBool True \<Rightarrow> ''true'' | _ \<Rightarrow> ''null''),
     cd_decode = (\<lambda>s. if s = ''true'' then Some (JBool True) else if s = ''null'' then Some JNull else None)\<rparr>"


end
