(* ===== verification/SocketPath.thy ===== *)
theory SocketPath
  imports Pumps
begin

text \<open>
  The owner-only socket of the durable broker, \<open>durable.rs\<close>: \<open>bind_owner_only\<close> and the guard that
  removes the socket again.

  A \<open>Tree\<close> is what the file system has at each path; a node of kind socket is live while a process
  listens on it.  System calls are numbered.  What other processes do to the tree before call \<open>n\<close>,
  which calls fail with an I/O error, and the identity and mode the system gives to a new socket are
  the answers of the operating system, a \<open>SocketOs\<close>; nothing is assumed about them unless a lemma
  says so.
\<close>

datatype NodeKind = SocketNode | DirectoryNode | OtherNode

record Node =
  nd_kind :: NodeKind
  nd_live :: bool
  nd_device :: u64
  nd_inode :: u64
  nd_mode :: u32

type_synonym Tree = "string \<Rightarrow> Node option"

record SocketOs =
  os_between :: "nat \<Rightarrow> Tree \<Rightarrow> Tree"
  os_fails :: "nat \<Rightarrow> bool"
  os_device :: u64
  os_inode :: u64
  os_mode :: u32

record SocketGuard =
  sg_path :: string
  sg_device :: u64
  sg_inode :: u64

datatype DurableError =
    DuIo | DuJoin | DuBroker EmbeddedError | DuRegistry RegistryError | DuStatus StatusError | DuUnsafe string | DuAlreadyRunning

fun durable_error_code :: "DurableError \<Rightarrow> string" where
  "durable_error_code DuIo = ''io_failed''"
| "durable_error_code DuJoin = ''task_failed''"
| "durable_error_code (DuBroker e) = ''broker_core_failed''"
| "durable_error_code (DuRegistry e) = ''registry_failed''"
| "durable_error_code (DuStatus e) = ''status_failed''"
| "durable_error_code (DuUnsafe reason) = ''unsafe_path''"
| "durable_error_code DuAlreadyRunning = ''already_running''"

section \<open>Taking the path\<close>

definition new_node :: "SocketOs \<Rightarrow> Node" where
  "new_node os = \<lparr>nd_kind = SocketNode, nd_live = True, nd_device = os_device os, nd_inode = os_inode os, nd_mode = os_mode os\<rparr>"

definition same_node :: "Node \<Rightarrow> Node \<Rightarrow> bool" where
  "same_node m n = (nd_device m = nd_device n \<and> nd_inode m = nd_inode n)"

text \<open>The listener that \<open>bind\<close> returned is dropped: nobody listens on its socket any more.\<close>

definition close_listener :: "SocketOs \<Rightarrow> string \<Rightarrow> Tree \<Rightarrow> Tree" where
  "close_listener os path t =
    (case t path of
       None \<Rightarrow> t
     | Some n \<Rightarrow> if same_node n (new_node os) then t(path \<mapsto> n\<lparr>nd_live := False\<rparr>) else t)"

text \<open>\<open>fs::remove_file\<close>; it does not remove directories.\<close>

definition remove_path :: "string \<Rightarrow> Tree \<Rightarrow> bool \<times> Tree" where
  "remove_path path t =
    (case t path of
       None \<Rightarrow> (False, t)
     | Some n \<Rightarrow> if nd_kind n = DirectoryNode then (False, t) else (True, t(path := None)))"

definition remove_stale :: "SocketOs \<Rightarrow> string \<Rightarrow> Node \<Rightarrow> Tree \<Rightarrow> (DurableError + unit) \<times> Tree" where
  "remove_stale os path found t =
    (let t2 = os_between os 2 t in
     if os_fails os 2 then (Inl DuIo, t2)
     else (case t2 path of
         None \<Rightarrow> (Inl DuIo, t2)
       | Some current \<Rightarrow>
           if nd_kind current \<noteq> SocketNode \<or> \<not> same_node current found
           then (Inl (DuUnsafe ''socket changed during stale cleanup''), t2)
           else
             (let t3 = os_between os 3 t2 in
              if os_fails os 3 then (Inl DuIo, t3)
              else (case remove_path path t3 of (ok, t4) \<Rightarrow> (if ok then Inr () else Inl DuIo, t4)))))"

text \<open>Connecting succeeds on a live socket, is refused without one, and reports a missing path.\<close>

definition clear_path :: "SocketOs \<Rightarrow> string \<Rightarrow> Tree \<Rightarrow> (DurableError + unit) \<times> Tree" where
  "clear_path os path t =
    (let t0 = os_between os 0 t in
     if os_fails os 0 then (Inl DuIo, t0)
     else (case t0 path of
         None \<Rightarrow> (Inr (), t0)
       | Some found \<Rightarrow>
           if nd_kind found \<noteq> SocketNode then (Inl (DuUnsafe ''existing socket path is not a Unix socket''), t0)
           else
             (let t1 = os_between os 1 t0 in
              if os_fails os 1 then (Inl DuIo, t1)
              else if some_and (\<lambda>n. nd_kind n = SocketNode \<and> nd_live n) (t1 path) then (Inl DuAlreadyRunning, t1)
              else remove_stale os path found t1)))"

definition owner_bits :: u32 where "owner_bits = 384"

definition listen :: "SocketOs \<Rightarrow> string \<Rightarrow> Tree \<Rightarrow> (DurableError + SocketGuard) \<times> Tree" where
  "listen os path t =
    (let t4 = os_between os 4 t in
     if os_fails os 4 \<or> t4 path \<noteq> None then (Inl DuIo, t4)
     else
       (let t5 = os_between os 5 (t4(path \<mapsto> new_node os)) in
        if os_fails os 5 then (Inl DuIo, close_listener os path t5)
        else (case t5 path of
            None \<Rightarrow> (Inl DuIo, t5)
          | Some n \<Rightarrow>
              (let t6 = os_between os 6 (t5(path \<mapsto> n\<lparr>nd_mode := owner_bits\<rparr>)) in
               if os_fails os 6 then (Inl DuIo, close_listener os path t6)
               else (case t6 path of
                   None \<Rightarrow> (Inl DuIo, t6)
                 | Some m \<Rightarrow>
                     if nd_kind m \<noteq> SocketNode \<or> \<not> owner_only (nd_mode m)
                     then (Inl (DuUnsafe ''socket is not owner-only''), close_listener os path t6)
                     else (Inr \<lparr>sg_path = path, sg_device = nd_device m, sg_inode = nd_inode m\<rparr>, t6))))))"

definition bind_owner_only :: "World \<Rightarrow> SocketOs \<Rightarrow> string \<Rightarrow> Tree \<Rightarrow> (DurableError + SocketGuard) \<times> Tree" where
  "bind_owner_only w os path t =
    (if \<not> is_absolute path then (Inl (DuUnsafe ''socket path must be absolute''), t)
     else (case path_parent path of
         None \<Rightarrow> (Inl (DuUnsafe ''socket path must have a parent directory''), t)
       | Some parent \<Rightarrow>
           (case ensure_private_directory w parent of
              Inl e \<Rightarrow> (Inl (DuRegistry e), t)
            | Inr _ \<Rightarrow>
                (case clear_path os path t of
                   (Inl e, t1) \<Rightarrow> (Inl e, t1)
                 | (Inr _, t1) \<Rightarrow> listen os path t1))))"

section \<open>Giving it back\<close>

definition guards :: "SocketGuard \<Rightarrow> Node \<Rightarrow> bool" where
  "guards g n = (nd_kind n = SocketNode \<and> nd_device n = sg_device g \<and> nd_inode n = sg_inode g)"

text \<open>\<open>Drop for SocketGuard\<close>: calls 7 and 8.\<close>

definition drop_guard :: "SocketOs \<Rightarrow> SocketGuard \<Rightarrow> Tree \<Rightarrow> Tree" where
  "drop_guard os g t =
    (let t7 = os_between os 7 t in
     if os_fails os 7 then t7
     else if some_and (guards g) (t7 (sg_path g))
     then (let t8 = os_between os 8 t7 in if os_fails os 8 then t8 else snd (remove_path (sg_path g) t8))
     else t7)"

section \<open>What it promises\<close>

text \<open>Nobody else touches the tree during the call.\<close>

definition undisturbed :: "SocketOs \<Rightarrow> bool" where
  "undisturbed os = (\<forall>n. os_between os n = id)"

lemma undisturbed_id [simp]: "undisturbed os \<Longrightarrow> os_between os n t = t"
  by (simp add: undisturbed_def)

definition occupied :: "Node option \<Rightarrow> bool" where
  "occupied x = some_and (\<lambda>n. nd_kind n \<noteq> SocketNode \<or> nd_live n) x"

lemma clear_path_quiet:
  assumes "undisturbed os" and "clear_path os path t = (r, t')"
  shows "(\<forall>p. p \<noteq> path \<longrightarrow> t' p = t p) \<and> (occupied (t path) \<longrightarrow> t' = t \<and> r \<noteq> Inr ())
    \<and> (r = Inr () \<longrightarrow> t' path = None) \<and> (t' path = t path \<or> t' path = None)"
  using assms
  by (auto simp: clear_path_def remove_stale_def remove_path_def occupied_def same_node_def Let_def
    split: if_splits option.splits)

lemma owner_bits_private: "owner_only owner_bits"
  by (simp add: owner_only_def owner_bits_def)

lemma listen_quiet:
  assumes "undisturbed os" and "listen os path t = (r, t')"
  shows "(\<forall>p. p \<noteq> path \<longrightarrow> t' p = t p)
    \<and> (\<forall>g. r = Inr g \<longrightarrow> t' path = Some ((new_node os)\<lparr>nd_mode := owner_bits\<rparr>) \<and> sg_path g = path
        \<and> guards g ((new_node os)\<lparr>nd_mode := owner_bits\<rparr>))
    \<and> (\<forall>e. r = Inl e \<longrightarrow> t' path = t path \<or> some_and (\<lambda>n. \<not> nd_live n) (t' path))"
  using assms
  by (auto simp: listen_def close_listener_def new_node_def same_node_def guards_def Let_def owner_bits_private
    split: if_splits option.splits)


text \<open>A dead socket is at the path: it is replaced.\<close>

definition calm_os :: SocketOs where
  "calm_os = \<lparr>os_between = (\<lambda>_. id), os_fails = (\<lambda>_. False), os_device = 1, os_inode = 9, os_mode = 493\<rparr>"

definition run_world :: World where
  "run_world = quiet_world\<lparr>w_stat := (\<lambda>p. if p = ''/run'' then StatDir else StatMissing), w_mode := (\<lambda>_. 448)\<rparr>"

lemma run_world_directory: "ensure_private_directory run_world ''/run'' = Inr ()"
  by (simp add: ensure_private_directory_def run_world_def quiet_world_def is_absolute_def starts_with_def owner_only_def)

lemma demo_socket_path: "is_absolute ''/run/s''" "path_parent ''/run/s'' = Some ''/run''"
  by (simp_all add: is_absolute_def starts_with_def path_parent_def components_def path_of_def Let_def)

definition dead_socket :: Node where
  "dead_socket = \<lparr>nd_kind = SocketNode, nd_live = False, nd_device = 1, nd_inode = 5, nd_mode = 384\<rparr>"

lemma demo_bind:
  "bind_owner_only run_world calm_os ''/run/s'' [''/run/s'' \<mapsto> dead_socket]
    = (Inr \<lparr>sg_path = ''/run/s'', sg_device = 1, sg_inode = 9\<rparr>, [''/run/s'' \<mapsto> (new_node calm_os)\<lparr>nd_mode := 384\<rparr>])"
  by (simp add: bind_owner_only_def demo_socket_path run_world_directory clear_path_def remove_stale_def remove_path_def
      listen_def calm_os_def dead_socket_def same_node_def new_node_def owner_bits_def owner_only_def Let_def)


end
