(* ===== verification/Durable.thy ===== *)
theory Durable
  imports SocketPath
begin

text \<open>
  The durable service, \<open>durable.rs\<close>: its configuration, the connections it accepts one after the
  other, and \<open>serve_until\<close>, which takes the socket, restores the registry, runs a durable broker
  until the shutdown signal and reports in the status file what became of it.

  The looks outside of the broker's own run are two sequences of worlds, before and after it.  The
  inputs are those that the broker handles before the signal arrives; a signal that arrives in the
  middle of a handler, and cancels the rest of it, is not modelled.
\<close>

section \<open>Configuration\<close>

record DurableConfig =
  dc_socket_path :: string
  dc_registry_path :: string
  dc_status_path :: string
  dc_broker :: EmbeddedConfig

definition durable_config_new :: "Variables \<Rightarrow> string \<Rightarrow> string \<Rightarrow> DurableConfig" where
  "durable_config_new vars socket registry =
    \<lparr>dc_socket_path = socket, dc_registry_path = registry,
     dc_status_path = (case path_parent registry of
       None \<Rightarrow> ''status.json'' | Some parent \<Rightarrow> path_join parent ''status.json''),
     dc_broker = config_default vars\<rparr>"

definition with_broker_config :: "EmbeddedConfig \<Rightarrow> DurableConfig \<Rightarrow> DurableConfig" where
  "with_broker_config broker c = c\<lparr>dc_broker := broker\<rparr>"

definition with_status_path :: "string \<Rightarrow> DurableConfig \<Rightarrow> DurableConfig" where
  "with_status_path path c = c\<lparr>dc_status_path := path\<rparr>"

section \<open>Connections\<close>

text \<open>
  A connection is what the client sends and, when writing to it fails first, after how many inputs
  the reader was stopped.  The broker is told of the end in any case.
\<close>

record Connection =
  cn_reader :: reader
  cn_cut :: "nat option"

definition serve_connection :: "codec \<Rightarrow> u64 \<Rightarrow> Connection \<Rightarrow> ClientInput list" where
  "serve_connection cd g c =
    InConnected g
    # (let read = read_client cd g None (cn_reader c) in case cn_cut c of None \<Rightarrow> read | Some n \<Rightarrow> take n read)
    @ [InClosed g]"

text \<open>\<open>None\<close>: \<open>accept\<close> fails.  The task then ends, as it does when the numbers are exhausted.\<close>

fun accept_clients :: "codec \<Rightarrow> u64 \<Rightarrow> Connection option list \<Rightarrow> ClientInput list" where
  "accept_clients cd g [] = []"
| "accept_clients cd g (None # _) = []"
| "accept_clients cd g (Some c # rest) =
    (case checked_add1 g of
       None \<Rightarrow> []
     | Some g' \<Rightarrow> serve_connection cd g' c @ accept_clients cd g' rest)"

section \<open>The service\<close>

record Disk =
  dk_tree :: Tree
  dk_registry :: "string option"
  dk_status :: "string option"

record DurableEnv =
  du_broker :: BrEnv
  du_os :: SocketOs
  du_before :: "nat \<Rightarrow> World"
  du_after :: "nat \<Rightarrow> World"

text \<open>How the service ended: the result, the status it keeps, the broker if there was one, and the disk.\<close>

record ServiceEnd =
  se_result :: "DurableError + unit"
  se_status :: "StatusStore option"
  se_broker :: "Broker option"
  se_disk :: Disk

definition release :: "DurableEnv \<Rightarrow> SocketGuard \<Rightarrow> Disk \<Rightarrow> Disk" where
  "release dv g disk = disk\<lparr>dk_tree := drop_guard (du_os dv) g (dk_tree disk)\<rparr>"

definition fail_service :: "DurableEnv \<Rightarrow> SocketGuard \<Rightarrow> DurableError \<Rightarrow> StatusStore option \<Rightarrow> Disk \<Rightarrow> ServiceEnd" where
  "fail_service dv g e status disk =
    \<lparr>se_result = Inl e, se_status = status, se_broker = None, se_disk = release dv g disk\<rparr>"

definition service_codec :: "BrEnv \<Rightarrow> codec" where
  "service_codec env = \<lparr>cd_encode = be_pretty env, cd_decode = cd_decode (be_codec env)\<rparr>"

text \<open>From the moment the broker's loop is left: stop the agents, report, remove the socket.\<close>

definition stop_service ::
  "DurableEnv \<Rightarrow> SocketGuard \<Rightarrow> StatusStore \<Rightarrow> DurableError + unit \<Rightarrow> Broker \<Rightarrow> Disk \<Rightarrow> ServiceEnd" where
  "stop_service dv g status result b disk =
    (let env = du_broker dv; b1 = shutdown_agents env b; (objects, bytes) = durable_counts env b1 in
     case st_success (du_after dv 0) (be_pretty env) (unwrap_or status (b_status b1)) ''stopped'' objects bytes (b_status_file b1) of
       (r, status1, contents) \<Rightarrow>
         \<lparr>se_result = (case r of Inl e \<Rightarrow> Inl (DuStatus e) | Inr _ \<Rightarrow> result), se_status = Some status1, se_broker = Some b1,
          se_disk = release dv g (disk\<lparr>dk_registry := b_registry_file b1, dk_status := contents\<rparr>)\<rparr>)"

definition broker_result :: "Outcome \<Rightarrow> DurableError + unit" where
  "broker_result r = (case r of Finished False \<Rightarrow> Inl (DuBroker EmIo) | _ \<Rightarrow> Inr ())"

definition run_service ::
  "DurableEnv \<Rightarrow> SocketGuard \<Rightarrow> StatusStore \<Rightarrow> BrokerInput list \<Rightarrow> Broker \<Rightarrow> Disk \<Rightarrow> ServiceEnd option" where
  "run_service dv g status inputs b disk =
    (let env = du_broker dv; (objects, bytes) = durable_counts env b in
     case st_success (du_before dv 5) (be_pretty env) status ''running'' objects bytes (dk_status disk) of
       (Inl e, status1, contents) \<Rightarrow> Some (fail_service dv g (DuStatus e) (Some status1) (disk\<lparr>dk_status := contents\<rparr>))
     | (Inr _, status1, contents) \<Rightarrow>
         (case broker_run env inputs (b\<lparr>b_status := Some status1, b_status_file := contents\<rparr>) of
            None \<Rightarrow> None
          | Some (r, b1) \<Rightarrow> Some (stop_service dv g status1 (broker_result r) b1 disk)))"

definition serve_until_inner ::
  "DurableEnv \<Rightarrow> DurableConfig \<Rightarrow> BrokerInput list \<Rightarrow> StatusStore \<Rightarrow> SocketGuard \<Rightarrow> Disk \<Rightarrow> ServiceEnd option" where
  "serve_until_inner dv config inputs status g disk =
    (let env = du_broker dv; w = du_before dv in
     case rg_open (w 2) (dc_registry_path config) of
       Inl e \<Rightarrow> Some (fail_service dv g (DuRegistry e) (Some status) disk)
     | Inr registry \<Rightarrow>
         (case rg_load (w 3) (cd_decode (be_codec env)) registry of
            Inl e \<Rightarrow> Some (fail_service dv g (DuRegistry e) (Some status) disk)
          | Inr agents \<Rightarrow>
              (case rg_persist (w 4) (be_pretty env) registry agents (dk_registry disk) of
                 (Inl e, contents) \<Rightarrow>
                   Some (fail_service dv g (DuRegistry e) (Some status) (disk\<lparr>dk_registry := contents\<rparr>))
               | (Inr _, contents) \<Rightarrow>
                   (case broker_new (be_world env 0) (dc_broker config) Durable (Some registry) contents agents
                       (Some status) (dk_status disk) of
                      None \<Rightarrow> None
                    | Some b \<Rightarrow> run_service dv g status inputs b (disk\<lparr>dk_registry := contents\<rparr>)))))"

definition report_failure :: "DurableEnv \<Rightarrow> DurableConfig \<Rightarrow> DurableError \<Rightarrow> ServiceEnd \<Rightarrow> ServiceEnd" where
  "report_failure dv config e s =
    (case se_status s of
       None \<Rightarrow> s
     | Some status \<Rightarrow>
         (let w = du_after dv 1; bytes = unwrap_or 0 (w_size w (dc_registry_path config)) in
          case st_failure w (be_pretty (du_broker dv)) status (durable_error_code e) 0 bytes (dk_status (se_disk s)) of
            (_, status1, contents) \<Rightarrow> s\<lparr>se_status := Some status1, se_disk := (se_disk s)\<lparr>dk_status := contents\<rparr>\<rparr>))"

definition serve_until ::
  "DurableEnv \<Rightarrow> DurableConfig \<Rightarrow> BrokerInput list \<Rightarrow> Disk \<Rightarrow> ServiceEnd option" where
  "serve_until dv config inputs disk =
    (let w = du_before dv in
     case bind_owner_only (w 0) (du_os dv) (dc_socket_path config) (dk_tree disk) of
       (Inl e, t) \<Rightarrow>
         Some \<lparr>se_result = Inl e, se_status = None, se_broker = None, se_disk = disk\<lparr>dk_tree := t\<rparr>\<rparr>
     | (Inr g, t) \<Rightarrow>
         (case st_open (w 1) (service_codec (du_broker dv)) (dc_status_path config) (dk_status disk) of
            (Inl e, contents) \<Rightarrow>
              Some (fail_service dv g (DuStatus e) None (disk\<lparr>dk_tree := t, dk_status := contents\<rparr>))
          | (Inr status, contents) \<Rightarrow>
              (case serve_until_inner dv config inputs status g (disk\<lparr>dk_tree := t, dk_status := contents\<rparr>) of
                 None \<Rightarrow> None
               | Some s \<Rightarrow> Some (case se_result s of Inl e \<Rightarrow> report_failure dv config e s | Inr _ \<Rightarrow> s))))"

section \<open>No client ends it\<close>

lemma durable_run_continues: "broker_run env xs b = Some (r, b') \<Longrightarrow> b_mode b = Durable \<Longrightarrow> r = Continue"
proof (induction xs arbitrary: b)
  case (Cons x xs)
  obtain r1 b1 where st: "broker_step env x b = (r1, b1)"
    by (cases "broker_step env x b")
  have "r1 = Continue"
    using step_finished [of env x b _ b1] st Cons.prems(2) by (cases r1) auto
  then show ?case
    using Cons st same_mode.kept_step [OF st Cons.prems(2)] by (auto split: if_splits)
qed simp

section \<open>The end of the service\<close>

lemma bind_quiet:
  assumes "undisturbed os" and "bind_owner_only w os path t = (Inr g, t')"
  shows "\<exists>n. t' = t(path \<mapsto> n) \<and> guards g n \<and> sg_path g = path"
proof -
  obtain t1 where t1: "clear_path os path t = (Inr (), t1)" "listen os path t1 = (Inr g, t')"
    using assms(2) unfolding bind_owner_only_def
    by (auto split: if_splits option.splits sum.splits prod.splits)
  let ?n = "(new_node os)\<lparr>nd_mode := owner_bits\<rparr>"
  have "t' path = Some ?n" "guards g ?n" "sg_path g = path" "\<forall>p. p \<noteq> path \<longrightarrow> t' p = t p"
    using clear_path_quiet [OF assms(1) t1(1)] listen_quiet [OF assms(1) t1(2)] by auto
  then show ?thesis
    by (intro exI [of _ ?n]) auto
qed

lemma drop_guard_quiet:
  assumes "undisturbed os" and "\<not> os_fails os 7" and "\<not> os_fails os 8" and "guards g n" and "sg_path g = path"
  shows "drop_guard os g (t(path \<mapsto> n)) = t(path := None)"
  using assms by (auto simp: drop_guard_def remove_path_def guards_def Let_def)

lemma st_success_reports:
  "st_success w encode s state n m f = (r, s', f') \<Longrightarrow>
   sd_state (ss_document s') = state \<and> sd_last_error (ss_document s') = None
   \<and> (r = Inr () \<longrightarrow> f' = Some (encode (json_of_status (ss_document s')) @ [newline]))"
  by (auto simp: st_success_def Let_def split: prod.splits dest: st_persist_file(2))

lemma st_failure_reports:
  "st_failure w encode s e n m f = (r, s', f') \<Longrightarrow>
   sd_state (ss_document s') = ''failed'' \<and> sd_last_error (ss_document s') = Some e"
  by (auto simp: st_failure_def Let_def split: prod.splits)

text \<open>How the service may end before the failure is reported.\<close>

definition tidy :: "DurableEnv \<Rightarrow> SocketGuard \<Rightarrow> Tree \<Rightarrow> ServiceEnd \<Rightarrow> bool" where
  "tidy dv g t s =
    (dk_tree (se_disk s) = drop_guard (du_os dv) g t
     \<and> (\<forall>b. se_broker s = Some b \<longrightarrow> list_all (\<lambda>(i, a). ma_task a = False) (b_agents b))
     \<and> (\<forall>e. se_result s \<noteq> Inl (DuBroker e))
     \<and> (se_result s = Inr () \<longrightarrow> (\<exists>status. se_status s = Some status \<and> sd_state (ss_document status) = ''stopped''
         \<and> sd_last_error (ss_document status) = None
         \<and> dk_status (se_disk s) = Some (be_pretty (du_broker dv) (json_of_status (ss_document status)) @ [newline]))))"

lemma fail_service_tidy: "(\<And>e'. e \<noteq> DuBroker e') \<Longrightarrow> dk_tree disk = t \<Longrightarrow> tidy dv g t (fail_service dv g e status disk)"
  by (auto simp: tidy_def fail_service_def release_def)

lemma stop_service_tidy:
  assumes "\<And>e. result \<noteq> Inl (DuBroker e)" and "dk_tree disk = t"
  shows "tidy dv g t (stop_service dv g status result b disk)"
proof -
  have "list_all (\<lambda>(i, a). ma_task a = False) (b_agents (shutdown_agents env b))" for env
    by (simp add: shutdown_agents_def Let_def list_all_iff split_def)
  then show ?thesis
    using assms
    by (auto simp: stop_service_def tidy_def release_def Let_def split: prod.splits sum.splits dest: st_success_reports)
qed

lemma run_service_tidy:
  assumes "run_service dv g status inputs b disk = Some s" and "b_mode b = Durable" and "dk_tree disk = t"
  shows "tidy dv g t s"
proof -
  have done_: "tidy dv g t (stop_service dv g status1 (broker_result r) b1 disk)"
    if "broker_run env inputs (b\<lparr>b_status := x, b_status_file := y\<rparr>) = Some (r, b1)" for env x y r b1 status1
    using durable_run_continues [OF that] assms(2,3) by (intro stop_service_tidy) (simp_all add: broker_result_def)
  show ?thesis
    using assms(1,3) done_
    by (auto simp: run_service_def Let_def split: prod.splits sum.splits option.splits intro!: fail_service_tidy)
qed

lemma inner_tidy:
  assumes "serve_until_inner dv config inputs status g disk = Some s" and "dk_tree disk = t"
  shows "tidy dv g t s"
proof -
  have "b_mode b = Durable" if "broker_new w c Durable rg rf agents st sf = Some b" for w c rg rf agents st sf b
    using that by (auto simp: broker_new_def split: option.splits)
  then show ?thesis
    using assms
    by (auto simp: serve_until_inner_def Let_def split: prod.splits sum.splits option.splits
      intro!: fail_service_tidy intro: run_service_tidy)
qed


text \<open>A service that takes over a dead socket, finds no registry and is told to stop at once.\<close>

definition demo_service :: DurableEnv where
  "demo_service = \<lparr>du_broker = demo_env, du_os = calm_os, du_before = (\<lambda>_. run_world), du_after = (\<lambda>_. run_world)\<rparr>"

definition demo_durable :: DurableConfig where
  "demo_durable = with_broker_config demo_config (durable_config_new (\<lambda>_. None) ''/run/s'' ''/run/r'')"

definition demo_disk :: Disk where
  "demo_disk = \<lparr>dk_tree = [''/run/s'' \<mapsto> dead_socket], dk_registry = None, dk_status = None\<rparr>"

lemma demo_paths:
  "is_absolute ''/run/r''" "path_parent ''/run/r'' = Some ''/run''"
  "is_absolute ''/run/status.json''" "path_parent ''/run/status.json'' = Some ''/run''"
  "path_join ''/run'' ''status.json'' = ''/run/status.json''"
  by (simp_all add: is_absolute_def starts_with_def path_parent_def components_def path_of_def path_join_def Let_def)

lemma run_world_files:
  "ensure_status_directory run_world ''/run'' = Inr ()" "w_fails run_world = (\<lambda>_. False)"
  "validate_existing_status_file run_world ''/run/status.json'' = Inr False"
  "validate_existing_private_file run_world ''/run/r'' = Inr False"
  by (simp_all add: ensure_status_directory_def validate_existing_status_file_def validate_existing_private_file_def
      run_world_def quiet_world_def is_absolute_def starts_with_def not_world_accessible_def)

lemma save_file_sound: "w_fails w = (\<lambda>_. False) \<Longrightarrow> save_file w bytes f = (True, Some (bytes @ [newline]))"
  by (simp add: save_file_def)

lemma demo_status_saved:
  "ss_path s = ''/run/status.json'' \<Longrightarrow> st_persist run_world (\<lambda>_. []) s f = (Inr (), Some [newline])"
  by (simp add: st_persist_def MAX_STATUS_BYTES_def demo_paths run_world_files save_file_sound)

lemma demo_success:
  "ss_path s = ''/run/status.json'' \<Longrightarrow> \<exists>s'. st_success run_world (\<lambda>_. []) s state n m f = (Inr (), s', Some [newline])
    \<and> ss_path s' = ''/run/status.json''"
  by (simp add: st_success_def demo_status_saved)

lemma demo_service_end: "\<exists>s. serve_until demo_service demo_durable [] demo_disk = Some s \<and> se_result s = Inr ()"
proof -
  have pretty: "be_pretty demo_env = (\<lambda>_. [])"
    by (simp add: demo_env_def)
  have opened: "\<exists>s. st_open run_world (service_codec demo_env) ''/run/status.json'' None = (Inr s, Some [newline])
      \<and> ss_path s = ''/run/status.json''"
    by (simp add: st_open_def demo_paths run_world_files demo_status_saved service_codec_def pretty Let_def)
  have registry: "rg_open run_world ''/run/r'' = Inr \<lparr>rg_path = ''/run/r''\<rparr>"
    "rg_load run_world d \<lparr>rg_path = ''/run/r''\<rparr> = Inr []"
    "rg_persist run_world (\<lambda>_. []) \<lparr>rg_path = ''/run/r''\<rparr> [] None = (Inr (), Some [newline])" for d
    by (simp_all add: rg_open_def rg_load_def rg_persist_def demo_paths run_world_directory run_world_files save_file_sound
        MAX_REGISTRY_BYTES_def)
  have run: "\<exists>s. run_service demo_service g status [] b disk = Some s \<and> se_result s = Inr ()"
    if path: "ss_path status = ''/run/status.json''" for g status b disk
  proof -
    obtain n m where nm: "durable_counts demo_env b = (n, m)"
      by (cases "durable_counts demo_env b")
    obtain s1 where s1: "st_success run_world (\<lambda>_. []) status ''running'' n m (dk_status disk) = (Inr (), s1, Some [newline])"
      "ss_path s1 = ''/run/status.json''"
      using demo_success [OF path] by blast
    let ?b = "shutdown_agents demo_env (b\<lparr>b_status := Some s1, b_status_file := Some [newline]\<rparr>)"
    have "b_status ?b = Some s1"
    proof -
      have "b_status (shutdown_all demo_env is x) = b_status x" for "is" x
        by (induction "is" arbitrary: x)
          (simp_all add: send_command_def tick_def accept_command_def upd_agent_def)
      then show ?thesis
        by (simp add: shutdown_agents_def Let_def)
    qed
    moreover obtain k l where "durable_counts demo_env ?b = (k, l)"
      by (cases "durable_counts demo_env ?b")
    moreover obtain s2 where "st_success run_world (\<lambda>_. []) s1 ''stopped'' k l (b_status_file ?b) = (Inr (), s2, Some [newline])"
      using demo_success [OF s1(2)] by blast
    ultimately show ?thesis
      by (simp add: run_service_def stop_service_def demo_service_def pretty nm s1 broker_result_def Let_def)
  qed
  obtain st where st: "st_open run_world (service_codec demo_env) ''/run/status.json'' None = (Inr st, Some [newline])"
    "ss_path st = ''/run/status.json''"
    using opened by blast
  obtain b where "broker_new (be_world demo_env 0) demo_config Durable (Some \<lparr>rg_path = ''/run/r''\<rparr>) (Some [newline]) []
      (Some st) (Some [newline]) = Some b"
    by (simp add: broker_new_def rb_new_def demo_config_def)
  moreover obtain s where "run_service demo_service \<lparr>sg_path = ''/run/s'', sg_device = 1, sg_inode = 9\<rparr> st [] b
      \<lparr>dk_tree = [''/run/s'' \<mapsto> (new_node calm_os)\<lparr>nd_mode := 384\<rparr>], dk_registry = Some [newline], dk_status = Some [newline]\<rparr>
      = Some s" "se_result s = Inr ()"
    using run [OF st(2)] by blast
  ultimately show ?thesis
    by (simp add: serve_until_def serve_until_inner_def demo_durable_def durable_config_new_def with_broker_config_def
        demo_disk_def demo_paths demo_service_def pretty registry st demo_bind Let_def)
qed


section \<open>Connections do not overlap\<close>

text \<open>Between two connections the broker has no client and owes nobody an answer.\<close>

definition idle :: "Broker \<Rightarrow> bool" where
  "idle b = (b_output b = None \<and> b_phase b = AwaitInitialize \<and> b_pending b = [] \<and> b_mode b = Durable)"

text \<open>All waiting requests were made on connection \<open>g\<close>, which is the current one.\<close>

definition own_requests :: "u64 \<Rightarrow> Broker \<Rightarrow> bool" where
  "own_requests g b = (b_generation b = g \<and> b_mode b = Durable \<and> list_all (\<lambda>(k, h, i). h = g) (tickets b))"

lemma tickets_Nil [simp]: "tickets b = [] \<longleftrightarrow> b_pending b = []"
  by (simp add: tickets_def)

lemma own_requests_move:
  assumes "own_requests g b \<or> g < b_generation b" and "move env b b'"
  shows "own_requests g b' \<or> g < b_generation b'"
proof -
  have more: "tickets (send_events es x) = tickets x" for es x
    by (induction es x rule: send_events.induct) (simp_all add: send_event_def)
  then have "tickets (open_session b) = tickets b"
    by (simp add: open_session_def Let_def split: ReplayResult.split) (simp add: tickets_def)
  with assms(2,1) show ?thesis
    by (cases rule: move.cases)
      (auto simp: own_requests_def runtime_request_def forget_request_def take_over_def hang_up_def greet_def link_def Let_def
        list_all_iff split: option.splits dest!: bstep_link,
       auto simp: tickets_def map_insert_def map_remove_def intro: less_trans)
qed

interpretation own: kept env "\<lambda>b. own_requests g b \<or> g < b_generation b" for env g
  by unfold_locales (rule own_requests_move)

lemma own_requests_step:
  assumes "broker_step env x b = (r, b')" and "own_requests g b" and "\<not> b_panicked b'" and "\<And>h. x \<noteq> FromClient (InConnected h)"
  shows "own_requests g b'"
  using own.kept_step [OF assms(1) disjI1 [OF assms(2)] assms(3)] step_generation [OF assms(1,4)] assms(2)
  by (auto simp: own_requests_def)

lemma own_requests_run:
  "broker_run env xs b = Some (r, b') \<Longrightarrow> own_requests g b \<Longrightarrow> \<forall>c\<in>set (clients xs). \<forall>h. c \<noteq> InConnected h \<Longrightarrow>
   own_requests g b'"
proof (induction xs arbitrary: b)
  case (Cons x xs)
  obtain r1 b1 where st: "broker_step env x b = (r1, b1)"
    by (cases "broker_step env x b")
  have "x \<noteq> FromClient (InConnected h)" for h
    using Cons.prems(3) by auto
  with Cons st own_requests_step [OF st Cons.prems(2)] show ?case
    by (cases x) (auto split: if_splits Outcome.splits)
qed simp

lemma reported_idle: "reported env b b' \<Longrightarrow> idle b \<Longrightarrow> idle b'"
proof (induction rule: reported.cases)
  case (settled b0 b1 response k b2)
  have "b_pending b1 = []"
    using silently_link [of env b0 b1] settled tickets_Nil [of b1] tickets_Nil [of b0] by (simp add: idle_def del: tickets_Nil)
  then have "send_runtime_response k response b1 = b1"
    by (simp add: send_runtime_response_def)
  then show ?case
    using settled silently_link [of env b0 b1] silently_link [of env b1 b2] tickets_Nil [of b2] tickets_Nil [of b0]
    by (simp add: idle_def link_def del: tickets_Nil)
next
  case (nothing b0 b1)
  then show ?case
    using silently_link [of env b0 b1] tickets_Nil [of b1] tickets_Nil [of b0]
    by (simp add: idle_def link_def del: tickets_Nil)
qed

lemma idle_run:
  "broker_run env xs b = Some (r, b') \<Longrightarrow> clients xs = [] \<Longrightarrow> idle b \<Longrightarrow> idle b' \<and> b_generation b' = b_generation b"
proof (induction xs arbitrary: b)
  case (Cons x xs)
  then obtain e where x: "x = FromRuntime e"
    by (cases x) auto
  then show ?case
    using Cons reported_idle [OF reported_runtime_event [of env b e]] reported_link [OF reported_runtime_event [of env b e]]
    by (auto simp: link_def split: if_splits)
qed simp

lemma clients_split:
  "clients xs = ys @ c # zs \<Longrightarrow> \<exists>xs1 xs2. xs = xs1 @ FromClient c # xs2 \<and> clients xs1 = ys \<and> clients xs2 = zs"
proof (induction xs arbitrary: ys)
  case (Cons x xs)
  have skip: "\<exists>xs1 xs2. x # xs = xs1 @ FromClient c # xs2 \<and> clients xs1 = clients [x] @ ys' \<and> clients xs2 = zs"
    if "clients xs = ys' @ c # zs" for ys'
  proof -
    obtain xs1 xs2 where "xs = xs1 @ FromClient c # xs2" "clients xs1 = ys'" "clients xs2 = zs"
      using Cons.IH [OF \<open>clients xs = ys' @ c # zs\<close>] by blast
    then show ?thesis
      by (intro exI [of _ "x # xs1"] exI [of _ xs2]) (cases x; simp)
  qed
  show ?case
  proof (cases x)
    case (FromRuntime e)
    then show ?thesis
      using skip [of ys] Cons.prems by simp
  next
    case (FromClient d)
    then show ?thesis
      using skip [of "tl ys"] Cons.prems by (cases ys) (auto intro: exI [of _ "[]"])
  qed
qed simp

lemma connection_inputs:
  "\<exists>ys. serve_connection cd g c = InConnected g # ys @ [InClosed g] \<and> (\<forall>x\<in>set ys. \<forall>h. x \<noteq> InConnected h)"
proof -
  obtain xs x where x: "read_client cd g None (cn_reader c) = xs @ [x]" "list_all carries xs" "ends_connection x"
    using read_client_shape by metis
  have "y \<noteq> InConnected h" if "y \<in> set (read_client cd g None (cn_reader c))" for y h
    using that x by (auto simp: list_all_iff carries_def ends_connection_def)
  then show ?thesis
    by (intro exI [of _ "case cn_cut c of None \<Rightarrow> read_client cd g None (cn_reader c)
        | Some n \<Rightarrow> take n (read_client cd g None (cn_reader c))"])
      (auto simp: serve_connection_def Let_def dest: in_set_takeD split: option.splits)
qed

text \<open>The end of a connection leaves the broker idle.\<close>

lemma closing_idle:
  assumes "own_requests g b" and "broker_step env (FromClient (InClosed g)) b = (r, b')"
  shows "idle b' \<and> b_generation b' = g"
proof -
  have b': "b' = broker_disconnect env g b"
    using assms by (auto simp: own_requests_def input_generation_def handle_current_def)
  have "tickets (hang_up g b) = []"
    using assms(1) by (auto simp: own_requests_def hang_up_def tickets_def list_all_iff filter_empty_conv)
  then have "tickets b' = []"
    using silently_link [OF silently_disconnect_agents, of env _ "hang_up g b"] assms(1)
    by (simp add: b' broker_disconnect_def Let_def own_requests_def del: tickets_Nil)
  then show ?thesis
    using disconnect_link [of env g b] assms(1) by (simp add: idle_def b' own_requests_def link_def)
qed

lemma connection_run:
  assumes "broker_run env xs b = Some (r, b')" and "idle b" and "b_generation b < g"
    and "clients xs = serve_connection cd g c"
  shows "idle b' \<and> b_generation b' = g"
proof -
  obtain ys where ys: "serve_connection cd g c = InConnected g # ys @ [InClosed g]" "\<forall>x\<in>set ys. \<forall>h. x \<noteq> InConnected h"
    using connection_inputs by blast
  obtain xs1 xs2 where x1: "xs = xs1 @ FromClient (InConnected g) # xs2" "clients xs1 = []" "clients xs2 = ys @ [InClosed g]"
    using clients_split [of xs "[]" "InConnected g" "ys @ [InClosed g]"] assms(4) ys(1) by auto
  obtain xs3 xs4 where x3: "xs2 = xs3 @ FromClient (InClosed g) # xs4" "clients xs3 = ys" "clients xs4 = []"
    using clients_split [OF x1(3)] by blast
  have durable: "b_mode b = Durable"
    using assms(2) by (simp add: idle_def)
  obtain r1 b1 where r1: "broker_run env xs1 b = Some (r1, b1)"
    using assms(1) by (auto simp: x1(1) run_append split: option.splits)
  have b1: "r1 = Continue" "idle b1" "b_generation b1 = b_generation b"
    using durable_run_continues [OF r1 durable] idle_run [OF r1 x1(2) assms(2)] by simp_all
  let ?b2 = "take_over g b1"
  have own: "own_requests g ?b2"
    using b1(2) by (simp add: own_requests_def take_over_def idle_def tickets_def)
  have run2: "broker_run env xs2 ?b2 = Some (r, b')"
    using assms(1,3) r1 b1 by (simp add: x1(1) run_append broker_connect_def split: if_splits)
  obtain r3 b3 where r3: "broker_run env xs3 ?b2 = Some (r3, b3)"
    using run2 by (auto simp: x3(1) run_append split: option.splits)
  have b3: "r3 = Continue" "own_requests g b3"
    using durable_run_continues [OF r3] own_requests_run [OF r3 own] own x3(2) ys(2) by (simp_all add: own_requests_def)
  obtain r4 b4 where r4: "broker_step env (FromClient (InClosed g)) b3 = (r4, b4)"
    by (cases "broker_step env (FromClient (InClosed g)) b3")
  have b4: "idle b4" "b_generation b4 = g"
    using closing_idle [OF b3(2) r4] by simp_all
  have "r4 = Continue"
    using step_finished [of env "FromClient (InClosed g)" b3 _ b4] r4 b3(2)
    by (cases r4) (simp_all add: own_requests_def del: broker_step.simps)
  then have "broker_run env xs4 b4 = Some (r, b')"
    using run2 r3 b3(1) r4 by (simp add: x3(1) run_append split: if_splits)
  then show ?thesis
    using idle_run [OF _ x3(3) b4(1)] b4(2) by simp
qed

lemma clients_append_split:
  "clients xs = ys @ zs \<Longrightarrow> \<exists>xs1 xs2. xs = xs1 @ xs2 \<and> clients xs1 = ys \<and> clients xs2 = zs"
proof (cases zs)
  case (Cons c zs')
  assume "clients xs = ys @ zs"
  then obtain xs1 xs2 where "xs = xs1 @ FromClient c # xs2" "clients xs1 = ys" "clients xs2 = zs'"
    using clients_split [of xs ys c zs'] Cons by auto
  then show ?thesis
    using Cons by (intro exI [of _ xs1] exI [of _ "FromClient c # xs2"]) simp
qed (intro exI [of _ xs] exI [of _ "[]"], simp)

text \<open>
  C12.  Connections to the durable broker never overlap, and none of them can end the broker.
  Whatever the clients of any number of successive connections send, however each connection breaks,
  and whatever the agents report in between: the broker's loop goes on, and after the last
  connection no client is attached, the handshake starts from the beginning and no request of any of
  these connections is still waiting for its answer.  Since this holds after every connection, each
  one finds the broker as the first one did.
\<close>

theorem connections_isolated:
  assumes "b_mode b = Durable" and "b_output b = None" and "b_phase b = AwaitInitialize" and "b_pending b = []"
    and "clients xs = accept_clients cd (b_generation b) connections"
    and "broker_run env xs b = Some (r, b')"
  shows "r = Continue \<and> b_output b' = None \<and> b_phase b' = AwaitInitialize \<and> b_pending b' = []"
proof -
  have "idle b"
    using assms(1-4) by (simp add: idle_def)
  then have "idle b'"
    using assms(5,6)
  proof (induction connections arbitrary: xs b)
    case Nil
    then show ?case
      using idle_run [of env xs b] by simp
  next
    case (Cons conn connections)
    show ?case
    proof (cases "conn = None \<or> checked_add1 (b_generation b) = None")
      case True
      then have "clients xs = []"
        using Cons.prems(2) by (cases conn) auto
      then show ?thesis
        using idle_run [of env xs b] Cons.prems by simp
    next
      case False
      then obtain c g where c: "conn = Some c" "checked_add1 (b_generation b) = Some g"
        by auto
      then have "clients xs = serve_connection cd g c @ accept_clients cd g connections"
        using Cons.prems(2) by simp
      then obtain xs1 xs2 where x: "xs = xs1 @ xs2" "clients xs1 = serve_connection cd g c"
        "clients xs2 = accept_clients cd g connections"
        using clients_append_split by blast
      obtain r1 b1 where r1: "broker_run env xs1 b = Some (r1, b1)"
        using Cons.prems(3) by (auto simp: x(1) run_append split: option.splits)
      have less: "b_generation b < g"
        using checked_add1_Some [OF c(2)] unfolding word_less_nat_alt by linarith
      have "idle b1" "b_generation b1 = g" "r1 = Continue"
        using connection_run [OF r1 Cons.prems(1) less x(2)] durable_run_continues [OF r1] Cons.prems(1)
        by (simp_all add: idle_def)
      then show ?thesis
        using Cons.IH [of b1 xs2] x(3) Cons.prems(3) r1 by (simp add: x(1) run_append)
    qed
  qed
  then show ?thesis
    using durable_run_continues [OF assms(6,1)] by (simp add: idle_def)
qed

text \<open>Two clients, one after the other; the first sends a line that is no JSON and stops reading.\<close>

definition demo_connections :: "Connection option list" where
  "demo_connections =
    [Some \<lparr>cn_reader = [Some (''x'' @ [newline])], cn_cut = Some 1\<rparr>, Some \<lparr>cn_reader = [], cn_cut = None\<rparr>]"

lemma demo_connections_inputs:
  "accept_clients (be_codec demo_env) 0 demo_connections
    = [InConnected 1, InParseError 1, InClosed 1, InConnected 2, InClosed 2, InClosed 2]"
proof -
  have one: "read_client (be_codec demo_env) 1 None [Some (''x'' @ [newline])] = [InParseError 1, InClosed 1]"
    by (subst read_client.simps, subst read_client.simps)
      (simp add: read_bounded_line_def MAX_PUBLIC_FRAME_BYTES_def client_input_def demo_env_def taken_def)
  have two: "read_client (be_codec demo_env) 2 None [] = [InClosed 2]"
    by (subst read_client.simps) (simp add: read_bounded_line_def taken_def)
  show ?thesis
    using one two by (simp add: demo_connections_def serve_connection_def checked_add1_def u64_max_def)
qed

theorem connections_isolated_witness:
  "\<exists>b'. broker_run demo_env (map FromClient [InConnected 1, InParseError 1, InClosed 1, InConnected 2, InClosed 2, InClosed 2])
      demo_broker = Some (Continue, b') \<and> b_output b' = None \<and> b_phase b' = AwaitInitialize \<and> b_pending b' = []"
proof -
  let ?xs = "map FromClient [InConnected 1, InParseError 1, InClosed 1, InConnected 2, InClosed 2, InClosed 2]"
  have start: "b_mode demo_broker = Durable" "b_output demo_broker = None" "b_phase demo_broker = AwaitInitialize"
    "b_pending demo_broker = []"
    "clients ?xs = accept_clients (be_codec demo_env) (b_generation demo_broker) demo_connections"
    by (simp_all add: demo_broker_def demo_connections_inputs)
  have "broker_run demo_env ?xs demo_broker \<noteq> None"
    by (simp add: demo_broker_def broker_connect_def take_over_def broker_disconnect_def hang_up_def input_generation_def
        handle_current_def Let_def send_def)
  then obtain r b' where run: "broker_run demo_env ?xs demo_broker = Some (r, b')"
    by auto
  with connections_isolated [OF start run] show ?thesis
    by auto
qed

end
