(* ===== verification/Options.thy ===== *)
theory Options
  imports Durable
begin

text \<open>
  The command line of the broker, \<open>main.rs\<close>: the dispatch on the command, the option loops of
  \<open>serve\<close> and \<open>serve-durable\<close>, and the paths they fall back to.

  The arguments are a list of strings; the loops walk it with an index, as the code does.  An error
  is the message of \<open>invalid_input\<close> or what the parser of the setting sources reports.
\<close>

datatype CliError = InvalidInput string | BadSources setting_error | CodexFailed CodexError | SequenceOverflow

definition argument :: "string list \<Rightarrow> nat \<Rightarrow> string option" where
  "argument args i = (if i < length args then Some (args ! i) else None)"

definition absolute_option :: "string list \<Rightarrow> nat \<Rightarrow> string \<Rightarrow> CliError + string" where
  "absolute_option args index option =
    (case argument args (index + 1) of
       None \<Rightarrow> Inl (InvalidInput (option @ '' requires an absolute path''))
     | Some path \<Rightarrow>
         if is_absolute path then Inr path else Inl (InvalidInput (option @ '' requires an absolute path'')))"

definition setting_sources_option :: "string list \<Rightarrow> nat \<Rightarrow> CliError + string list" where
  "setting_sources_option args index =
    (case argument args (index + 1) of
       None \<Rightarrow> Inl (InvalidInput ''--claude-setting-sources requires a comma-separated list'')
     | Some raw \<Rightarrow> (case parse_setting_sources raw of Inl e \<Rightarrow> Inl (BadSources e) | Inr sources \<Rightarrow> Inr sources))"

fun option_value :: "string list \<Rightarrow> string \<Rightarrow> string option" where
  "option_value (a # b # rest) option = (if a = option then Some b else option_value (b # rest) option)"
| "option_value _ option = None"

definition parse_cwd :: "string list \<Rightarrow> CliError + string" where
  "parse_cwd args =
    (case option_value args ''--cwd'' of None \<Rightarrow> Inl (InvalidInput ''command requires --cwd'') | Some cwd \<Rightarrow> Inr cwd)"

section \<open>The option loops\<close>

record DurableOptions =
  do_broker :: EmbeddedConfig
  do_socket :: "string option"
  do_registry :: "string option"
  do_status :: "string option"

function durable_options :: "string list \<Rightarrow> nat \<Rightarrow> DurableOptions \<Rightarrow> CliError + DurableOptions" where
  "durable_options args index s =
    (if index < length args then
       (let option = args ! index in
        if option = ''--socket'' then
          (case absolute_option args index option of
             Inl e \<Rightarrow> Inl e | Inr path \<Rightarrow> durable_options args (index + 2) (s\<lparr>do_socket := Some path\<rparr>))
        else if option = ''--registry'' then
          (case absolute_option args index option of
             Inl e \<Rightarrow> Inl e | Inr path \<Rightarrow> durable_options args (index + 2) (s\<lparr>do_registry := Some path\<rparr>))
        else if option = ''--status'' then
          (case absolute_option args index option of
             Inl e \<Rightarrow> Inl e | Inr path \<Rightarrow> durable_options args (index + 2) (s\<lparr>do_status := Some path\<rparr>))
        else if option = ''--claude-python'' then
          (case absolute_option args index option of
             Inl e \<Rightarrow> Inl e
           | Inr python \<Rightarrow> durable_options args (index + 2) (s\<lparr>do_broker := with_claude_python python (do_broker s)\<rparr>))
        else if option = ''--claude-setting-sources'' then
          (case setting_sources_option args index of
             Inl e \<Rightarrow> Inl e
           | Inr sources \<Rightarrow>
               durable_options args (index + 2) (s\<lparr>do_broker := with_claude_setting_sources sources (do_broker s)\<rparr>))
        else if option = ''--codex-bin'' then
          (case absolute_option args index option of
             Inl e \<Rightarrow> Inl e
           | Inr program \<Rightarrow> durable_options args (index + 2) (s\<lparr>do_broker := with_codex_program program (do_broker s)\<rparr>))
        else if option = ''--workspace-lifecycle'' then
          (case absolute_option args index option of
             Inl e \<Rightarrow> Inl e
           | Inr program \<Rightarrow> durable_options args (index + 2) (s\<lparr>do_broker := with_workspace_lifecycle program (do_broker s)\<rparr>))
        else if option = ''--disable-workspace-lifecycle'' then
          durable_options args (index + 1) (s\<lparr>do_broker := without_workspace_lifecycle (do_broker s)\<rparr>)
        else if option = ''--deny-shared-workspaces'' then
          durable_options args (index + 1) (s\<lparr>do_broker := with_shared_workspaces False (do_broker s)\<rparr>)
        else Inl (InvalidInput (''unknown serve-durable option: '' @ option)))
     else Inr s)"
  by pat_completeness auto
termination
  by (relation "measure (\<lambda>(args, index, s). length args - index)") auto

declare durable_options.simps [simp del]

function serve_options :: "string list \<Rightarrow> nat \<Rightarrow> EmbeddedConfig \<Rightarrow> CliError + EmbeddedConfig" where
  "serve_options args index c =
    (if index < length args then
       (let option = args ! index in
        if option = ''--claude-python'' then
          (case absolute_option args index option of
             Inl e \<Rightarrow> Inl e | Inr python \<Rightarrow> serve_options args (index + 2) (with_claude_python python c))
        else if option = ''--claude-setting-sources'' then
          (case setting_sources_option args index of
             Inl e \<Rightarrow> Inl e | Inr sources \<Rightarrow> serve_options args (index + 2) (with_claude_setting_sources sources c))
        else if option = ''--codex-bin'' then
          (case absolute_option args index option of
             Inl e \<Rightarrow> Inl e | Inr program \<Rightarrow> serve_options args (index + 2) (with_codex_program program c))
        else if option = ''--workspace-lifecycle'' then
          (case absolute_option args index option of
             Inl e \<Rightarrow> Inl e | Inr program \<Rightarrow> serve_options args (index + 2) (with_workspace_lifecycle program c))
        else if option = ''--disable-workspace-lifecycle'' then serve_options args (index + 1) (without_workspace_lifecycle c)
        else if option = ''--deny-shared-workspaces'' then serve_options args (index + 1) (with_shared_workspaces False c)
        else Inl (InvalidInput (''unknown serve option: '' @ option)))
     else Inr c)"
  by pat_completeness auto
termination
  by (relation "measure (\<lambda>(args, index, c). length args - index)") auto

declare serve_options.simps [simp del]

section \<open>Paths of their own\<close>

definition default_socket_path :: "Variables \<Rightarrow> CliError + string" where
  "default_socket_path vars =
    (case filter_opt is_absolute (vars ''XDG_RUNTIME_DIR'') of
       None \<Rightarrow> Inl (InvalidInput ''durable mode requires an absolute XDG_RUNTIME_DIR or an explicit --socket path'')
     | Some runtime \<Rightarrow> Inr (path_join (path_join runtime ''agent-manager'') ''broker.sock''))"

definition default_registry_path :: "Variables \<Rightarrow> CliError + string" where
  "default_registry_path vars =
    (let state_root = (case vars ''XDG_STATE_HOME'' of
         Some path \<Rightarrow> if is_absolute path then Inr path else Inl (InvalidInput ''XDG_STATE_HOME must be absolute'')
       | None \<Rightarrow>
           (case filter_opt is_absolute (vars ''HOME'') of
              None \<Rightarrow> Inl (InvalidInput ''durable mode could not resolve an absolute state path'')
            | Some home \<Rightarrow> Inr (path_join (path_join home ''.local'') ''state''))) in
     case state_root of
       Inl e \<Rightarrow> Inl e
     | Inr root \<Rightarrow> Inr (path_join (path_join root ''agent-manager'') ''registry.json''))"

definition or_default :: "string option \<Rightarrow> CliError + string \<Rightarrow> CliError + string" where
  "or_default path fallback = (case path of None \<Rightarrow> fallback | Some p \<Rightarrow> Inr p)"

definition serve_durable :: "Variables \<Rightarrow> string list \<Rightarrow> CliError + DurableConfig" where
  "serve_durable vars args =
    (case durable_options args 0 \<lparr>do_broker = config_default vars, do_socket = None, do_registry = None, do_status = None\<rparr> of
       Inl e \<Rightarrow> Inl e
     | Inr s \<Rightarrow>
         (case or_default (do_socket s) (default_socket_path vars) of
            Inl e \<Rightarrow> Inl e
          | Inr socket \<Rightarrow>
              (case or_default (do_registry s) (default_registry_path vars) of
                 Inl e \<Rightarrow> Inl e
               | Inr registry \<Rightarrow>
                   (let config = with_broker_config (do_broker s) (durable_config_new vars socket registry) in
                    Inr (case do_status s of None \<Rightarrow> config | Some status \<Rightarrow> with_status_path status config)))))"

definition serve_embedded :: "Variables \<Rightarrow> string list \<Rightarrow> CliError + EmbeddedConfig" where
  "serve_embedded vars args = serve_options args 0 (config_default vars)"

section \<open>The dispatch\<close>

datatype Command =
    ShowHelp | ContractInfo | Serve EmbeddedConfig | ServeDurable DurableConfig | CodexProbe string | CodexTrace "string list"

definition run_command :: "Variables \<Rightarrow> string list \<Rightarrow> CliError + Command" where
  "run_command vars args =
    (case args of
       [] \<Rightarrow> Inr ShowHelp
     | command # rest \<Rightarrow>
         if command = ''help'' \<or> command = ''--help'' \<or> command = ''-h'' then Inr ShowHelp
         else if command = ''contract-info'' then Inr ContractInfo
         else if command = ''serve'' then map_sum id Serve (serve_embedded vars rest)
         else if command = ''serve-durable'' then map_sum id ServeDurable (serve_durable vars rest)
         else if command = ''codex-probe'' then map_sum id CodexProbe (parse_cwd rest)
         else if command = ''codex-trace'' then Inr (CodexTrace rest)
         else Inl (InvalidInput (''unknown command: '' @ command)))"

definition contract_info :: json where
  "contract_info = jobj [
     (''broker_version'', JString BROKER_VERSION),
     (''broker_protocol_version'', ju32 PROTOCOL_VERSION),
     (''broker_protocol_revision'', ju32 PROTOCOL_REVISION),
     (''codex_compatibility_profile'', JString CODEX_COMPATIBILITY_PROFILE),
     (''codex_schema_baseline_version'', JString CODEX_SCHEMA_BASELINE_VERSION),
     (''claude_worker_protocol_version'', ju32 WORKER_PROTOCOL_VERSION),
     (''claude_compatibility_profile'', JString CLAUDE_COMPATIBILITY_PROFILE),
     (''tested_claude_agent_sdk_version'', JString TESTED_CLAUDE_SDK_VERSION),
     (''tested_claude_code_version'', JString TESTED_CLAUDE_CODE_VERSION)]"

section \<open>The grammar of the options\<close>

datatype Option =
    OptSocket string | OptRegistry string | OptStatus string | OptPython string | OptSources string | OptCodex string
  | OptLifecycle string | OptNoLifecycle | OptDenyShared

fun words :: "Option \<Rightarrow> string list" where
  "words (OptSocket p) = [''--socket'', p]"
| "words (OptRegistry p) = [''--registry'', p]"
| "words (OptStatus p) = [''--status'', p]"
| "words (OptPython p) = [''--claude-python'', p]"
| "words (OptSources raw) = [''--claude-setting-sources'', raw]"
| "words (OptCodex p) = [''--codex-bin'', p]"
| "words (OptLifecycle p) = [''--workspace-lifecycle'', p]"
| "words OptNoLifecycle = [''--disable-workspace-lifecycle'']"
| "words OptDenyShared = [''--deny-shared-workspaces'']"

fun well_formed :: "Option \<Rightarrow> bool" where
  "well_formed (OptSocket p) = is_absolute p"
| "well_formed (OptRegistry p) = is_absolute p"
| "well_formed (OptStatus p) = is_absolute p"
| "well_formed (OptPython p) = is_absolute p"
| "well_formed (OptSources raw) = is_ok (parse_setting_sources raw)"
| "well_formed (OptCodex p) = is_absolute p"
| "well_formed (OptLifecycle p) = is_absolute p"
| "well_formed OptNoLifecycle = True"
| "well_formed OptDenyShared = True"

fun for_service :: "Option \<Rightarrow> bool" where
  "for_service (OptSocket p) = True"
| "for_service (OptRegistry p) = True"
| "for_service (OptStatus p) = True"
| "for_service _ = False"

fun set_broker :: "Option \<Rightarrow> EmbeddedConfig \<Rightarrow> EmbeddedConfig" where
  "set_broker (OptPython p) c = with_claude_python p c"
| "set_broker (OptSources raw) c =
    (case parse_setting_sources raw of Inl e \<Rightarrow> c | Inr sources \<Rightarrow> with_claude_setting_sources sources c)"
| "set_broker (OptCodex p) c = with_codex_program p c"
| "set_broker (OptLifecycle p) c = with_workspace_lifecycle p c"
| "set_broker OptNoLifecycle c = without_workspace_lifecycle c"
| "set_broker OptDenyShared c = with_shared_workspaces False c"
| "set_broker _ c = c"

fun set_option :: "Option \<Rightarrow> DurableOptions \<Rightarrow> DurableOptions" where
  "set_option (OptSocket p) s = s\<lparr>do_socket := Some p\<rparr>"
| "set_option (OptRegistry p) s = s\<lparr>do_registry := Some p\<rparr>"
| "set_option (OptStatus p) s = s\<lparr>do_status := Some p\<rparr>"
| "set_option opt s = s\<lparr>do_broker := set_broker opt (do_broker s)\<rparr>"

definition command_line :: "Option list \<Rightarrow> string list" where
  "command_line opts = concat (map words opts)"

lemma command_line_simps [simp]:
  "command_line [] = []" "command_line (opt # opts) = words opt @ command_line opts"
  by (simp_all add: command_line_def)

section \<open>One round of a loop\<close>

text \<open>The option at an index and the index after it; what both loops do before they differ.\<close>

definition with_path :: "string list \<Rightarrow> nat \<Rightarrow> (string \<Rightarrow> Option) \<Rightarrow> CliError + Option \<times> nat" where
  "with_path args i mk =
    (case absolute_option args i (args ! i) of Inl e \<Rightarrow> Inl e | Inr path \<Rightarrow> Inr (mk path, i + 2))"

definition option_at :: "string list \<Rightarrow> nat \<Rightarrow> CliError + Option \<times> nat" where
  "option_at args i =
    (let option = args ! i in
     if option = ''--socket'' then with_path args i OptSocket
     else if option = ''--registry'' then with_path args i OptRegistry
     else if option = ''--status'' then with_path args i OptStatus
     else if option = ''--claude-python'' then with_path args i OptPython
     else if option = ''--claude-setting-sources'' then
       (case argument args (i + 1) of
          None \<Rightarrow> Inl (InvalidInput ''--claude-setting-sources requires a comma-separated list'')
        | Some raw \<Rightarrow> (case parse_setting_sources raw of Inl e \<Rightarrow> Inl (BadSources e) | Inr _ \<Rightarrow> Inr (OptSources raw, i + 2)))
     else if option = ''--codex-bin'' then with_path args i OptCodex
     else if option = ''--workspace-lifecycle'' then with_path args i OptLifecycle
     else if option = ''--disable-workspace-lifecycle'' then Inr (OptNoLifecycle, i + 1)
     else if option = ''--deny-shared-workspaces'' then Inr (OptDenyShared, i + 1)
     else Inl (InvalidInput (''unknown option: '' @ option)))"

lemma argument_Some: "argument args (Suc i) = Some v \<Longrightarrow> drop i args = [args ! i, v] @ drop (i + 2) args"
  by (auto simp: argument_def Cons_nth_drop_Suc split: if_splits)

lemma argument_append: "drop i args = a # v # rest \<Longrightarrow> args ! i = a \<and> argument args (Suc i) = Some v"
proof -
  assume d: "drop i args = a # v # rest"
  have len: "Suc i < length args"
    using arg_cong [OF d, of length] by simp
  then have "drop i args = args ! i # args ! Suc i # drop (Suc (Suc i)) args"
    by (simp add: Cons_nth_drop_Suc)
  with d len show ?thesis
    by (simp add: argument_def)
qed

lemma with_path_Inr:
  "with_path args i mk = Inr (opt, j) \<longleftrightarrow>
     (\<exists>path. argument args (Suc i) = Some path \<and> is_absolute path \<and> opt = mk path \<and> j = i + 2)"
  by (auto simp: with_path_def absolute_option_def split: option.splits)

lemma option_at_sound:
  assumes "i < length args" and "option_at args i = Inr (opt, j)"
  shows "well_formed opt \<and> drop i args = words opt @ drop j args \<and> i < j"
proof -
  have one: "drop i args = args ! i # drop (Suc i) args"
    using assms(1) by (simp add: Cons_nth_drop_Suc)
  have "(\<exists>v. argument args (Suc i) = Some v \<and> words opt = [args ! i, v] \<and> j = i + 2 \<and> well_formed opt)
      \<or> (words opt = [args ! i] \<and> j = i + 1 \<and> well_formed opt)"
    using assms(2) unfolding option_at_def Let_def
    by (auto simp: with_path_Inr split: if_splits option.splits sum.splits)
  then show ?thesis
    using one argument_Some [of args i] by auto
qed

lemma option_at_complete:
  assumes "well_formed opt" and "drop i args = words opt @ rest"
  shows "option_at args i = Inr (opt, i + length (words opt))"
proof (cases "\<exists>a v. words opt = [a, v]")
  case True
  then obtain a v where w: "words opt = [a, v]" by blast
  with assms(2) argument_append [of i args a v rest] have "args ! i = a" "argument args (Suc i) = Some v"
    by simp_all
  with w assms(1) show ?thesis
    by (cases opt) (auto simp: option_at_def with_path_def absolute_option_def is_ok_def split: sum.splits)
next
  case False
  then obtain a where w: "words opt = [a]" "opt = OptNoLifecycle \<or> opt = OptDenyShared"
    by (cases opt) auto
  have "args ! i = a"
    using assms(2) w(1) by (metis append_Cons hd_drop_conv_nth drop_eq_Nil leI list.sel(1) not_Cons_self2 append_Nil list.distinct(1))
  with w show ?thesis
    by (auto simp: option_at_def)
qed

section \<open>What the loops accept\<close>

text \<open>A loop that reads the options one after the other and applies those it knows.\<close>

locale option_loop =
  fixes loop :: "string list \<Rightarrow> nat \<Rightarrow> 's \<Rightarrow> CliError + 's"
    and knows :: "Option \<Rightarrow> bool" and apply_option :: "Option \<Rightarrow> 's \<Rightarrow> 's"
  assumes loop_end: "length args \<le> i \<Longrightarrow> loop args i s = Inr s"
    and loop_round: "i < length args \<Longrightarrow> loop args i s = Inr s' \<longleftrightarrow>
      (\<exists>opt j. option_at args i = Inr (opt, j) \<and> knows opt \<and> loop args j (apply_option opt s) = Inr s')"
begin

lemma loop_sound:
  "loop args i s = Inr s' \<Longrightarrow>
   \<exists>opts. list_all (\<lambda>opt. well_formed opt \<and> knows opt) opts \<and> drop i args = command_line opts \<and> s' = fold apply_option opts s"
proof (induction "length args - i" arbitrary: i s rule: less_induct)
  case less
  show ?case
  proof (cases "i < length args")
    case True
    then obtain opt j where o: "option_at args i = Inr (opt, j)" "knows opt" "loop args j (apply_option opt s) = Inr s'"
      using loop_round less.prems by blast
    have at: "well_formed opt" "drop i args = words opt @ drop j args" "i < j"
      using option_at_sound [OF True o(1)] by simp_all
    have "length args - j < length args - i"
      using at(3) True by simp
    then obtain opts where "list_all (\<lambda>opt. well_formed opt \<and> knows opt) opts" "drop j args = command_line opts"
      "s' = fold apply_option opts (apply_option opt s)"
      using less.hyps [OF _ o(3)] by blast
    with at o(2) show ?thesis
      by (intro exI [of _ "opt # opts"]) simp
  next
    case False
    then show ?thesis
      using less.prems loop_end [of args i s] by (intro exI [of _ "[]"]) simp
  qed
qed

lemma loop_complete:
  "list_all (\<lambda>opt. well_formed opt \<and> knows opt) opts \<Longrightarrow> drop i args = command_line opts \<Longrightarrow>
   loop args i s = Inr (fold apply_option opts s)"
proof (induction opts arbitrary: i s)
  case Nil
  then show ?case using loop_end by simp
next
  case (Cons opt opts)
  let ?j = "i + length (words opt)"
  have at: "option_at args i = Inr (opt, ?j)"
    using Cons.prems by (intro option_at_complete) auto
  have "words opt \<noteq> []"
    by (cases opt) simp_all
  then have less: "i < length args"
    using Cons.prems(2) by (cases "i < length args") auto
  have "drop ?j args = drop (length (words opt)) (drop i args)"
    by (simp add: add.commute)
  also have "\<dots> = command_line opts"
    using Cons.prems(2) by simp
  finally have "loop args ?j (apply_option opt s) = Inr (fold apply_option opts (apply_option opt s))"
    using Cons by auto
  with at less Cons.prems(1) show ?case
    by (auto simp: loop_round)
qed

lemma loop_exact:
  "loop args 0 s = Inr s' \<longleftrightarrow>
     (\<exists>opts. list_all (\<lambda>opt. well_formed opt \<and> knows opt) opts \<and> args = command_line opts \<and> s' = fold apply_option opts s)"
  using loop_sound [of args 0 s s'] loop_complete [of _ 0 args s] by auto

end

lemma sources_round:
  "setting_sources_option args i = Inr sources \<longleftrightarrow>
     (\<exists>raw. argument args (Suc i) = Some raw \<and> parse_setting_sources raw = Inr sources)"
  by (auto simp: setting_sources_option_def split: option.splits sum.splits)

lemma durable_round:
  assumes "i < length args"
  shows "durable_options args i s = Inr s' \<longleftrightarrow>
    (\<exists>opt j. option_at args i = Inr (opt, j) \<and> durable_options args j (set_option opt s) = Inr s')"
  using assms
  by (subst durable_options.simps)
    (auto simp: option_at_def with_path_def setting_sources_option_def Let_def split: sum.splits option.splits if_splits)

lemma serve_round:
  assumes "i < length args"
  shows "serve_options args i c = Inr c' \<longleftrightarrow>
    (\<exists>opt j. option_at args i = Inr (opt, j) \<and> \<not> for_service opt \<and> serve_options args j (set_broker opt c) = Inr c')"
  using assms
  by (subst serve_options.simps)
    (auto simp: option_at_def with_path_def setting_sources_option_def Let_def split: sum.splits option.splits if_splits)

interpretation dl: option_loop durable_options "\<lambda>_. True" set_option
proof
  show "length args \<le> i \<Longrightarrow> durable_options args i s = Inr s" for args i s
    by (subst durable_options.simps) simp
qed (simp add: durable_round)

interpretation el: option_loop serve_options "\<lambda>opt. \<not> for_service opt" set_broker
proof
  show "length args \<le> i \<Longrightarrow> serve_options args i c = Inr c" for args i c
    by (subst serve_options.simps) simp
qed (simp add: serve_round)

text \<open>
  C39.  The options of \<open>serve-durable\<close> are read exactly.  The loop always returns; it accepts a list of
  arguments if and only if the list is a sequence of the documented options, each path absolute and
  each list of setting sources valid, and the result is that of setting the options one after the
  other, so that the last occurrence of an option counts.
\<close>

theorem durable_options_exact:
  "durable_options args 0 s = Inr s' \<longleftrightarrow>
     (\<exists>opts. list_all well_formed opts \<and> args = command_line opts \<and> s' = fold set_option opts s)"
  using dl.loop_exact [of args s s'] by simp

text \<open>What the broker options make of the configuration does not depend on the other options.\<close>

lemma fold_broker: "do_broker (fold set_option opts s) = fold set_broker opts (do_broker s)"
proof (induction opts arbitrary: s)
  case (Cons opt opts)
  then show ?case by (cases opt) simp_all
qed simp

definition plain_options :: "EmbeddedConfig \<Rightarrow> DurableOptions" where
  "plain_options c = \<lparr>do_broker = c, do_socket = None, do_registry = None, do_status = None\<rparr>"

definition unset :: "DurableOptions \<Rightarrow> bool" where
  "unset s = (do_socket s = None \<and> do_registry s = None \<and> do_status s = None)"

lemma unset_step: "unset (set_option opt s) \<longleftrightarrow> unset s \<and> \<not> for_service opt"
  by (cases opt) (auto simp: unset_def)

lemma unset_fold: "unset (fold set_option opts s) \<longleftrightarrow> unset s \<and> list_all (\<lambda>opt. \<not> for_service opt) opts"
  by (induction opts arbitrary: s) (auto simp: unset_step)

lemma fold_plain:
  "list_all (\<lambda>opt. \<not> for_service opt) opts \<Longrightarrow>
   fold set_option opts (plain_options c) = plain_options (fold set_broker opts c)"
proof -
  have eq: "s = plain_options (do_broker s)" if "unset s" for s
    using that by (simp add: plain_options_def unset_def)
  assume "list_all (\<lambda>opt. \<not> for_service opt) opts"
  then have "unset (fold set_option opts (plain_options c))"
    by (simp add: unset_fold) (simp add: unset_def plain_options_def)
  from eq [OF this] show ?thesis
    by (simp add: fold_broker) (simp add: plain_options_def)
qed

text \<open>
  C40.  The two commands read the broker's options alike.  \<open>serve\<close> accepts exactly the command lines
  that \<open>serve-durable\<close> accepts without a socket, a registry or a status path, and both make the same
  broker configuration of them, although each has a loop of its own.
\<close>

theorem serve_options_agree:
  "serve_options args 0 c = Inr c' \<longleftrightarrow> durable_options args 0 (plain_options c) = Inr (plain_options c')"
proof
  assume "serve_options args 0 c = Inr c'"
  then obtain opts where "list_all (\<lambda>opt. well_formed opt \<and> \<not> for_service opt) opts" "args = command_line opts"
    "c' = fold set_broker opts c"
    using el.loop_exact [of args c c'] by blast
  then show "durable_options args 0 (plain_options c) = Inr (plain_options c')"
    using dl.loop_complete [of opts 0 args "plain_options c"] fold_plain [of opts c] by (simp add: list_all_iff)
next
  assume "durable_options args 0 (plain_options c) = Inr (plain_options c')"
  then obtain opts where o: "list_all well_formed opts" "args = command_line opts"
    "plain_options c' = fold set_option opts (plain_options c)"
    using dl.loop_exact [of args "plain_options c" "plain_options c'"] by auto
  then have "unset (fold set_option opts (plain_options c))"
    by (metis plain_options_def unset_def DurableOptions.select_convs(2-4))
  then have known: "list_all (\<lambda>opt. \<not> for_service opt) opts"
    by (simp add: unset_fold)
  have "plain_options c' = plain_options (fold set_broker opts c)"
    using o(3) fold_plain [OF known] by simp
  then have "c' = fold set_broker opts c"
    by (simp add: plain_options_def)
  then show "serve_options args 0 c = Inr c'"
    using el.loop_complete [of opts 0 args c] o known by (simp add: list_all_iff)
qed

section \<open>What is configured\<close>

lemma fold_capacity: "ec_replay_capacity (fold set_broker opts c) = ec_replay_capacity c"
proof (induction opts arbitrary: c)
  case (Cons opt opts)
  then show ?case by (cases opt) (simp_all split: sum.split)
qed simp

lemma fold_absolute:
  assumes "list_all well_formed opts" and "none_or is_absolute (do_socket s)" and "none_or is_absolute (do_registry s)"
    and "none_or is_absolute (do_status s)"
  shows "none_or is_absolute (do_socket (fold set_option opts s)) \<and> none_or is_absolute (do_registry (fold set_option opts s))
    \<and> none_or is_absolute (do_status (fold set_option opts s))"
  using assms
proof (induction opts arbitrary: s)
  case (Cons opt opts)
  then show ?case by (cases opt) (simp_all add: none_or_def)
qed simp

lemma absolute_join: "is_absolute p \<Longrightarrow> is_absolute (path_join p q)"
  by (cases p) (auto simp: is_absolute_def starts_with_def path_join_def)

lemma default_paths_absolute:
  "default_socket_path vars = Inr p \<Longrightarrow> is_absolute p"
  "default_registry_path vars = Inr q \<Longrightarrow> is_absolute q"
  by (auto simp: default_socket_path_def default_registry_path_def Let_def filter_opt_Some_iff intro!: absolute_join
      split: option.splits if_splits sum.splits)

text \<open>
  Every command line that \<open>serve-durable\<close> accepts configures a service whose socket and registry
  paths are absolute and whose replay buffer has room, so that the broker does not panic at its start.
\<close>

lemma serve_durable_startable:
  assumes "serve_durable vars args = Inr config"
  shows "is_absolute (dc_socket_path config) \<and> is_absolute (dc_registry_path config) \<and> 0 < ec_replay_capacity (dc_broker config)"
proof -
  let ?s0 = "\<lparr>do_broker = config_default vars, do_socket = None, do_registry = None, do_status = None\<rparr>"
  obtain s where s: "durable_options args 0 ?s0 = Inr s"
    using assms by (auto simp: serve_durable_def split: sum.splits)
  then obtain opts where o: "list_all well_formed opts" "s = fold set_option opts ?s0"
    using dl.loop_exact [of args ?s0 s] by auto
  have "none_or is_absolute (do_socket s)" "none_or is_absolute (do_registry s)"
    using fold_absolute [OF o(1), of ?s0] by (simp_all add: o(2) none_or_def)
  moreover have "0 < ec_replay_capacity (do_broker s)"
    by (simp add: o(2) fold_broker fold_capacity)
  ultimately show ?thesis
    using assms s default_paths_absolute [of vars]
    by (auto simp: serve_durable_def Let_def or_default_def none_or_def with_broker_config_def with_status_path_def
        durable_config_new_def split: sum.splits option.splits)
qed

end
