(* ===== verification/Probe.thy ===== *)
theory Probe
  imports Options
begin

text \<open>
  The two diagnostic commands, \<open>main.rs\<close>: \<open>codex-probe\<close>, which starts a Codex App Server and asks who
  it is, and \<open>codex-trace\<close>, which runs one turn and prints its events.

  The process is the peer of the Codex adapter, \<open>None\<close> when it cannot be started.  What a command
  prints is a list of JSON values.  Stopping the process at the end is not modelled; the time stamps
  of the printed events are a function of their number.
\<close>

definition ensure_directory :: "World \<Rightarrow> string \<Rightarrow> bool" where
  "ensure_directory w path = (is_absolute path \<and> w_is_dir w path)"

fun value_shape :: "json \<Rightarrow> string" where
  "value_shape JNull = ''null''"
| "value_shape (JBool _) = ''boolean''"
| "value_shape (JNum _) = ''number''"
| "value_shape (JString _) = ''string''"
| "value_shape (JArray _) = ''array''"
| "value_shape (JObject _) = ''object''"

text \<open>\<open>initialize\<close> and the version gate, with which both commands begin.\<close>

definition codex_hello ::
  "codec \<Rightarrow> (string \<Rightarrow> string option) \<Rightarrow> Peer \<Rightarrow> (CodexError + json \<times> ProviderRuntime) \<times> Peer" where
  "codex_hello cd resolve p =
    (case codex_initialize cd p of
       (Inl e, p1) \<Rightarrow> (Inl e, p1)
     | (Inr initialize, p1) \<Rightarrow>
         (case codex_runtime_identity resolve (cs_program codex_command_default) initialize of
            Inl e \<Rightarrow> (Inl e, p1)
          | Inr runtime \<Rightarrow> (Inr (initialize, runtime), p1)))"

definition probe_report :: "json \<Rightarrow> ProviderRuntime \<Rightarrow> RequestOutcome \<Rightarrow> json" where
  "probe_report initialize runtime threads =
    jobj [(''initialized'', JBool True), (''runtime'', json_of_runtime runtime),
      (''user_agent'', jopt id (jget ''userAgent'' initialize)),
      (''platform_family'', jopt id (jget ''platformFamily'' initialize)),
      (''platform_os'', jopt id (jget ''platformOs'' initialize)),
      (''thread_list_shape'', JString (value_shape (ro_result threads))),
      (''events_seen'', JArray (map (\<lambda>e. JString (pe_method e)) (ro_events threads)))]"

definition probe_codex ::
  "World \<Rightarrow> codec \<Rightarrow> (string \<Rightarrow> string option) \<Rightarrow> Peer option \<Rightarrow> string \<Rightarrow> (CliError + json) \<times> Peer option" where
  "probe_codex w cd resolve spawned cwd =
    (if \<not> ensure_directory w cwd then (Inl (InvalidInput ''cwd must be an existing absolute directory''), None)
     else (case spawned of
         None \<Rightarrow> (Inl (CodexFailed CxIo), None)
       | Some p \<Rightarrow>
           (case codex_hello cd resolve p of
              (Inl e, p1) \<Rightarrow> (Inl (CodexFailed e), Some p1)
            | (Inr (initialize, runtime), p1) \<Rightarrow>
                (case list_threads cd None 1 p1 of
                   (Inl e, p2) \<Rightarrow> (Inl (CodexFailed e), Some p2)
                 | (Inr threads, p2) \<Rightarrow> (Inr (probe_report initialize runtime threads), Some p2)))))"

section \<open>The trace\<close>

definition LIVE_CONFIRMATION :: string where "LIVE_CONFIRMATION = ''--allow-live-provider''"

text \<open>The line printed for an event and the number of the next one.\<close>

definition print_event :: "(u64 \<Rightarrow> string) \<Rightarrow> ProviderEvent \<Rightarrow> u64 \<Rightarrow> CliError + json \<times> u64" where
  "print_event stamp event n =
    (let normalized = (normalize_event (stamp n) ''m0-probe'' event)\<lparr>ev_sequence := n\<rparr> in
     case checked_add1 n of
       None \<Rightarrow> Inl SequenceOverflow
     | Some n' \<Rightarrow>
         Inr (jobj [(''sequence'', ju64 (ev_sequence normalized)), (''timestamp'', JString (ev_timestamp normalized)),
                (''type'', JString (ev_type normalized)),
                (''provider_method'', jindex (ev_provider_event normalized) ''method'')], n'))"

fun print_events :: "(u64 \<Rightarrow> string) \<Rightarrow> ProviderEvent list \<Rightarrow> u64 \<Rightarrow> (CliError + u64) \<times> json list" where
  "print_events stamp [] n = (Inr n, [])"
| "print_events stamp (e # es) n =
    (case print_event stamp e n of
       Inl err \<Rightarrow> (Inl err, [])
     | Inr (line, n') \<Rightarrow> (case print_events stamp es n' of (r, lines) \<Rightarrow> (r, line # lines)))"

lemma next_event_weight: "next_event cd p = (Inr e, p') \<Longrightarrow> peer_weight p' < peer_weight p"
  by (auto simp: next_event_def dest: codex_read_weight split: prod.splits sum.splits)

definition deny_if_required :: "codec \<Rightarrow> ProviderEvent \<Rightarrow> Peer \<Rightarrow> (CodexError + ProviderEvent) \<times> Peer" where
  "deny_if_required cd event p = (if pe_response_required event then deny_server_request cd event p else (Inr event, p))"

lemma deny_if_required_weight: "deny_if_required cd e p = (r, p') \<Longrightarrow> peer_weight p' = peer_weight p"
  by (auto simp: deny_if_required_def peer_weight_def dest: deny_reader split: if_splits)

text \<open>The loop of \<open>trace_codex\<close>; it stops after the event that completes the turn.\<close>

function trace_loop ::
  "codec \<Rightarrow> (u64 \<Rightarrow> string) \<Rightarrow> u64 \<Rightarrow> Peer \<Rightarrow> (CliError + unit) \<times> json list \<times> Peer" where
  "trace_loop cd stamp n p =
    (case next_event cd p of
       (Inl e, p1) \<Rightarrow> (Inl (CodexFailed e), [], p1)
     | (Inr event, p1) \<Rightarrow>
         (case deny_if_required cd event p1 of
            (Inl e, p2) \<Rightarrow> (Inl (CodexFailed e), [], p2)
          | (Inr event1, p2) \<Rightarrow>
              (case print_event stamp event1 n of
                 Inl e \<Rightarrow> (Inl e, [], p2)
               | Inr (line, n') \<Rightarrow>
                   if pe_method event = ''turn/completed'' then (Inr (), [line], p2)
                   else (case trace_loop cd stamp n' p2 of (r, lines, p3) \<Rightarrow> (r, line # lines, p3)))))"
  by pat_completeness auto
termination
  by (relation "measure (\<lambda>(cd, stamp, n, p). peer_weight p)")
    (auto dest!: next_event_weight [OF sym] deny_if_required_weight [OF sym])

declare trace_loop.simps [simp del]

definition trace_turn ::
  "codec \<Rightarrow> (u64 \<Rightarrow> string) \<Rightarrow> string \<Rightarrow> string \<Rightarrow> Peer \<Rightarrow> (CliError + unit) \<times> json list \<times> Peer" where
  "trace_turn cd stamp cwd prompt p =
    (case start_thread cd cwd None p of
       (Inl e, p1) \<Rightarrow> (Inl (CodexFailed e), [], p1)
     | (Inr started, p1) \<Rightarrow>
         (case thread_id (ro_result started) of
            None \<Rightarrow> (Inl (InvalidInput ''thread/start response omitted thread.id''), [], p1)
          | Some thread \<Rightarrow>
              (case start_turn cd thread prompt None None p1 of
                 (Inl e, p2) \<Rightarrow> (Inl (CodexFailed e), [], p2)
               | (Inr turn, p2) \<Rightarrow>
                   (case print_events stamp (ro_events started @ ro_events turn) 1 of
                      (Inl e, lines) \<Rightarrow> (Inl e, lines, p2)
                    | (Inr n, lines) \<Rightarrow>
                        (case trace_loop cd stamp n p2 of (r, rest, p3) \<Rightarrow> (r, lines @ rest, p3))))))"

definition trace_codex ::
  "World \<Rightarrow> codec \<Rightarrow> (string \<Rightarrow> string option) \<Rightarrow> (u64 \<Rightarrow> string) \<Rightarrow> Peer option \<Rightarrow> string list
    \<Rightarrow> (CliError + unit) \<times> json list \<times> Peer option" where
  "trace_codex w cd resolve stamp spawned args =
    (if LIVE_CONFIRMATION \<notin> set args then (Inl (InvalidInput (''codex-trace requires explicit '' @ LIVE_CONFIRMATION)), [], None)
     else (case parse_cwd args of
         Inl e \<Rightarrow> (Inl e, [], None)
       | Inr cwd \<Rightarrow>
           if \<not> ensure_directory w cwd then (Inl (InvalidInput ''cwd must be an existing absolute directory''), [], None)
           else (case option_value args ''--prompt'' of
               None \<Rightarrow> (Inl (InvalidInput ''codex-trace requires --prompt''), [], None)
             | Some prompt \<Rightarrow>
                 (case spawned of
                    None \<Rightarrow> (Inl (CodexFailed CxIo), [], None)
                  | Some p \<Rightarrow>
                      (case codex_hello cd resolve p of
                         (Inl e, p1) \<Rightarrow> (Inl (CodexFailed e), [], Some p1)
                       | (Inr _, p1) \<Rightarrow>
                           (case trace_turn cd stamp cwd prompt p1 of (r, lines, p2) \<Rightarrow> (r, lines, Some p2)))))))"

section \<open>What a trace writes and prints\<close>

text \<open>A frame that grants nothing: it carries no result, or the one that declines.\<close>

definition grants_nothing :: "json \<Rightarrow> bool" where
  "grants_nothing m = (jget ''result'' m = None \<or> jget ''result'' m = Some (jobj [(''decision'', JString ''decline'')]))"

lemma grants_nothing_frames [simp]:
  "grants_nothing (denial_frame meth i)" "grants_nothing (codex_request_frame n meth params)"
  "grants_nothing (jobj [(''method'', x), (''params'', y)])"
  using denial_frame_refuses [of meth i]
  by (auto simp: grants_nothing_def codex_request_frame_def jget_jobj)

lemma request_only: "codex_request cd method params p = (r, p') \<Longrightarrow> writes_only grants_nothing p p'"
  by (rule codex_request_only [of grants_nothing]) simp_all

lemma deny_if_required_only: "deny_if_required cd e p = (r, p') \<Longrightarrow> writes_only grants_nothing p p'"
  by (auto simp: deny_if_required_def writes_only_refl split: if_splits
      intro: deny_server_request_only [of grants_nothing, OF grants_nothing_frames(1)])

lemma next_event_only: "next_event cd p = (r, p') \<Longrightarrow> writes_only grants_nothing p p'"
  by (auto simp: next_event_def dest!: codex_read_keeps intro!: writes_only_refl split: sum.splits prod.splits)

lemma codex_hello_only: "codex_hello cd resolve p = (r, p') \<Longrightarrow> writes_only grants_nothing p p'"
proof -
  have notify: "writes_only grants_nothing q q'" if "codex_notify cd m x q = (r', q')" for m x q r' q'
    using that unfolding codex_notify_def by (rule codex_write_only) simp
  have init: "writes_only grants_nothing q q'" if "codex_initialize cd q = (r', q')" for q r' q'
    using that by (auto simp: codex_initialize_def dest!: request_only notify intro: writes_only_trans
        split: sum.splits prod.splits)
  show "codex_hello cd resolve p = (r, p') \<Longrightarrow> writes_only grants_nothing p p'"
    by (auto simp: codex_hello_def dest!: init split: sum.splits prod.splits)
qed

text \<open>The numbers printed, starting with \<open>n\<close>.\<close>

definition numbered_lines :: "u64 \<Rightarrow> json list \<Rightarrow> bool" where
  "numbered_lines n lines = (\<forall>i<length lines. jget ''sequence'' (lines ! i) = Some (ju64 (n + of_nat i)))"

lemma numbered_lines_Nil [simp]: "numbered_lines n []"
  by (simp add: numbered_lines_def)

lemma numbered_lines_Cons:
  "numbered_lines n (line # lines) \<longleftrightarrow> jget ''sequence'' line = Some (ju64 n) \<and> numbered_lines (n + 1) lines"
  by (auto simp: numbered_lines_def All_less_Suc2 algebra_simps)

lemma numbered_lines_append:
  "numbered_lines n (xs @ ys) \<longleftrightarrow> numbered_lines n xs \<and> numbered_lines (n + of_nat (length xs)) ys"
  by (induction xs arbitrary: n) (auto simp: numbered_lines_Cons algebra_simps)

lemma print_event_number: "print_event stamp e n = Inr (line, n') \<Longrightarrow> jget ''sequence'' line = Some (ju64 n) \<and> n' = n + 1"
  by (auto simp: print_event_def Let_def jget_jobj dest!: checked_add1_Some split: option.splits)

lemma print_events_numbers:
  "print_events stamp es n = (r, lines) \<Longrightarrow> numbered_lines n lines \<and> (\<forall>n'. r = Inr n' \<longrightarrow> n' = n + of_nat (length lines))"
proof (induction stamp es n arbitrary: r lines rule: print_events.induct)
  case (2 stamp e es n)
  show ?case
  proof (cases "print_event stamp e n")
    case (Inr x)
    obtain line n' where x: "x = (line, n')" by (cases x)
    obtain r' lines' where rest: "print_events stamp es n' = (r', lines')" by (cases "print_events stamp es n'")
    show ?thesis
      using 2(1) [OF Inr x [symmetric] rest] 2(2) Inr x rest print_event_number [of stamp e n line n']
      by (auto simp: numbered_lines_Cons)
  qed (use 2 in auto)
qed simp

lemma trace_loop_ok:
  "trace_loop cd stamp n p = (r, lines, p') \<Longrightarrow> writes_only grants_nothing p p' \<and> numbered_lines n lines"
proof (induction cd stamp n p arbitrary: r lines p' rule: trace_loop.induct)
  case (1 cd stamp n p)
  obtain x p1 where ev: "next_event cd p = (x, p1)" by fastforce
  have h1: "writes_only grants_nothing p p1"
    by (rule next_event_only [OF ev])
  show ?case
  proof (cases x)
    case (Inl e)
    then show ?thesis
      using 1(2) ev h1 by (subst (asm) trace_loop.simps) auto
  next
    case x: (Inr event)
    obtain y p2 where d: "deny_if_required cd event p1 = (y, p2)" by fastforce
    have h2: "writes_only grants_nothing p p2"
      by (rule writes_only_trans [OF h1 deny_if_required_only [OF d]])
    show ?thesis
    proof (cases "\<exists>event1 line n'. y = Inr event1 \<and> print_event stamp event1 n = Inr (line, n')")
      case False
      then show ?thesis
        using 1(2) ev x d h2 by (subst (asm) trace_loop.simps) (auto split: sum.splits)
    next
      case True
      then obtain event1 line n' where y: "y = Inr event1" "print_event stamp event1 n = Inr (line, n')"
        by blast
      note seq = print_event_number [OF y(2)]
      show ?thesis
      proof (cases "pe_method event = ''turn/completed''")
        case True
        then show ?thesis
          using 1(2) ev x d y h2 seq by (subst (asm) trace_loop.simps) (auto simp: numbered_lines_Cons)
      next
        case False
        obtain r' lines' p3 where rest: "trace_loop cd stamp n' p2 = (r', lines', p3)"
          by (cases "trace_loop cd stamp n' p2")
        have "writes_only grants_nothing p2 p3 \<and> numbered_lines n' lines'"
          by (rule 1(1) [OF ev [symmetric] x d [symmetric] y(1) y(2) refl False rest])
        then show ?thesis
          using 1(2) ev x d y h2 seq rest False
          by (subst (asm) trace_loop.simps) (auto simp: numbered_lines_Cons intro: writes_only_trans)
      qed
    qed
  qed
qed

lemma trace_turn_ok:
  assumes "trace_turn cd stamp cwd prompt p = (r, lines, p')"
  shows "writes_only grants_nothing p p' \<and> numbered_lines 1 lines"
proof -
  obtain x p1 where s: "start_thread cd cwd None p = (x, p1)" by fastforce
  have h1: "writes_only grants_nothing p p1"
    using s unfolding start_thread_def by (rule request_only)
  show ?thesis
  proof (cases "\<exists>started thread. x = Inr started \<and> thread_id (ro_result started) = Some thread")
    case False
    then show ?thesis
      using assms s h1 by (auto simp: trace_turn_def split: sum.splits option.splits)
  next
    case True
    then obtain started thread where x: "x = Inr started" "thread_id (ro_result started) = Some thread"
      by blast
    obtain y p2 where t: "start_turn cd thread prompt None None p1 = (y, p2)" by fastforce
    have h2: "writes_only grants_nothing p p2"
      using writes_only_trans [OF h1 request_only] t unfolding start_turn_def by blast
    show ?thesis
    proof (cases y)
      case (Inl e)
      then show ?thesis
        using assms s x t h2 by (auto simp: trace_turn_def)
    next
      case (Inr turn)
      obtain z ls where pr: "print_events stamp (ro_events started @ ro_events turn) 1 = (z, ls)"
        by fastforce
      then show ?thesis
        using assms s x t Inr h2 print_events_numbers [OF pr]
        by (auto simp: trace_turn_def numbered_lines_append split: sum.splits prod.splits
          dest!: trace_loop_ok intro: writes_only_trans)
    qed
  qed
qed

text \<open>
  A trace is harmless and complete.  Without the explicit confirmation \<open>codex-trace\<close> starts no
  process; with it, everything it ever writes to the provider is a request of its own or a refusal,
  whatever the provider asks; the loop ends with the stream of the provider at the latest; and the
  printed events are numbered from 1 without a gap.
\<close>

theorem trace_grants_nothing:
  assumes "trace_codex w cd resolve stamp spawned args = (r, lines, left)"
  shows "(''--allow-live-provider'' \<notin> set args \<longrightarrow> left = None \<and> lines = [] \<and> (\<exists>e. r = Inl e))
    \<and> (\<forall>p p'. spawned = Some p \<and> left = Some p' \<longrightarrow>
         (\<exists>new. pr_written p' = pr_written p @ new \<and> list_all (\<lambda>m. jget ''result'' m \<in>
            {None, Some (jobj [(''decision'', JString ''decline'')])}) new))
    \<and> (\<forall>i<length lines. jget ''sequence'' (lines ! i) = Some (ju64 (1 + of_nat i)))"
proof -
  have "(''--allow-live-provider'' \<notin> set args \<longrightarrow> left = None \<and> lines = [] \<and> (\<exists>e. r = Inl e))
    \<and> (\<forall>p p'. spawned = Some p \<and> left = Some p' \<longrightarrow> writes_only grants_nothing p p') \<and> numbered_lines 1 lines"
    using assms
    by (auto simp: trace_codex_def LIVE_CONFIRMATION_def split: if_splits sum.splits option.splits prod.splits
      dest!: codex_hello_only trace_turn_ok intro: writes_only_trans)
  then show ?thesis
    by (auto simp: writes_only_def grants_nothing_def numbered_lines_def list_all_iff)
qed

text \<open>A process that asks for an approval during the handshake and then exits.\<close>

definition demo_process :: Peer where
  "demo_process = sample_peer\<lparr>pr_reader := [Some [CHR ''a'', newline]]\<rparr>"

definition demo_arguments :: "string list" where
  "demo_arguments = [''--allow-live-provider'', ''--cwd'', ''/w'', ''--prompt'', ''hello'']"

lemma demo_handshake:
  "\<exists>p'. codex_hello sample_codec resolve demo_process = (Inl CxClosed, p') \<and> length (pr_written p') = 2"
proof -
  define f where "f = codex_request_frame 1 ''initialize''
        (jobj [(''clientInfo'', jobj [(''name'', JString ''agent_manager''),
                  (''title'', JString ''Agent Manager''), (''version'', JString BROKER_VERSION)]),
               (''capabilities'', jobj [(''experimentalApi'', JBool False)])])"
  let ?s1 = "demo_process\<lparr>pr_next_id := 2, pr_written := [f]\<rparr>"
  let ?s2 = "?s1\<lparr>pr_reader := []\<rparr>"
  let ?s3 = "?s2\<lparr>pr_written := [f, denial_frame ''applyPatchApproval'' (jnat 7)]\<rparr>"
  have r1: "codex_read sample_codec ?s1 = (Inr sample_approval, ?s2)"
    using codex_next_frame [of ?s1 "''a''" "[]" sample_codec sample_approval]
    by (simp add: demo_process_def sample_codec_def sample_approval_def jobj_def is_object_def CODEX_MAX_FRAME_BYTES_def)
  have r3: "codex_read sample_codec ?s3 = (Inl CxClosed, ?s3)"
    by (simp add: codex_read_def read_bounded_line_def)
  have ev: "parse_event_or_request sample_approval = Inr (sample_event_approval\<lparr>pe_response_required := True\<rparr>)"
    by (simp add: sample_approval_def parse_event_or_request_def get_str_def jget_jobj Let_def
        sample_event_approval_def is_object_def jobj_def obj_of_def jnat_def)
  have no: "\<not> is_response_to 1 sample_approval"
    by (simp add: is_response_to_def sample_approval_def jget_jobj jnat_def)
  have d: "deny_server_request sample_codec (sample_event_approval\<lparr>pe_response_required := True\<rparr>) ?s2
      = (Inr sample_event_approval, ?s3)"
    by (simp add: deny_server_request_def unanswered_request_id_def sample_event_approval_def
        codex_write_def sample_codec_def pipe_write_def demo_process_def sample_peer_def)
  have "codex_await sample_codec 1 [] ?s1 = codex_await sample_codec 1 [sample_event_approval] ?s3"
    using r1 no ev d by (subst codex_await.simps) simp
  also have "\<dots> = (Inl CxClosed, ?s3)"
    using r3 by (subst codex_await.simps) simp
  finally have await: "codex_await sample_codec 1 [] ?s1 = (Inl CxClosed, ?s3)" .
  have "codex_write sample_codec f (demo_process\<lparr>pr_next_id := 2\<rparr>) = (Inr (), ?s1)"
    by (simp add: codex_write_def sample_codec_def pipe_write_def demo_process_def sample_peer_def)
  then have "codex_initialize sample_codec demo_process = (Inl CxClosed, ?s3)"
    using await by (simp add: codex_initialize_def codex_request_def Let_def checked_add1_def u64_max_def demo_process_def
        sample_peer_def f_def)
  then show ?thesis
    by (simp add: codex_hello_def)
qed

theorem trace_grants_nothing_witness:
  "\<exists>p' e. trace_codex quiet_world sample_codec (\<lambda>_. None) (\<lambda>_. []) (Some demo_process) demo_arguments = (Inl e, [], Some p')
    \<and> length (pr_written p') = 2
    \<and> list_all (\<lambda>m. jget ''result'' m \<in> {None, Some (jobj [(''decision'', JString ''decline'')])}) (pr_written p')"
proof -
  obtain p' where p': "codex_hello sample_codec (\<lambda>_. None) demo_process = (Inl CxClosed, p')" "length (pr_written p') = 2"
    using demo_handshake by blast
  have run: "trace_codex quiet_world sample_codec (\<lambda>_. None) (\<lambda>_. []) (Some demo_process) demo_arguments
      = (Inl (CodexFailed CxClosed), [], Some p')"
    by (simp add: trace_codex_def demo_arguments_def LIVE_CONFIRMATION_def parse_cwd_def ensure_directory_def is_absolute_def
        starts_with_def quiet_world_def p'(1))
  have "pr_written demo_process = []"
    by (simp add: demo_process_def sample_peer_def)
  with trace_grants_nothing [OF run] run p'(2) show ?thesis
    by auto
qed

end
