(* ===== verification/BrokerPromises.thy ===== *)
theory BrokerPromises
  imports BrokerMirror CodexRuntime ClaudeRuntime
begin

text \<open>
  Two promises of the durable broker that span its parts: a request for a human decision that nobody
  can see is refused, and what a user wrote in a prompt never reaches the registry file.
\<close>

section \<open>Requests that nobody can answer\<close>

text \<open>What has been put into the command channels, and the notices that wait for room.\<close>

definition channels :: "Broker \<Rightarrow> (string \<times> AgentCommand list \<times> nat) list" where
  "channels b = map (\<lambda>(i, a). (i, ma_commands a, ma_parked_disconnects a)) (b_agents b)"

lemma channels_upd:
  "(\<And>a. ma_commands (f a) = ma_commands a \<and> ma_parked_disconnects (f a) = ma_parked_disconnects a) \<Longrightarrow>
   channels (upd_agent i f b) = channels b"
  by (auto simp: channels_def upd_agent_def)

lemma channels_send [simp]: "channels (send m b) = channels b"
  by (simp add: channels_def send_def split: option.split)

lemma channels_touch [simp]: "channels (touch env i b) = channels b"
proof -
  have "channels (tick x) = channels x" for x
    by (simp add: channels_def tick_def)
  then show ?thesis
    by (simp add: touch_def channels_upd upd_summary_def)
qed

lemma channels_notify [simp]: "channels (notify_state env b) = channels b"
proof -
  have "channels (snd (snd (save_registry env x))) = channels x" for x
    by (simp add: save_registry_def channels_def tick_def split: option.split prod.split)
  moreover have "channels (save_status env r n x) = channels x" for r n x
    by (simp add: save_status_def channels_def tick_def Let_def split: option.split prod.split)
  ultimately show ?thesis
    by (simp add: notify_state_def Let_def split: prod.split) (metis snd_conv)
qed

lemma event_state_channel: "ma_commands (event_state e a) = ma_commands a \<and> ma_parked_disconnects (event_state e a) = ma_parked_disconnects a"
  by (auto simp: event_state_def upd_summary_def restore_waiting_state_def Let_def)

lemma channels_patch [simp]: "channels (send_transcript_patch i p b) = channels b"
  by (simp add: send_transcript_patch_def)

lemma channels_publish: "channels (snd (publish_event env e b)) = channels (warn_unattended env e b)"
proof -
  have push: "channels (snd (push_event e' x)) = channels x" for e' x
    by (simp add: push_event_def channels_def split: option.split prod.split)
  have state: "channels (snd (apply_event_state env e' x)) = channels x" for e' x
    by (simp add: apply_event_state_def Let_def channels_upd event_state_channel split: option.split)
  have transcript: "channels (update_transcript env e' x) = channels x" for e' x
    by (simp add: update_transcript_def Let_def channels_upd set_transcript_def split: option.split prod.split)
  have ready: "channels (send_if_ready e' x) = channels x" for e' x
    by (simp add: send_if_ready_def send_event_def)
  show ?thesis
    using push [of e "warn_unattended env e b"] state
    by (simp add: publish_event_def transcript ready split: prod.split) (metis snd_conv)
qed

definition channel_of :: "Broker \<Rightarrow> string \<Rightarrow> (AgentCommand list \<times> nat) option" where
  "channel_of b i = map_of (channels b) i"

lemma channel_of_agent: "channel_of b i = map_option (\<lambda>a. (ma_commands a, ma_parked_disconnects a)) (agent_of b i)"
proof -
  have "map_of (map (\<lambda>(i, a). (i, ma_commands a, ma_parked_disconnects a)) xs) i
      = map_option (\<lambda>a. (ma_commands a, ma_parked_disconnects a)) (map_of xs i)" for xs
    by (induction xs) auto
  then show ?thesis
    by (simp add: channel_of_def channels_def agent_of_def)
qed

lemma queued_disconnect:
  assumes "agent_of b i = Some a"
  shows "channel_of (queue_client_disconnect env i b) i = Some (ma_commands a @ [CmdClientDisconnected], ma_parked_disconnects a)
    \<or> channel_of (queue_client_disconnect env i b) i = Some (ma_commands a, Suc (ma_parked_disconnects a))"
proof -
  have tick: "agent_of (tick x) i = agent_of x i" for x
    by (simp add: agent_of_def tick_def)
  show ?thesis
    using assms
    by (auto simp: queue_client_disconnect_def try_command_def accept_command_def channel_of_agent agent_of_upd tick)
qed

lemma deny_list_codex_pending:
  "tk_pending (snd (deny_list_codex env reason is s)) = filter (\<lambda>kv. fst kv \<notin> set is) (tk_pending s)"
proof (induction "is" arbitrary: s)
  case (Cons i "is")
  have "tk_pending (snd (deny_one_codex env reason i s)) = filter (\<lambda>kv. fst kv \<noteq> i) (tk_pending s)"
  proof (cases "map_of (tk_pending s) i")
    case None
    then have "filter (\<lambda>kv. fst kv \<noteq> i) (tk_pending s) = tk_pending s"
      by (force simp: map_of_eq_None_iff filter_id_conv)
    with None show ?thesis by (simp add: deny_one_codex_def)
  qed (simp add: deny_one_codex_def map_remove_def split: prod.split)
  then show ?case
    using Cons.IH by (auto simp: case_prod_beta intro: filter_cong)
qed simp

lemma deny_list_worker_pending:
  "tk_pending (snd (deny_list_worker env reason message is s)) = filter (\<lambda>kv. fst kv \<notin> set is) (tk_pending s)"
proof (induction "is" arbitrary: s)
  case (Cons i "is")
  have "tk_pending (snd (deny_one_worker env reason message i s)) = filter (\<lambda>kv. fst kv \<noteq> i) (tk_pending s)"
  proof (cases "map_of (tk_pending s) i")
    case None
    then have "filter (\<lambda>kv. fst kv \<noteq> i) (tk_pending s) = tk_pending s"
      by (force simp: map_of_eq_None_iff filter_id_conv)
    with None show ?thesis by (simp add: deny_one_worker_def)
  qed (simp add: deny_one_worker_def map_remove_def split: prod.split)
  then show ?case
    using Cons.IH by (auto simp: case_prod_beta intro: filter_cong)
qed simp

lemma disconnect_refuses_codex: "tk_pending (fst (codex_command env session CmdClientDisconnected s)) = []"
proof -
  have "tk_pending (snd (deny_all_codex_requests env ''client_disconnect'' s)) = []"
    by (simp add: deny_all_codex_requests_def deny_list_codex_pending filter_empty_conv)
  then show ?thesis
    by (auto simp: codex_command_def provider_failed_def emit_def split: prod.split bool.split)
qed

lemma disconnect_refuses_claude: "tk_pending (fst (claude_command env session CmdClientDisconnected s)) = []"
proof -
  have "tk_pending (snd (deny_all_worker_requests env ''client_disconnect'' s)) = []"
    by (simp add: deny_all_worker_requests_def deny_list_worker_pending filter_empty_conv)
  then show ?thesis
    by (auto simp: claude_command_def provider_failed_def emit_def split: prod.split bool.split)
qed


text \<open>A restored agent whose task still runs, say, asks while no client is there.\<close>

definition demo_request_event :: EventEnvelope where
  "demo_request_event = new_event ''t'' ''a'' Codex ''approval.requested'' JNull JNull"


section \<open>Prompts stay out of the registry\<close>

definition plain_title :: "string set \<Rightarrow> AgentSummary \<Rightarrow> bool" where
  "plain_title titles s = (as_title s = directory_title (as_cwd s) (as_provider s) \<or> as_title s \<in> titles)"

definition private_agent :: "string set \<Rightarrow> ManagedAgent \<Rightarrow> bool" where
  "private_agent titles a = (ma_title_from_prompt a \<or> plain_title titles (ma_summary a))"

text \<open>A registry file that this run has written.\<close>

definition private_file :: "BrEnv \<Rightarrow> string set \<Rightarrow> string option \<Rightarrow> bool" where
  "private_file env titles f = (\<exists>agents w. f = Some (be_pretty env (json_of_registry (rg_document w agents)) @ [newline])
     \<and> (\<forall>s\<in>set agents. plain_title titles s))"

definition registry_private :: "BrEnv \<Rightarrow> string set \<Rightarrow> string option \<Rightarrow> Broker \<Rightarrow> bool" where
  "registry_private env titles before b =
    ((\<forall>(i, a) \<in> set (b_agents b). private_agent titles a)
     \<and> (b_registry_file b = before \<or> private_file env titles (b_registry_file b)))"

lemma private_upd:
  assumes "\<forall>(i, a) \<in> set (b_agents b). private_agent titles a" and "\<And>a. private_agent titles a \<Longrightarrow> private_agent titles (f a)"
  shows "\<forall>(i, a) \<in> set (b_agents (upd_agent k f b)). private_agent titles a"
  using assms by (auto simp: upd_agent_def split: if_splits)

lemma calm_private: "calm f \<Longrightarrow> private_agent titles a \<Longrightarrow> private_agent titles (f a)"
proof -
  assume "calm f" and p: "private_agent titles a"
  from this(1) [unfolded calm_def, THEN spec, of a] have "as_provider (ma_summary (f a)) = as_provider (ma_summary a)" "as_cwd (ma_summary (f a)) = as_cwd (ma_summary a)"
    "ma_title_from_prompt a \<longrightarrow> ma_title_from_prompt (f a)"
    "ma_title_from_prompt (f a) \<or> as_title (ma_summary (f a)) = as_title (ma_summary a)"
    by - (elim conjE, assumption)+
  with p show ?thesis
    unfolding private_agent_def plain_title_def by metis
qed

lemma registry_summary_plain: "private_agent titles a \<Longrightarrow> plain_title titles (registry_summary a)"
  by (auto simp: private_agent_def plain_title_def registry_summary_def Let_def)

lemma rg_persist_file:
  "snd (rg_persist w encode r agents f) = f
    \<or> snd (rg_persist w encode r agents f) = Some (encode (json_of_registry (rg_document w agents)) @ [newline])"
  using save_file_atomic [of w "encode (json_of_registry (rg_document w agents))" f]
  by (auto simp: rg_persist_def Let_def split: sum.split option.split prod.split)

lemma registry_private_frame:
  assumes "registry_private env titles before b" and "b_agents b' = b_agents b" and "b_registry_file b' = b_registry_file b"
  shows "registry_private env titles before b'"
  using assms by (simp add: registry_private_def)

lemma registry_private_upd:
  assumes "registry_private env titles before b" and "\<And>a. private_agent titles a \<Longrightarrow> private_agent titles (f a)"
  shows "registry_private env titles before (upd_agent i f b)"
  using assms private_upd [of b titles f i] by (simp add: registry_private_def) (simp add: upd_agent_def)

lemma send_keeps_agents [simp]: "b_agents (send m b) = b_agents b" "b_registry_file (send m b) = b_registry_file b"
  by (simp_all add: send_def split: option.split)

lemma private_bstep:
  assumes "bstep env b b'" and ok: "registry_private env titles before b"
  shows "registry_private env titles before b'"
  using assms
proof (induction rule: bstep.induct)
  case (agent f b i)
  show ?case
    by (rule registry_private_upd [OF agent(2)]) (rule calm_private [OF agent(1)])
next
  case (enqueue b i a p)
  then show ?case by (intro registry_private_upd) (simp_all add: private_agent_def)
next
  case (transcript b i a op r t)
  then have "registry_private env titles before (upd_agent i (set_transcript t) b)"
    by (intro registry_private_upd) (simp_all add: private_agent_def set_transcript_def)
  then show ?case
    by (auto simp: send_transcript_patch_def split: option.split elim: registry_private_frame)
next
  case (launch b identity i stamp provider workspace options l spawn)
  have "private_agent titles (new_agent i stamp provider workspace options l identity)"
    by (simp add: private_agent_def plain_title_def new_agent_def)
  then show ?case
    using launch(4) by (auto simp: registry_private_def insert_agent_def map_insert_def tick_def)
next
  case (remove b ids)
  then show ?case by (auto simp: registry_private_def remove_agents_def)
next
  case (registry b r)
  have "plain_title titles s" if s: "s \<in> set (registry_view b)" for s
  proof -
    obtain i a where "(i, a) \<in> set (b_agents b)" "s = registry_summary a"
      using s agent_of_in [of b] by (auto simp: registry_view_def set_filter_map)
    with registry(2) show ?thesis
      by (auto simp: registry_private_def intro: registry_summary_plain)
  qed
  then have "private_file env titles (Some (be_pretty env (json_of_registry (rg_document (now env b) (registry_view b))) @ [newline]))"
    unfolding private_file_def by blast
  then have "snd (rg_persist (now env b) (be_pretty env) r (registry_view b) (b_registry_file b)) = b_registry_file b
      \<or> private_file env titles (snd (rg_persist (now env b) (be_pretty env) r (registry_view b) (b_registry_file b)))"
    using rg_persist_file [of "now env b" "be_pretty env" r "registry_view b" "b_registry_file b"] by metis
  then show ?case
    using registry(2) unfolding registry_private_def by auto
qed (auto elim!: registry_private_frame simp: tick_def send_if_ready_def send_event_def mark_history_def)

lemma private_move:
  assumes "registry_private env titles before b" and "move env b b'"
  shows "registry_private env titles before b'"
  using assms(2)
proof cases
  case quiet
  then show ?thesis using private_bstep assms(1) by blast
next
  case start
  have more: "b_agents (send_events es x) = b_agents x" "b_registry_file (send_events es x) = b_registry_file x" for es x
    by (induction es x rule: send_events.induct) (simp_all add: send_event_def)
  then show ?thesis
    using assms(1) start
    by (auto elim!: registry_private_frame simp: open_session_def Let_def split: ReplayResult.split)
qed (use assms(1) in \<open>auto elim!: registry_private_frame simp: runtime_request_def forget_request_def take_over_def
  hang_up_def greet_def Let_def split: option.split\<close>)

interpretation privacy: kept env "registry_private env titles before" for env titles before
  by unfold_locales (rule private_move)

text \<open>
  C10.  The registry holds metadata only.  Whatever prompts are sent in a run, the registry file is
  untouched or is a document in which the title of every agent is the one made of its directory and
  its provider, or one that was in the registry when the broker started: a title taken from a prompt
  is shown to the client but never stored.
\<close>

theorem registry_keeps_no_prompt:
  assumes "broker_new w config mode registry before agents status sfile = Some b0"
    and "broker_run env inputs b0 = Some (r, b)"
  shows "b_registry_file b = before
    \<or> (\<exists>d. b_registry_file b = Some (be_pretty env (json_of_registry d) @ [newline])
        \<and> (\<forall>a\<in>set (rd_agents d). ra_title a = directory_title (ra_cwd a) (ra_provider a) \<or> ra_title a \<in> as_title ` set agents))"
proof -
  have restored: "\<forall>(i, a) \<in> set (restore_all w ss acc). private_agent titles a"
    if "\<forall>(i, a) \<in> set acc. private_agent titles a" "as_title ` set ss \<subseteq> titles" for ss acc titles
    using that
  proof (induction ss arbitrary: acc)
    case (Cons s ss)
    have "private_agent titles (restored_agent w s)"
      using Cons.prems(2) by (simp add: private_agent_def plain_title_def restored_agent_def)
    then have "\<forall>(i, a) \<in> set (map_insert (as_id s) (restored_agent w s) acc). private_agent titles a"
      using Cons.prems(1) by (auto simp: map_insert_def)
    then show ?case
      using Cons.IH Cons.prems(2) by simp
  qed simp
  have "registry_private env (as_title ` set agents) before b0"
    using assms(1) restored [where acc = "[]" and ss = agents and titles = "as_title ` set agents"]
    by (auto simp: broker_new_def registry_private_def split: option.splits)
  from privacy.kept_run [OF assms(2) this] show ?thesis
    by (fastforce simp: registry_private_def private_file_def rg_document_def plain_title_def registry_agent_def)
qed

text \<open>The provider of the restored agent fails; the new state is stored.\<close>

definition storing_env :: BrEnv where
  "storing_env = BrokerDemo.demo_env\<lparr>be_world := \<lambda>_. disk_before\<rparr>"

definition storing_broker :: Broker where
  "storing_broker = demo_agents\<lparr>b_registry := Some sample_store\<rparr>"

lemma storing_new:
  "broker_new quiet_world demo_config Durable (Some sample_store) None [sample_agent] None None = Some storing_broker"
  by (simp add: broker_new_def rb_new_def demo_config_def demo_agents_def demo_broker_def map_insert_def sample_agent_def
      storing_broker_def)

lemma storing_persist:
  "length agents \<le> MAX_REGISTRY_AGENTS \<Longrightarrow> rg_persist disk_before (\<lambda>_. []) sample_store agents f = (Inr (), Some [newline])"
  by (simp add: rg_persist_def sample_store_def disk_before_def quiet_world_def sample_parent validate_existing_private_file_def
      ensure_private_directory_def is_absolute_def starts_with_def owner_only_def save_file_def MAX_REGISTRY_BYTES_def)

lemma storing_run:
  "\<exists>b. broker_run storing_env [FromRuntime (EvProviderFailed ''a'' ''gone'')] storing_broker = Some (Continue, b)
    \<and> b_registry_file b = Some [newline]"
proof -
  have world: "be_world storing_env n = disk_before" "be_pretty storing_env = (\<lambda>_. [])" for n
    by (simp_all add: storing_env_def BrokerDemo.demo_env_def)
  have persist: "rg_persist disk_before (\<lambda>_. []) sample_store [s] f = (Inr (), Some [newline])" for s f
    by (rule storing_persist) (simp add: MAX_REGISTRY_AGENTS_def)
  show ?thesis
    by (simp add: storing_broker_def demo_agents_def demo_broker_def restored_agent_def handle_provider_failure_def
        cancel_queued_prompts_def agent_of_def upd_agent_def upd_summary_def touch_def tick_def now_def push_event_def
        rb_push_def checked_add1_def u64_max_def send_if_ready_def notify_state_def save_registry_def save_status_def
        world persist Let_def)
qed

theorem registry_keeps_no_prompt_witness:
  "\<exists>d b. broker_run storing_env [FromRuntime (EvProviderFailed ''a'' ''gone'')] storing_broker = Some (Continue, b)
    \<and> b_registry_file b = Some (be_pretty storing_env (json_of_registry d) @ [newline])
    \<and> list_all (\<lambda>a. ra_title a = directory_title (ra_cwd a) (ra_provider a) \<or> ra_title a = ''w'') (rd_agents d)"
proof -
  obtain b where b: "broker_run storing_env [FromRuntime (EvProviderFailed ''a'' ''gone'')] storing_broker = Some (Continue, b)"
    "b_registry_file b = Some [newline]"
    using storing_run by blast
  from registry_keeps_no_prompt [OF storing_new b(1)] b show ?thesis
    by (auto simp: list_all_iff sample_agent_def)
qed

end
