(* ===== verification/AgentTask.thy ===== *)
theory AgentTask
  imports BrokerState CodexRuntime ClaudeRuntime
begin

text \<open>
  The whole task behind an agent, \<open>spawn_agent\<close>, \<open>run_codex\<close> and \<open>run_claude\<close> in \<open>runtime.rs\<close>: the
  start, then the loop over what happens to it.  The result is what the task has reported to the
  broker and whether it still runs.  And what the broker relies on: every request the task takes is
  answered exactly once, in the order in which they were taken.
\<close>

text \<open>What a task finds outside: the spawned process, if it could be started, and a fresh nonce.\<close>

record TaskEnv =
  te_codec :: codec
  te_uuid :: "nat \<Rightarrow> string"
  te_stamp :: "nat \<Rightarrow> string"
  te_clock :: "nat \<Rightarrow> nat"
  te_nonce :: string
  te_resolve :: "string \<Rightarrow> string option"
  te_process :: "Peer option"
  te_listening :: bool

definition rt_env :: "TaskEnv \<Rightarrow> AgentSpawn \<Rightarrow> nat \<Rightarrow> RtEnv" where
  "rt_env te spawn callback_timeout =
    \<lparr>re_codec = te_codec te, re_agent = an_agent_id spawn, re_cwd = an_cwd spawn, re_uuid = te_uuid te,
     re_stamp = te_stamp te, re_clock = te_clock te, re_timeout = callback_timeout\<rparr>"

definition run_codex ::
  "TaskEnv \<Rightarrow> AgentSpawn \<Rightarrow> CommandSpec \<Rightarrow> nat \<Rightarrow> task_input list \<Rightarrow> RuntimeEvent list \<times> bool" where
  "run_codex te spawn spec callback_timeout inputs =
    (let env = rt_env te spawn callback_timeout in
     case codex_start env (te_resolve te) (cs_program spec) (an_start_request_id spawn) (an_launch spawn)
         (an_provider_options spawn) (te_process te) (te_listening te) of
       (s, None) \<Rightarrow> (tk_events s, False)
     | (s, Some session) \<Rightarrow> apfst tk_events (codex_loop env session inputs s))"

definition run_claude ::
  "TaskEnv \<Rightarrow> AgentSpawn \<Rightarrow> string list \<Rightarrow> nat \<Rightarrow> task_input list \<Rightarrow> RuntimeEvent list \<times> bool" where
  "run_claude te spawn setting_sources callback_timeout inputs =
    (let env = rt_env te spawn callback_timeout in
     case claude_start env (te_nonce te) setting_sources (an_start_request_id spawn) (an_launch spawn)
         (an_provider_options spawn) (te_process te) (te_listening te) of
       (s, None) \<Rightarrow> (tk_events s, False)
     | (s, Some session) \<Rightarrow> apfst tk_events (claude_loop env session inputs s))"

definition spawn_agent ::
  "TaskEnv \<Rightarrow> AgentSpawn \<Rightarrow> RuntimeConfig \<Rightarrow> task_input list \<Rightarrow> RuntimeEvent list \<times> bool" where
  "spawn_agent te spawn config inputs =
    (case an_provider spawn of
       Codex \<Rightarrow> run_codex te spawn (rc_codex config) (rc_callback_timeout config) inputs
     | Claude \<Rightarrow> run_claude te spawn (rc_claude_setting_sources config) (rc_callback_timeout config) inputs)"

section \<open>Answers\<close>

text \<open>The request a report answers, and the request a command makes.\<close>

definition answer_id :: "RuntimeEvent \<Rightarrow> RequestId option" where
  "answer_id e = (case e of
     EvStarted i _ _ _ \<Rightarrow> Some i
   | EvResponse i _ \<Rightarrow> Some i
   | EvRequestFailed i _ _ _ _ \<Rightarrow> Some i
   | _ \<Rightarrow> None)"

lemma answer_id_simps [simp]:
  "answer_id (EvStarted i a p r) = Some i" "answer_id (EvResponse i j) = Some i"
  "answer_id (EvRequestFailed i a c m b) = Some i" "answer_id (EvProvider v) = None"
  "answer_id (EvProviderFailed a m) = None" "answer_id (EvStopped a) = None"
  by (simp_all add: answer_id_def)

definition command_request :: "AgentCommand \<Rightarrow> RequestId option" where
  "command_request command = (case command of
     CmdPrompt i _ _ _ \<Rightarrow> Some i
   | CmdSteer i _ _ \<Rightarrow> Some i
   | CmdInterrupt i \<Rightarrow> Some i
   | CmdHistory i _ _ \<Rightarrow> Some i
   | CmdApproval i _ _ _ _ \<Rightarrow> Some i
   | CmdQuestion i _ _ _ _ \<Rightarrow> Some i
   | CmdClientDisconnected \<Rightarrow> None
   | CmdShutdown \<Rightarrow> None)"

definition input_request :: "task_input \<Rightarrow> RequestId option" where
  "input_request x = (case x of InCommand command \<Rightarrow> command_request command | _ \<Rightarrow> None)"

lemma input_request_simps [simp]:
  "input_request (InCommand command) = command_request command" "input_request InCommandsClosed = None"
  "input_request InProvider = None" "input_request InDeadline = None" "input_request (InReadDropped n) = None"
  by (simp_all add: input_request_def)

definition answers :: "RuntimeEvent list \<Rightarrow> RequestId list" where
  "answers es = filter_map answer_id es"

lemma answers_simps [simp]: "answers [] = []" "answers (es @ fs) = answers es @ answers fs"
  by (simp_all add: answers_def)

text \<open>A report that the agent has started comes before every other answer.\<close>

definition is_start :: "RuntimeEvent \<Rightarrow> bool" where
  "is_start e = (case e of EvStarted _ _ _ _ \<Rightarrow> True | _ \<Rightarrow> False)"

lemma is_start_simps [simp]:
  "is_start (EvStarted i a p r)" "\<not> is_start (EvResponse i j)" "\<not> is_start (EvRequestFailed i a c m b)"
  "\<not> is_start (EvProvider v)" "\<not> is_start (EvProviderFailed a m)" "\<not> is_start (EvStopped a)"
  by (simp_all add: is_start_def)

definition starts_first :: "RuntimeEvent list \<Rightarrow> bool" where
  "starts_first es = (\<forall>n<length es. is_start (es ! n) \<longrightarrow> answers (take n es) = [])"

lemma starts_first_Nil [simp]: "starts_first []"
  by (simp add: starts_first_def)

lemma starts_first_snoc:
  "starts_first (es @ [e]) \<longleftrightarrow> starts_first es \<and> (is_start e \<longrightarrow> answers es = [])"
  unfolding starts_first_def by (auto simp: less_Suc_eq nth_append)

lemma late_answer:
  assumes "starts_first es" and "answers es = i # ids" and "e \<in> set es" and "answer_id e = Some k" and "k \<noteq> i"
  shows "\<not> is_start e"
proof
  assume start: "is_start e"
  obtain n where n: "n < length es" "es ! n = e"
    using assms(3) by (auto simp: in_set_conv_nth)
  then have "answers (take n es) = []"
    using assms(1) start by (auto simp: starts_first_def)
  moreover have "es = take n es @ e # drop (Suc n) es"
    using n id_take_nth_drop by metis
  ultimately have "answers es = k # answers (drop (Suc n) es)"
    using assms(4) by (metis answers_def answers_simps(2) append_Nil filter_map.simps(2) option.simps(5))
  then show False
    using assms(2,5) by simp
qed

text \<open>The task is heard, and has answered exactly \<open>ids\<close>.\<close>

definition answered :: "RequestId list \<Rightarrow> 'p Task \<Rightarrow> bool" where
  "answered ids s = (tk_listening s \<and> answers (tk_events s) = ids \<and> starts_first (tk_events s))"

lemma answered_fields [simp]:
  "answered ids (s\<lparr>tk_peer := p\<rparr>) = answered ids s" "answered ids (s\<lparr>tk_turn := t\<rparr>) = answered ids s"
  "answered ids (s\<lparr>tk_ticks := n\<rparr>) = answered ids s" "answered ids (s\<lparr>tk_pending := m\<rparr>) = answered ids s"
  by (simp_all add: answered_def)

lemma answered_new [simp]: "answered [] (new_task p True)"
  by (simp add: answered_def new_task_def)

lemma answered_emit:
  "answer_id e = None \<Longrightarrow> answered ids (emit e s) = answered ids s"
  "answer_id e = Some i \<Longrightarrow> \<not> is_start e \<Longrightarrow> answered (ids @ [i]) (emit e s) = answered ids s"
proof -
  have "answer_id e = None \<Longrightarrow> \<not> is_start e"
    by (auto simp: answer_id_def is_start_def split: RuntimeEvent.splits)
  then show "answer_id e = None \<Longrightarrow> answered ids (emit e s) = answered ids s"
    by (auto simp: answered_def emit_def answers_def starts_first_snoc)
qed (auto simp: answered_def emit_def answers_def starts_first_snoc)

text \<open>Reports that answer, and reports that answer nothing.\<close>

lemma answering [simp]:
  "answered (ids @ [i]) (respond_ok i r s) = answered ids s"
  "answered (ids @ [i]) (request_failed env i c m s) = answered ids s"
  "answered (ids @ [i]) (request_rejected env i m s) = answered ids s"
  "answered (ids @ [i]) (start_failed env i m s) = answered ids s"
  by (simp_all add: respond_ok_def request_failed_def request_rejected_def start_failed_def answered_emit(2))

lemma not_answering [simp]:
  "answered ids (provider_failed env m s) = answered ids s" "answered ids (runtime_stopped env s) = answered ids s"
  "answered ids (emit (EvProvider v) s) = answered ids s" "answered ids (emit_stamped env mk s) = answered ids s"
  by (simp_all add: provider_failed_def runtime_stopped_def emit_stamped_def answered_emit(1))

section \<open>The Codex task\<close>

lemma answered_publish_codex:
  "answered ids s \<Longrightarrow> publish_codex_event env event s = (r, s') \<Longrightarrow> answered ids s'"
  by (auto simp: publish_codex_event_def publish_normalized_def Let_def
      split: if_splits option.splits sum.splits prod.splits)

lemma answered_publish_codex_all:
  "answered ids s \<Longrightarrow> publish_codex_events env events s = (r, s') \<Longrightarrow> answered ids s'"
proof (induction events arbitrary: s r)
  case (Cons event events)
  obtain x s1 where p: "publish_codex_event env event s = (x, s1)" by fastforce
  have "answered ids s1" by (rule answered_publish_codex [OF Cons.prems(1) p])
  then show ?case
    using Cons p by (fastforce split: sum.splits prod.splits)
qed simp

lemma answered_after_codex:
  "answered ids s \<Longrightarrow> codex_after_call env events m s = (s', c) \<Longrightarrow> answered ids s'"
  by (auto simp: codex_after_call_def dest: answered_publish_codex_all [rotated]
      split: sum.splits prod.splits bool.splits)

lemma answered_deny_codex: "deny_one_codex env reason i s = (ok, s') \<Longrightarrow> answered ids s' = answered ids s"
  by (auto simp: deny_one_codex_def split: option.splits prod.splits)

lemma answered_deny_list_codex: "deny_list_codex env reason js s = (ok, s') \<Longrightarrow> answered ids s' = answered ids s"
  by (induction env reason js s arbitrary: ok s' rule: deny_list_codex.induct)
    (auto simp: answered_deny_codex split: prod.splits)

lemma answered_deny_all_codex:
  "deny_all_codex_requests env reason s = (ok, s') \<Longrightarrow> answered ids s' = answered ids s"
  by (simp add: deny_all_codex_requests_def answered_deny_list_codex)

lemma answered_expire_codex: "expire_codex_requests env s = (ok, s') \<Longrightarrow> answered ids s' = answered ids s"
  by (auto simp: expire_codex_requests_def Let_def dest: answered_deny_list_codex [where ids = ids])

lemma answered_finish_codex:
  "answered ids s \<Longrightarrow> answered (ids @ [i]) (finish_codex_response env i a d k pending result m s)"
  by (auto simp: finish_codex_response_def Let_def split: sum.split prod.split)

lemma answered_codex_command:
  assumes "answered ids s" and "codex_command env session command s = (s', c)"
  shows "answered (ids @ filter_map command_request [command]) s'"
proof (cases command)
  case (CmdPrompt i t attachments options)
  then show ?thesis
    using assms by (auto simp: codex_command_def codex_prompt_def command_request_def Let_def
        intro: answered_after_codex [rotated] split: if_splits sum.splits prod.splits option.splits)
next
  case (CmdSteer i t attachments)
  then show ?thesis
    using assms by (auto simp: codex_command_def codex_steer_command_def command_request_def Let_def
        intro: answered_after_codex [rotated] split: sum.splits prod.splits option.splits)
next
  case (CmdInterrupt i)
  then show ?thesis
    using assms by (auto simp: codex_command_def codex_interrupt_def command_request_def Let_def
        dest!: answered_deny_all_codex [where ids = ids] intro: answered_after_codex [rotated]
        split: sum.splits prod.splits option.splits bool.splits)
next
  case (CmdHistory i cursor limit)
  then show ?thesis
    using assms by (auto simp: codex_command_def codex_history_command_def command_request_def
        split: sum.splits prod.splits)
next
  case (CmdApproval i a d u m)
  then show ?thesis
    using assms by (auto simp: codex_command_def respond_codex_approval_def command_request_def
        intro: answered_finish_codex split: sum.splits option.splits)
next
  case (CmdQuestion i a d u m)
  then show ?thesis
    using assms by (auto simp: codex_command_def respond_codex_question_def command_request_def
        intro: answered_finish_codex split: sum.splits option.splits)
next
  case CmdClientDisconnected
  then show ?thesis
    using assms by (auto simp: codex_command_def command_request_def
        dest!: answered_deny_all_codex [where ids = ids] split: prod.splits bool.splits)
next
  case CmdShutdown
  then show ?thesis
    using assms by (cases "deny_all_codex_requests env ''shutdown'' s")
      (auto simp: codex_command_def command_request_def answered_deny_all_codex)
qed

lemma answered_codex_round:
  assumes "answered ids s" and "codex_round env session x s = (s', c)"
  shows "answered (ids @ filter_map input_request [x]) s'"
proof (cases x)
  case (InCommand command)
  then show ?thesis
    using assms(2) answered_codex_command [OF assms(1), of env session command s' c]
    by (simp add: codex_round_def split: option.splits)
next
  case InProvider
  then show ?thesis
    using assms by (auto simp: codex_round_def
        dest: answered_publish_codex [rotated] split: if_splits sum.splits prod.splits bool.splits)
next
  case InDeadline
  then show ?thesis
    using assms by (auto simp: codex_round_def
        dest: answered_expire_codex [where ids = ids] split: if_splits prod.splits bool.splits)
qed (use assms in \<open>auto simp: codex_round_def split: if_splits\<close>)

section \<open>The Claude task\<close>

lemma answered_worker_normalized:
  "publish_worker_normalized env inbound s = (t, s') \<Longrightarrow> answered ids s' = answered ids s"
  by (auto simp: publish_worker_normalized_def)

lemma answered_publish_worker:
  assumes "answered ids s" and "publish_worker_event env inbound s = (r, s')"
  shows "answered ids s'"
proof (cases "wi_id inbound")
  case None
  then show ?thesis
    using assms by (cases "publish_worker_normalized env inbound s")
      (auto simp: publish_worker_event_def answered_worker_normalized)
next
  case (Some callback)
  have n: "publish_worker_normalized env inbound (s\<lparr>tk_ticks := m, tk_peer := p\<rparr>) = (t, s1) \<Longrightarrow> answered ids s1"
    for m p t s1
    using assms(1) by (simp add: answered_worker_normalized)
  show ?thesis
    using assms Some by (auto simp: publish_worker_event_def Let_def apfst_def map_prod_def dest: n
        split: option.splits sum.splits prod.splits)
qed

lemma answered_publish_inbound:
  "answered ids s \<Longrightarrow> publish_worker_inbound env events s = (r, s') \<Longrightarrow> answered ids s'"
proof (induction events arbitrary: s r)
  case (Cons event events)
  obtain x s1 where p: "publish_worker_event env event s = (x, s1)" by fastforce
  have "answered ids s1" by (rule answered_publish_worker [OF Cons.prems(1) p])
  then show ?case
    using Cons p by (fastforce split: sum.splits prod.splits)
qed simp

lemma answered_after_claude:
  "answered ids s \<Longrightarrow> claude_after_call env events m s = (s', c) \<Longrightarrow> answered ids s'"
  by (auto simp: claude_after_call_def dest: answered_publish_inbound [rotated] split: sum.splits prod.splits bool.splits)

lemma answered_deny_worker: "deny_one_worker env reason m i s = (ok, s') \<Longrightarrow> answered ids s' = answered ids s"
  by (auto simp: deny_one_worker_def split: option.splits prod.splits)

lemma answered_deny_list_worker: "deny_list_worker env reason m js s = (ok, s') \<Longrightarrow> answered ids s' = answered ids s"
  by (induction env reason m js s arbitrary: ok s' rule: deny_list_worker.induct)
    (auto simp: answered_deny_worker split: prod.splits)

lemma answered_deny_all_worker:
  "deny_all_worker_requests env reason s = (ok, s') \<Longrightarrow> answered ids s' = answered ids s"
  by (simp add: deny_all_worker_requests_def answered_deny_list_worker)

lemma answered_expire_worker: "expire_worker_requests env s = (ok, s') \<Longrightarrow> answered ids s' = answered ids s"
  by (auto simp: expire_worker_requests_def Let_def dest: answered_deny_list_worker [where ids = ids])

lemma answered_finish_worker:
  "answered ids s \<Longrightarrow> answered (ids @ [i]) (finish_worker_response env i a d k pending result m s)"
  by (auto simp: finish_worker_response_def Let_def split: option.split sum.split prod.split)

lemma answered_claude_command:
  assumes "answered ids s" and "claude_command env session command s = (s', c)"
  shows "answered (ids @ filter_map command_request [command]) s'"
proof (cases command)
  case (CmdPrompt i t attachments options)
  then show ?thesis
    using assms by (auto simp: claude_command_def claude_prompt_def command_request_def Let_def
        intro: answered_after_claude [rotated] split: if_splits sum.splits prod.splits)
next
  case (CmdSteer i t attachments)
  then show ?thesis
    using assms by (auto simp: claude_command_def claude_steer_def command_request_def Let_def
        intro: answered_after_claude [rotated] split: if_splits sum.splits prod.splits)
next
  case (CmdInterrupt i)
  then show ?thesis
    using assms by (auto simp: claude_command_def claude_interrupt_def command_request_def Let_def
        dest!: answered_deny_all_worker [where ids = ids] intro: answered_after_claude [rotated]
        split: if_splits sum.splits prod.splits bool.splits)
next
  case (CmdHistory i cursor limit)
  then show ?thesis
    using assms by (auto simp: claude_command_def claude_history_command_def command_request_def Let_def
        split: sum.splits prod.splits)
next
  case (CmdApproval i a d u m)
  then show ?thesis
    using assms by (auto simp: claude_command_def respond_worker_approval_def command_request_def
        intro: answered_finish_worker split: sum.splits option.splits)
next
  case (CmdQuestion i a d u m)
  then show ?thesis
    using assms by (auto simp: claude_command_def respond_worker_question_def command_request_def
        intro: answered_finish_worker split: sum.splits option.splits)
next
  case CmdClientDisconnected
  then show ?thesis
    using assms by (auto simp: claude_command_def command_request_def
        dest!: answered_deny_all_worker [where ids = ids] split: prod.splits bool.splits)
next
  case CmdShutdown
  then show ?thesis
    using assms by (cases "deny_all_worker_requests env ''shutdown'' s")
      (auto simp: claude_command_def command_request_def answered_deny_all_worker)
qed

lemma answered_claude_round:
  assumes "answered ids s" and "claude_round env session x s = (s', c)"
  shows "answered (ids @ filter_map input_request [x]) s'"
proof (cases x)
  case (InCommand command)
  then show ?thesis
    using assms(2) answered_claude_command [OF assms(1), of env session command s' c]
    by (simp add: claude_round_def split: option.splits)
next
  case InProvider
  then show ?thesis
    using assms by (auto simp: claude_round_def
        dest: answered_publish_worker [rotated] split: if_splits sum.splits prod.splits bool.splits)
next
  case InDeadline
  then show ?thesis
    using assms by (auto simp: claude_round_def
        dest: answered_expire_worker [where ids = ids] split: if_splits prod.splits bool.splits)
qed (use assms in \<open>auto simp: claude_round_def split: if_splits\<close>)

section \<open>The loop answers what it takes\<close>

text \<open>Refusing what is pending only adds reports.\<close>

definition grown :: "'p Task \<Rightarrow> 'p Task \<Rightarrow> bool" where
  "grown s s' = (set (tk_events s) \<subseteq> set (tk_events s'))"

lemma grown_trans: "grown s s1 \<Longrightarrow> grown s1 s2 \<Longrightarrow> grown s s2"
  by (auto simp: grown_def)

lemma grown_emit: "grown s (emit e (s\<lparr>tk_peer := p, tk_pending := m\<rparr>))" "grown s (emit e s)"
  "grown s (emit_stamped env mk (s\<lparr>tk_peer := p, tk_pending := m\<rparr>))" "grown s (emit_stamped env mk (s\<lparr>tk_pending := m\<rparr>))"
  by (auto simp: grown_def emit_def emit_stamped_def)

lemma grown_deny_codex: "deny_list_codex env reason js s = (ok, s') \<Longrightarrow> grown s s'"
proof (induction js arbitrary: s ok)
  case (Cons i js)
  obtain ok1 s1 where d: "deny_one_codex env reason i s = (ok1, s1)" by fastforce
  have "grown s s1"
    using d by (auto simp: deny_one_codex_def grown_emit split: option.splits prod.splits) (simp add: grown_def)
  with Cons d show ?case by (auto intro: grown_trans split: prod.splits)
qed (simp add: grown_def)

lemma grown_deny_worker: "deny_list_worker env reason m js s = (ok, s') \<Longrightarrow> grown s s'"
proof (induction js arbitrary: s ok)
  case (Cons i js)
  obtain ok1 s1 where d: "deny_one_worker env reason m i s = (ok1, s1)" by fastforce
  have "grown s s1"
    using d by (auto simp: deny_one_worker_def grown_emit split: option.splits prod.splits) (simp add: grown_def)
  with Cons d show ?case by (auto intro: grown_trans split: prod.splits)
qed (simp add: grown_def)

definition provider_gone :: "string \<Rightarrow> RuntimeEvent list \<Rightarrow> bool" where
  "provider_gone agent reports = (\<exists>m. EvProviderFailed agent m \<in> set reports)"

lemma failed_gone: "answered ids s \<Longrightarrow> provider_gone (re_agent env) (tk_events (provider_failed env m s))"
  by (auto simp: provider_gone_def provider_failed_def emit_def answered_def)

lemma gone_grown: "provider_gone agent (tk_events s) \<Longrightarrow> grown s s' \<Longrightarrow> provider_gone agent (tk_events s')"
  by (auto simp: provider_gone_def grown_def)

text \<open>
  What both tasks promise: a round answers its own request and no other, and ends the task only when
  it was told to or after reporting that the provider is gone; the epilogue answers nothing, and its
  last report is the end of the task.
\<close>

locale answering_task =
  fixes round :: "task_input \<Rightarrow> 'p Task \<Rightarrow> 'p Task \<times> bool"
    and epilogue :: "'p Task \<Rightarrow> 'p Task"
    and agent :: string
  assumes round_answers: "answered ids s \<Longrightarrow> round x s = (s', c) \<Longrightarrow> answered (ids @ filter_map input_request [x]) s'"
    and round_ends: "answered ids s \<Longrightarrow> round x s = (s', False) \<Longrightarrow>
      x \<in> {InCommandsClosed, InCommand CmdShutdown} \<or> provider_gone agent (tk_events s')"
    and epilogue_answers: "answered ids (epilogue s) = answered ids s"
    and epilogue_stops: "answered ids s \<Longrightarrow> \<exists>es. tk_events (epilogue s) = es @ [EvStopped agent]"
    and epilogue_grows: "grown s (epilogue s)"
begin

lemma loop_answers:
  assumes "answered ids s" and "task_loop round epilogue inputs s = (s', running)"
  shows "\<exists>taken rest. inputs = taken @ rest \<and> (running \<longrightarrow> rest = [])
    \<and> answered (ids @ filter_map input_request taken) s'
    \<and> (\<not> running \<longrightarrow> (\<exists>es. tk_events s' = es @ [EvStopped agent])
        \<and> (provider_gone agent (tk_events s') \<or> taken \<noteq> [] \<and> last taken \<in> {InCommandsClosed, InCommand CmdShutdown}))"
  using assms
proof (induction inputs arbitrary: ids s)
  case (Cons x inputs)
  obtain s1 c where r: "round x s = (s1, c)" by fastforce
  have a: "answered (ids @ filter_map input_request [x]) s1"
    by (rule round_answers [OF Cons.prems(1) r])
  show ?case
  proof (cases c)
    case True
    then have "task_loop round epilogue inputs s1 = (s', running)"
      using Cons.prems(2) r by simp
    from Cons.IH [OF a this] obtain taken rest where "inputs = taken @ rest" "running \<longrightarrow> rest = []"
      "answered ((ids @ filter_map input_request [x]) @ filter_map input_request taken) s'"
      "\<not> running \<longrightarrow> (\<exists>es. tk_events s' = es @ [EvStopped agent])
        \<and> (provider_gone agent (tk_events s') \<or> taken \<noteq> [] \<and> last taken \<in> {InCommandsClosed, InCommand CmdShutdown})"
      by blast
    then show ?thesis
      by (intro exI [of _ "x # taken"] exI [of _ rest]) (auto split: option.splits)
  next
    case False
    then have e: "s' = epilogue s1" "\<not> running" "round x s = (s1, False)"
      using Cons.prems(2) r by auto
    have "x \<in> {InCommandsClosed, InCommand CmdShutdown} \<or> provider_gone agent (tk_events s')"
      using round_ends [OF Cons.prems(1) e(3)] gone_grown [OF _ epilogue_grows] e(1) by blast
    then show ?thesis
      using a e epilogue_answers epilogue_stops [OF a] by (intro exI [of _ "[x]"] exI [of _ inputs]) auto
  qed
qed simp

end

lemma stopped_last: "answered ids s \<Longrightarrow> tk_events (runtime_stopped env s) = tk_events s @ [EvStopped (re_agent env)]"
  by (simp add: answered_def runtime_stopped_def emit_def)

lemma answered_codex_finish: "answered ids (codex_finish env s) = answered ids s"
  by (cases "deny_all_codex_requests env ''provider_exit'' s") (simp add: codex_finish_def answered_deny_all_codex)

lemma answered_claude_finish: "answered ids (claude_finish env s) = answered ids s"
  by (cases "deny_all_worker_requests env ''provider_exit'' s") (simp add: claude_finish_def answered_deny_all_worker)

lemma grown_codex_finish: "grown s (codex_finish env s)"
  by (cases "deny_all_codex_requests env ''provider_exit'' s")
    (auto simp: codex_finish_def deny_all_codex_requests_def runtime_stopped_def
      intro: grown_trans [OF grown_deny_codex grown_emit(2)])

lemma grown_claude_finish: "grown s (claude_finish env s)"
  by (cases "deny_all_worker_requests env ''provider_exit'' s")
    (auto simp: claude_finish_def deny_all_worker_requests_def runtime_stopped_def
      intro: grown_trans [OF grown_deny_worker grown_emit(2)])

text \<open>A round ends the task for a reason.\<close>

lemma codex_after_ends:
  assumes "answered ids s" and "codex_after_call env events m s = (s', False)"
  shows "provider_gone (re_agent env) (tk_events s')"
proof -
  obtain r s1 where p: "publish_codex_events env events s = (r, s1)" by fastforce
  with assms(2) have "s' = provider_failed env m s1"
    by (auto simp: codex_after_call_def split: sum.splits bool.splits)
  then show ?thesis
    using failed_gone [OF answered_publish_codex_all [OF assms(1) p]] by simp
qed

lemma codex_command_ends:
  assumes "answered ids s" and "codex_command env session command s = (s', False)"
  shows "command = CmdShutdown \<or> provider_gone (re_agent env) (tk_events s')"
proof -
  have call: "answered ids t \<Longrightarrow> codex_after_call env events m (respond_ok i r t\<lparr>tk_turn := turn\<rparr>) = (s', False) \<Longrightarrow> provider_gone (re_agent env) (tk_events s')"
    "answered ids t \<Longrightarrow> codex_after_call env events m (respond_ok i r t) = (s', False) \<Longrightarrow> provider_gone (re_agent env) (tk_events s')"
    for t i r turn events m
    by (erule codex_after_ends [of "ids @ [i]", rotated], simp)+
  have denied: "deny_all_codex_requests env reason s = (ok, s1) \<Longrightarrow> answered ids s1" for reason ok s1
    using assms(1) by (simp add: answered_deny_all_codex)
  show ?thesis
    using assms
    by (cases command)
      (auto simp: codex_command_def codex_prompt_def codex_steer_command_def codex_interrupt_def codex_history_command_def
        Let_def dest!: denied intro: failed_gone elim!: call [rotated]
        split: if_splits sum.splits prod.splits option.splits bool.splits)
qed

lemma codex_round_ends:
  assumes "answered ids s" and "codex_round env session x s = (s', False)"
  shows "x \<in> {InCommandsClosed, InCommand CmdShutdown} \<or> provider_gone (re_agent env) (tk_events s')"
proof (cases x)
  case (InCommand command)
  then show ?thesis
    using assms(2) codex_command_ends [OF assms(1), of env session command s'] by (auto simp: codex_round_def)
next
  case InProvider
  then show ?thesis
    using assms by (auto simp: codex_round_def intro!: failed_gone
        dest: answered_publish_codex [rotated] split: if_splits sum.splits prod.splits bool.splits)
next
  case InDeadline
  then show ?thesis
    using assms by (auto simp: codex_round_def intro!: failed_gone
        dest: answered_expire_codex [where ids = ids] split: if_splits prod.splits bool.splits)
qed (use assms in \<open>auto simp: codex_round_def split: if_splits\<close>)

lemma claude_after_ends:
  assumes "answered ids s" and "claude_after_call env events m s = (s', False)"
  shows "provider_gone (re_agent env) (tk_events s')"
proof -
  obtain r s1 where p: "publish_worker_inbound env events s = (r, s1)" by fastforce
  with assms(2) have "s' = provider_failed env m s1"
    by (auto simp: claude_after_call_def split: sum.splits bool.splits)
  then show ?thesis
    using failed_gone [OF answered_publish_inbound [OF assms(1) p]] by simp
qed

lemma claude_command_ends:
  assumes "answered ids s" and "claude_command env session command s = (s', False)"
  shows "command = CmdShutdown \<or> provider_gone (re_agent env) (tk_events s')"
proof -
  have call: "answered ids t \<Longrightarrow> claude_after_call env events m (respond_ok i r t) = (s', False) \<Longrightarrow> provider_gone (re_agent env) (tk_events s')"
    "answered ids t \<Longrightarrow> claude_after_call env events m (emit_stamped env mk (respond_ok i r t\<lparr>tk_turn := turn\<rparr>)) = (s', False)
      \<Longrightarrow> provider_gone (re_agent env) (tk_events s')"
    for t i r turn events m mk
    by (erule claude_after_ends [of "ids @ [i]", rotated], simp)+
  have denied: "deny_all_worker_requests env reason s = (ok, s1) \<Longrightarrow> answered ids s1" for reason ok s1
    using assms(1) by (simp add: answered_deny_all_worker)
  show ?thesis
    using assms
    by (cases command)
      (auto simp: claude_command_def claude_prompt_def claude_steer_def claude_interrupt_def claude_history_command_def
        Let_def dest!: denied intro: failed_gone elim!: call [rotated]
        split: if_splits sum.splits prod.splits bool.splits)
qed

lemma claude_round_ends:
  assumes "answered ids s" and "claude_round env session x s = (s', False)"
  shows "x \<in> {InCommandsClosed, InCommand CmdShutdown} \<or> provider_gone (re_agent env) (tk_events s')"
proof (cases x)
  case (InCommand command)
  then show ?thesis
    using assms(2) claude_command_ends [OF assms(1), of env session command s'] by (auto simp: claude_round_def)
next
  case InProvider
  then show ?thesis
    using assms by (auto simp: claude_round_def intro!: failed_gone
        dest: answered_publish_worker [rotated] split: if_splits sum.splits prod.splits bool.splits)
next
  case InDeadline
  then show ?thesis
    using assms by (auto simp: claude_round_def intro!: failed_gone
        dest: answered_expire_worker [where ids = ids] split: if_splits prod.splits bool.splits)
qed (use assms in \<open>auto simp: claude_round_def split: if_splits\<close>)

interpretation codex_answers: answering_task "codex_round env session" "codex_finish env" "re_agent env" for env session
proof
  fix ids and s :: codex_task
  assume "answered ids s"
  then have "answered ids (snd (deny_all_codex_requests env ''provider_exit'' s))"
    by (cases "deny_all_codex_requests env ''provider_exit'' s") (simp add: answered_deny_all_codex)
  then show "\<exists>es. tk_events (codex_finish env s) = es @ [EvStopped (re_agent env)]"
    using stopped_last by (auto simp: codex_finish_def)
qed (simp_all only: answered_codex_round codex_round_ends answered_codex_finish grown_codex_finish)

interpretation claude_answers: answering_task "claude_round env session" "claude_finish env" "re_agent env" for env session
proof
  fix ids and s :: claude_task
  assume "answered ids s"
  then have "answered ids (snd (deny_all_worker_requests env ''provider_exit'' s))"
    by (cases "deny_all_worker_requests env ''provider_exit'' s") (simp add: answered_deny_all_worker)
  then show "\<exists>es. tk_events (claude_finish env s) = es @ [EvStopped (re_agent env)]"
    using stopped_last by (auto simp: claude_finish_def)
qed (simp_all only: answered_claude_round claude_round_ends answered_claude_finish grown_claude_finish)

section \<open>The whole task\<close>

text \<open>How a start ends: with an answer, and either in the loop or with the end of the task.\<close>

definition start_refused :: "RequestId \<Rightarrow> string \<Rightarrow> RuntimeEvent list \<Rightarrow> bool" where
  "start_refused i agent reports = (\<exists>c m. EvRequestFailed i agent c m True \<in> set reports)"

definition started_well :: "RequestId \<Rightarrow> string \<Rightarrow> 'p Task \<times> string option \<Rightarrow> bool" where
  "started_well i agent r =
    (answered [i] (fst r)
     \<and> (snd r = None \<longrightarrow> (\<exists>es. tk_events (fst r) = es @ [EvStopped agent])
         \<and> (start_refused i agent (tk_events (fst r)) \<or> provider_gone agent (tk_events (fst r)))))"

lemma abort_start_well: "started_well i (re_agent env) (abort_start env i m (new_task p True))"
  using answering(4) [of "[]" i env m "new_task p True"]
  by (auto simp: started_well_def abort_start_def start_refused_def stopped_last)
    (auto simp: start_failed_def request_failed_def emit_def new_task_def)

lemma failed_start_well:
  "answered [i] s \<Longrightarrow> started_well i (re_agent env) (runtime_stopped env (provider_failed env m s), None)"
  using failed_gone [of "[i]" s env m]
  by (auto simp: started_well_def stopped_last [of "[i]"] provider_gone_def)

lemma answered_started: "answered [i] (emit (EvStarted i a sid rt) (new_task p True))"
  by (simp add: answered_def emit_def new_task_def answers_def starts_first_def)

lemma codex_start_well:
  "started_well i (re_agent env) (codex_start env resolve program i launch options spawned True)"
proof -
  have events: "publish_codex_events env es (emit (EvStarted i a sid rt) (new_task p True)) = (r, s) \<Longrightarrow> answered [i] s"
    for es a sid rt p r s
    by (rule answered_publish_codex_all [OF answered_started])
  have ok: "answered [i] s \<Longrightarrow> started_well i (re_agent env) (s, Some sid)" for s :: codex_task and sid
    by (simp add: started_well_def)
  show ?thesis
    by (auto simp: codex_start_def Let_def abort_start_well dest!: events intro!: failed_start_well ok
        split: option.split sum.split prod.split)
qed

lemma claude_start_well:
  "started_well i (re_agent env) (claude_start env nonce sources i launch options spawned True)"
proof -
  have events: "publish_worker_inbound env es (emit (EvStarted i a sid rt) (new_task p True)) = (r, s) \<Longrightarrow> answered [i] s"
    for es a sid rt p r s
    by (rule answered_publish_inbound [OF answered_started])
  have ok: "answered [i] s \<Longrightarrow> started_well i (re_agent env) (s, Some sid)" for s :: claude_task and sid
    by (simp add: started_well_def)
  show ?thesis
    by (auto simp: claude_start_def Let_def abort_start_well dest!: events intro!: failed_start_well ok
        split: option.split sum.split prod.split)
qed

text \<open>What both kinds of task come to, in one shape.\<close>

definition task_answers :: "AgentSpawn \<Rightarrow> task_input list \<Rightarrow> RuntimeEvent list \<times> bool \<Rightarrow> bool" where
  "task_answers spawn inputs r =
    (\<exists>taken rest. inputs = taken @ rest \<and> (snd r \<longrightarrow> rest = [])
      \<and> answers (fst r) = an_start_request_id spawn # filter_map input_request taken \<and> starts_first (fst r)
      \<and> (\<not> snd r \<longrightarrow> (\<exists>es. fst r = es @ [EvStopped (an_agent_id spawn)])
          \<and> (start_refused (an_start_request_id spawn) (an_agent_id spawn) (fst r)
             \<or> provider_gone (an_agent_id spawn) (fst r)
             \<or> taken \<noteq> [] \<and> last taken \<in> {InCommandsClosed, InCommand CmdShutdown})))"

lemma task_answers_start:
  "started_well (an_start_request_id spawn) (an_agent_id spawn) (s, None) \<Longrightarrow> task_answers spawn inputs (tk_events s, False)"
  unfolding task_answers_def
  by (rule exI [of _ "[]"], rule exI [of _ inputs]) (auto simp: started_well_def answered_def)

lemma run_codex_answers: "te_listening te \<Longrightarrow> task_answers spawn inputs (run_codex te spawn spec timeout inputs)"
proof -
  let ?env = "rt_env te spawn timeout"
  assume l: "te_listening te"
  obtain s session where st: "codex_start ?env (te_resolve te) (cs_program spec) (an_start_request_id spawn) (an_launch spawn)
      (an_provider_options spawn) (te_process te) True = (s, session)" by fastforce
  have agent: "re_agent ?env = an_agent_id spawn"
    by (simp add: rt_env_def)
  have well: "started_well (an_start_request_id spawn) (an_agent_id spawn) (s, session)"
    using codex_start_well [of "an_start_request_id spawn" ?env] st agent by metis
  show ?thesis
  proof (cases session)
    case None
    then show ?thesis
      using l st well task_answers_start by (simp add: run_codex_def)
  next
    case (Some sid)
    obtain s' running where r: "codex_loop ?env sid inputs s = (s', running)" by fastforce
    have "answered [an_start_request_id spawn] s"
      using well by (simp add: started_well_def)
    from codex_answers.loop_answers [OF this r [unfolded codex_loop_def]] show ?thesis
      using l st Some r by (auto simp: run_codex_def task_answers_def answered_def agent)
  qed
qed

lemma run_claude_answers: "te_listening te \<Longrightarrow> task_answers spawn inputs (run_claude te spawn sources timeout inputs)"
proof -
  let ?env = "rt_env te spawn timeout"
  assume l: "te_listening te"
  obtain s session where st: "claude_start ?env (te_nonce te) sources (an_start_request_id spawn) (an_launch spawn)
      (an_provider_options spawn) (te_process te) True = (s, session)" by fastforce
  have agent: "re_agent ?env = an_agent_id spawn"
    by (simp add: rt_env_def)
  have well: "started_well (an_start_request_id spawn) (an_agent_id spawn) (s, session)"
    using claude_start_well [of "an_start_request_id spawn" ?env] st agent by metis
  show ?thesis
  proof (cases session)
    case None
    then show ?thesis
      using l st well task_answers_start by (simp add: run_claude_def)
  next
    case (Some sid)
    obtain s' running where r: "claude_loop ?env sid inputs s = (s', running)" by fastforce
    have "answered [an_start_request_id spawn] s"
      using well by (simp add: started_well_def)
    from claude_answers.loop_answers [OF this r [unfolded claude_loop_def]] show ?thesis
      using l st Some r by (auto simp: run_claude_def task_answers_def answered_def agent)
  qed
qed

lemma spawn_agent_answers: "te_listening te \<Longrightarrow> task_answers spawn inputs (spawn_agent te spawn config inputs)"
  by (simp add: spawn_agent_def run_codex_answers run_claude_answers split: Provider.split)


text \<open>The demonstration conversation: a prompt, then a history request, then the end.\<close>

definition demo_spawn :: AgentSpawn where
  "demo_spawn = \<lparr>an_provider = Codex, an_agent_id = ''a'', an_cwd = ''/w'', an_start_request_id = Integer 1,
     an_launch = LaunchStart, an_provider_options = default_options\<rparr>"

definition demo_task :: TaskEnv where
  "demo_task = \<lparr>te_codec = CodexRuntime.demo_codec, te_uuid = \<lambda>n. replicate n CHR ''u'', te_stamp = \<lambda>_. ''now'',
     te_clock = \<lambda>_. 0, te_nonce = [], te_resolve = \<lambda>_. None,
     te_process = Some (demo_peer [frame_line CHR ''i'', frame_line CHR ''t'', frame_line CHR ''p'', frame_line CHR ''a''] 1 []),
     te_listening = True\<rparr>"

definition demo_settings :: RuntimeConfig where
  "demo_settings = \<lparr>rc_codex = \<lparr>cs_program = ''codex'', cs_args = []\<rparr>, rc_codex_thread_locks = None,
     rc_claude = \<lparr>cs_program = ''python3'', cs_args = []\<rparr>, rc_claude_setting_sources = [], rc_callback_timeout = 300\<rparr>"

lemma demo_rt_env: "rt_env demo_task demo_spawn 300 = CodexRuntime.demo_env"
  by (simp add: rt_env_def demo_task_def demo_spawn_def CodexRuntime.demo_env_def)

text \<open>Between turns an interrupt is answered at once.\<close>

definition idle_answer :: json where
  "idle_answer = jobj [(''interrupted'', JBool False), (''reason'', JString ''no_active_turn'')]"

lemma demo_interrupted:
  "\<exists>runtime. spawn_agent demo_task demo_spawn demo_settings [InCommand (CmdInterrupt k)]
      = ([EvStarted (Integer 1) ''a'' ''T'' runtime, EvResponse k idle_answer], True)
    \<and> spawn_agent demo_task demo_spawn demo_settings [InCommand (CmdInterrupt k), InCommand CmdShutdown, InProvider]
      = ([EvStarted (Integer 1) ''a'' ''T'' runtime, EvResponse k idle_answer, EvStopped ''a''], False)"
proof -
  obtain out runtime where st: "codex_start CodexRuntime.demo_env (\<lambda>_. None) ''codex'' (Integer 1) LaunchStart default_options
      (te_process demo_task) True
    = (emit (EvStarted (Integer 1) ''a'' ''T'' runtime)
        (new_task (demo_peer [frame_line CHR ''p'', frame_line CHR ''a''] 3 out) True), Some ''T'')"
    using demo_start by (auto simp: demo_task_def)
  have "te_listening demo_task" "te_resolve demo_task = (\<lambda>_. None)"
    by (simp_all add: demo_task_def)
  with st show ?thesis
    by (simp add: spawn_agent_def run_codex_def demo_spawn_def demo_settings_def idle_answer_def
        demo_rt_env [unfolded demo_spawn_def] codex_loop_def codex_round_def codex_command_def codex_interrupt_def
        deny_all_codex_requests_def codex_finish_def new_task_def emit_def respond_ok_def runtime_stopped_def
        CodexRuntime.demo_env_def)
qed


end
