(* ===== verification/BrokerTasks.thy ===== *)
theory BrokerTasks
  imports BrokerMirror AgentTask
begin

text \<open>
  The broker and its provider tasks together: what a task promises about its reports, put in front of
  a broker in the middle of a run, gives every client its answer.
\<close>

section \<open>Queued prompts have keys of their own\<close>

definition named :: "Broker \<Rightarrow> bool" where
  "named b = (desk_ok b \<and> set (b_queued_requests b) \<subseteq> Collect queue_key)"

lemma queue_not_ticket: "\<not> queue_key (ticket_key m n)"
  by (auto simp: queue_key_def ticket_key_def)

lemma bstep_named: "bstep env b b' \<Longrightarrow> set (b_queued_requests b) \<subseteq> Collect queue_key \<Longrightarrow>
    set (b_queued_requests b') \<subseteq> Collect queue_key"
  by (induction rule: bstep.induct)
    (auto simp: send_transcript_patch_def send_if_ready_def send_event_def send_def tick_def insert_agent_def
      remove_agents_def mark_history_def upd_agent_def split: option.split)

lemma send_events_queued [simp]: "b_queued_requests (send_events es b) = b_queued_requests b"
  by (induction es b rule: send_events.induct) (simp_all add: send_event_def send_def split: option.split)

lemma move_named: "move env b b' \<Longrightarrow> set (b_queued_requests b) \<subseteq> Collect queue_key \<Longrightarrow>
    set (b_queued_requests b') \<subseteq> Collect queue_key"
  by (induction rule: move.induct)
    (auto simp: send_def runtime_request_def Let_def forget_request_def take_over_def hang_up_def greet_def open_session_def
      split: option.splits ReplayResult.splits dest: bstep_named)

interpretation naming: kept env named for env
  by unfold_locales (auto simp: named_def dest: desk_ok_move move_named)

section \<open>A waiting request, until it is answered\<close>

text \<open>Request \<open>k\<close> of connection \<open>g\<close>, the client's \<open>i\<close>: it waits, or it has been answered for good.\<close>

definition owed :: "u64 \<Rightarrow> RequestId \<Rightarrow> RequestId \<Rightarrow> Broker \<Rightarrow> bool" where
  "owed g k i b = (map_of (tickets b) k = Some (g, i))"

definition given :: "RequestId \<Rightarrow> Broker \<Rightarrow> bool" where
  "given k b = (\<exists>m n. k = ticket_key m n \<and> n < unat (b_next_request b))"

definition paid :: "u64 \<Rightarrow> RequestId \<Rightarrow> RequestId \<Rightarrow> Broker \<Rightarrow> bool" where
  "paid g k i b = (k \<notin> fst ` set (tickets b) \<and> json_of_request_id i \<in># answered_ids g b)"

lemma owed_silently: "silently env b b' \<Longrightarrow> owed g k i b' = owed g k i b"
  by (auto simp: owed_def dest: silently_link)

lemma paid_silently: "silently env b b' \<Longrightarrow> paid g k i b' = paid g k i b"
  by (simp add: paid_def silently_link silently_answered [of env b b' g])

lemma owed_key: "owed g k i b \<Longrightarrow> k \<in> fst ` set (tickets b)"
  unfolding owed_def by (drule map_of_SomeD) force

lemma owed_given: "owed g k i b \<Longrightarrow> desk_ok b \<Longrightarrow> given k b"
  by (force simp: owed_def desk_ok_def given_def dest!: map_of_SomeD)

text \<open>Serving another request leaves it waiting.\<close>

lemma owed_served:
  assumes "served env j b b'" and "on_link g b" and "\<not> b_panicked b'" and "owed g k i b"
  shows "owed g k i b'"
  using assms
proof (induction rule: served.induct)
  case (answered b b1 m b2)
  then have "owed g k i (send m b1)"
    using owed_silently [OF answered(1)] by (simp add: owed_def)
  then show ?case
    using owed_silently [OF answered(3)] by simp
next
  case (deferred b b1 b2)
  obtain k2 b3 where rr: "runtime_request j b1 = (k2, b3)" by (cases "runtime_request j b1")
  have np: "\<not> b_panicked b3"
    using deferred rr silently_panicked by fastforce
  then have "\<not> b_panicked b1"
    using move_panicked [OF move.register, of b1 j] rr by auto
  then have d: "desk_ok b1" and o1: "owed g k i b1"
    using deferred silently_on_link [of g b env b1] by (auto simp: owed_silently on_link_def)
  have "k2 \<noteq> k"
    using register_tickets [OF rr np d] owed_key [OF o1] by blast
  then have "owed g k i b3"
    using register_tickets [OF rr np d] o1 by (simp add: owed_def)
  then show ?case
    using owed_silently [OF deferred(2)] rr by simp
next
  case (withdrawn b b1 k2 b2 b3 m b4)
  have np: "\<not> b_panicked b3"
    using withdrawn(5,7) silently_panicked by (fastforce simp: forget_request_def)
  then have np2: "\<not> b_panicked b2"
    using withdrawn(3) silently_panicked by blast
  then have "\<not> b_panicked b1"
    using move_panicked [OF move.register, of b1 j] withdrawn(2) by auto
  then have d: "desk_ok b1" and o1: "owed g k i b1"
    using withdrawn silently_on_link [of g b env b1] by (auto simp: owed_silently on_link_def)
  note reg = register_tickets [OF withdrawn(2) np2 d]
  have "tickets b3 = (k2, b_generation b1, j) # tickets b1" "k2 \<notin> fst ` set (tickets b1)"
    using reg silently_link [OF withdrawn(3)] by metis+
  then have "tickets (forget_request k2 b3) = tickets b1"
    by (simp add: forget_tickets filter_other_keys)
  then have "owed g k i (send m (forget_request k2 b3))"
    using o1 by (simp add: owed_def)
  then show ?case
    using owed_silently [OF withdrawn(5)] by simp
qed

text \<open>A report settles it or leaves it waiting.\<close>

lemma settle_tickets: "tickets (send_runtime_response k response b) = filter (\<lambda>t. fst t \<noteq> k) (tickets b)"
proof (cases "map_of (b_pending b) k")
  case None
  then have "k \<notin> fst ` set (tickets b)"
    by (simp add: map_of_eq_None_iff tickets_def image_image case_prod_unfold)
  then show ?thesis
    using None by (simp add: send_runtime_response_def filter_other_keys)
qed (simp add: send_runtime_response_def Let_def forget_tickets)

lemma map_of_other_keys: "j \<noteq> k \<Longrightarrow> map_of (filter (\<lambda>t. fst t \<noteq> j) xs) k = map_of xs k"
  by (induction xs) auto

lemma owed_settle:
  assumes "owed g k i b" and "on_link g b" and "\<And>j. answer_to j (response j)"
  shows "owed g k i (send_runtime_response k2 response b) \<or> k2 = k \<and> paid g k i (send_runtime_response k2 response b)"
proof (cases "k2 = k")
  case True
  have "map_of (tickets b) k = Some (b_generation b, i)" "b_output b = Some g"
    using assms(1,2) by (simp_all add: owed_def on_link_def)
  from settle_answers [OF this assms(3)] show ?thesis
    using True by (auto simp: paid_def)
next
  case False
  then show ?thesis
    using assms(1) by (simp add: owed_def settle_tickets map_of_other_keys)
qed

lemma owed_reported:
  assumes "reported env b b'" and "on_link g b" and "\<not> b_panicked b'" and "owed g k i b"
  shows "owed g k i b' \<or> paid g k i b'"
  using assms
proof (induction rule: reported.induct)
  case (settled b b1 response k2 b2)
  have "\<not> b_panicked (send_runtime_response k2 response b1)"
    using settled silently_panicked by blast
  then have "\<not> b_panicked b1"
    by (auto simp: send_runtime_response_def forget_request_def Let_def split: option.splits if_splits)
  then have "on_link g b1" "owed g k i b1"
    using settled silently_on_link owed_silently by blast+
  from owed_settle [OF this(2,1) settled(2)] show ?case
    using settled(3) owed_silently paid_silently by blast
qed (simp add: owed_silently)

lemma owed_settled:
  assumes "settles k report b" and "on_link g b" and "\<not> b_panicked (handle_runtime_event env report b)" and "owed g k i b"
  shows "paid g k i (handle_runtime_event env report b)"
proof -
  let ?b' = "handle_runtime_event env report b"
  obtain b1 response where r: "silently env b b1" "\<And>j. answer_to j (response j)"
    "silently env (send_runtime_response k response b1) ?b'"
    using report_settles [OF assms(1)] by blast
  have "\<not> b_panicked (send_runtime_response k response b1)"
    using r(3) assms(3) silently_panicked by blast
  then have "\<not> b_panicked b1"
    by (auto simp: send_runtime_response_def forget_request_def Let_def split: option.splits if_splits)
  then have b1: "on_link g b1" "owed g k i b1"
    using assms(2,4) r(1) silently_on_link owed_silently by blast+
  have "map_of (tickets b1) k = Some (b_generation b1, i)" "b_output b1 = Some g"
    using b1 by (simp_all add: owed_def on_link_def)
  from settle_answers [OF this r(2)] have "paid g k i (send_runtime_response k response b1)"
    by (auto simp: paid_def)
  then show ?thesis
    by (simp add: paid_silently [OF r(3)])
qed

text \<open>An answered request stays answered.\<close>

lemma answered_bstep: "bstep env b b' \<Longrightarrow> j \<in># answered_ids g b \<Longrightarrow> j \<in># answered_ids g b'"
  by (simp add: bstep_answered)

lemma send_events_answered: "j \<in># answered_ids g b \<Longrightarrow> j \<in># answered_ids g (send_events es b)"
  by (induction es b rule: send_events.induct) (auto simp: send_event_def)

lemma send_events_desk: "tickets (send_events es b) = tickets b \<and> b_next_request (send_events es b) = b_next_request b"
  by (induction es b rule: send_events.induct) (simp_all add: send_event_def)

lemma open_session_desk: "tickets (open_session b) = tickets b \<and> b_next_request (open_session b) = b_next_request b"
  using send_events_desk [of _ "b\<lparr>b_phase := Ready\<rparr>"]
  by (auto simp: open_session_def Let_def tickets_def split: ReplayResult.split)

lemma open_session_answered: "j \<in># answered_ids g b \<Longrightarrow> j \<in># answered_ids g (open_session b)"
proof -
  have "answered_ids g (b\<lparr>b_phase := Ready\<rparr>) = answered_ids g b"
    by (simp add: answered_ids_def sent_on_def)
  then show "j \<in># answered_ids g b \<Longrightarrow> j \<in># answered_ids g (open_session b)"
    using send_events_answered [of j g "b\<lparr>b_phase := Ready\<rparr>"]
    by (auto simp: open_session_def Let_def split: ReplayResult.split)
qed

lemma given_bstep: "bstep env b b' \<Longrightarrow> given k b \<Longrightarrow> given k b'"
  unfolding given_def by (metis bstep_next order_less_le_trans)

lemma paid_move:
  assumes "desk_ok b \<and> given k b \<and> paid g k i b" and "move env b b'" and "\<not> b_panicked b'"
  shows "desk_ok b' \<and> given k b' \<and> paid g k i b'"
proof -
  have "desk_ok b'"
    using assms desk_ok_move by blast
  moreover have "given k b' \<and> paid g k i b'"
    using assms(2)
  proof cases
    case quiet
    then show ?thesis
      using assms(1) given_bstep [of env b b' k] bstep_link [of env b b'] bstep_answered [of env b b' g]
      by (simp add: paid_def)
  next
    case (register j)
    obtain k2 where rr: "runtime_request j b = (k2, b')"
      using register by (cases "runtime_request j b") simp
    from register_tickets [OF rr assms(3)] assms(1)
    have t: "tickets b' = (k2, b_generation b, j) # tickets b" "k2 = ticket_key (unat (b_generation b)) (unat (b_next_request b))"
      "unat (b_next_request b') = Suc (unat (b_next_request b))" "b_sent b' = b_sent b" by blast+
    obtain m n where k: "k = ticket_key m n" "n < unat (b_next_request b)"
      using assms(1) by (auto simp: given_def)
    have "k2 \<noteq> k"
      using ticket_key_inject k t(2) by blast
    moreover have "given k b'"
      unfolding given_def k(1) t(3) using k(2) less_SucI by blast
    ultimately show ?thesis
      using assms(1) t by (auto simp: paid_def answered_ids_def sent_on_def)
  next
    case (forget k2)
    then show ?thesis
      using assms(1) by (auto simp: paid_def given_def forget_tickets) (auto simp: forget_request_def)
  next
    case start
    then show ?thesis
      using assms(1) open_session_desk [of b] open_session_answered [of _ g b] by (auto simp: paid_def given_def)
  next
    case (answer j m)
    then show ?thesis
      using assms(1) by (auto simp: paid_def given_def)
  next
    case (complain c t d)
    then show ?thesis
      using assms(1) by (auto simp: paid_def given_def)
  next
    case disconnect
    then show ?thesis
      using assms(1) by (auto simp: paid_def given_def hang_up_def tickets_def answered_ids_def sent_on_def)
  qed (use assms(1) in \<open>auto simp: paid_def given_def take_over_def greet_def tickets_def answered_ids_def sent_on_def\<close>)
  ultimately show ?thesis by blast
qed

interpretation settlement: kept env "\<lambda>b. desk_ok b \<and> given k b \<and> paid g k i b" for env g k i
  by unfold_locales (rule paid_move)

section \<open>Runs\<close>

lemma owed_frame:
  assumes f: "handle_client_frame env frame b = (stop, b')" and l: "on_link g b" and np: "\<not> b_panicked b'" and o: "owed g k i b"
  shows "owed g k i b'"
proof -
  have send: "owed g k i (send m b)" for m
    using o by (simp add: owed_def)
  have request: "owed g k i b'" if r: "handle_request env j name params b = (stop, b')" for j name params
    using request_served [OF r]
  proof
    assume "served env j b b'"
    then show ?thesis by (rule owed_served [OF _ l np o])
  next
    assume "b_phase b = AwaitInitialize \<and> (\<exists>c v. b' = reply j v (greet c b))"
    then obtain c v where "b' = send (success_response j v) (greet c b)"
      by (auto simp: reply_def)
    then show ?thesis
      using o by (simp add: owed_def) (simp add: greet_def tickets_def)
  qed
  have notice: "owed g k i (handle_notification env name params b)" for name params
    using o open_session_desk [of b]
    by (simp add: handle_notification_def owed_silently [OF silently_notify_state]) (simp add: owed_def)
  show ?thesis
    using f by (auto simp: handle_client_frame_def invalid_request_def Let_def send notice request
      split: if_splits option.splits)
qed

lemma owed_step:
  assumes step: "broker_step env x b = (r, b')" and l: "on_link g b" and np: "\<not> b_panicked b'"
    and still: "b_output b' = Some g" and o: "owed g k i b"
  shows "owed g k i b' \<or> paid g k i b'"
proof (cases x)
  case (FromRuntime e)
  then show ?thesis
    using step owed_reported [OF reported_runtime_event l _ o] np by auto
next
  case (FromClient c)
  have gen: "b_generation b = g"
    using l by (simp add: on_link_def)
  have hung: "broker_disconnect env g b1 = b' \<Longrightarrow> b_generation b1 = g \<Longrightarrow> owed g k i b'" for b1
    using hung_up [of env b1] still by auto
  have send: "owed g k i (send m b)" for m
    using o by (simp add: owed_def)
  show ?thesis
  proof (cases "\<exists>h. c = InConnected h \<or> input_generation c \<noteq> b_generation b")
    case True
    then show ?thesis
      using step FromClient gen still o
      by (auto simp: client_step broker_connect_def take_over_def input_generation_def
        split: if_splits ClientInput.splits option.splits)
  next
    case False
    then have cur: "handle_current env c b = (r, b')" "input_generation c = g"
      using step FromClient gen by (auto simp: client_step)
    show ?thesis
    proof (cases c)
      case (InFrame h frame)
      then obtain stop where f: "handle_client_frame env frame b = (stop, b')"
        using cur by (auto simp: handle_current_def split: prod.splits)
      then show ?thesis
        using owed_frame [OF f l np o] by simp
    next
      case (InFrameTooLarge h)
      then show ?thesis
        using cur gen hung send by (fastforce simp: handle_current_def input_generation_def Let_def split: if_splits)
    qed (use cur False o gen hung send in
      \<open>auto simp: handle_current_def input_generation_def split: if_splits\<close>)
  qed
qed

lemma answer_settles:
  "answer_id e = Some k \<Longrightarrow> \<not> is_start e \<Longrightarrow> \<not> queue_key k \<Longrightarrow> named b \<Longrightarrow> settles k e b"
  by (cases e) (auto simp: settles_def named_def)

lemma next_move: "move env b b' \<Longrightarrow> \<not> b_panicked b' \<Longrightarrow> unat (b_next_request b) \<le> unat (b_next_request b')"
  by (induction rule: move.induct)
    (auto simp: bstep_next runtime_request_def Let_def forget_request_def take_over_def hang_up_def greet_def
      open_session_desk checked_add1_Some split: option.splits)

interpretation numbering: kept env "\<lambda>b. n \<le> unat (b_next_request b)" for env n
  by unfold_locales (auto dest: next_move)

lemma next_step: "broker_step env x b = (r, b') \<Longrightarrow> \<not> b_panicked b' \<Longrightarrow> unat (b_next_request b) \<le> unat (b_next_request b')"
  using numbering.kept_step [where n = "unat (b_next_request b)"] by blast

lemma still_linked:
  assumes "broker_step env x b = (r1, b1)" and "\<not> b_panicked b1" and "on_link g b"
    and "broker_run env xs b1 = Some (r, b')" and "b_output b' = Some g"
  shows "b_output b1 = Some g"
proof (rule ccontr)
  assume "b_output b1 \<noteq> Some g"
  moreover have "g \<le> b_generation b1"
    using reached.kept_step [OF assms(1) _ assms(2)] assms(3) by (simp add: on_link_def)
  ultimately have "gone g b1" by (simp add: gone_def)
  with ended.kept_run [OF assms(4), of g] assms(5) show False by (simp add: gone_def)
qed

lemma owed_run:
  assumes "broker_run env xs b = Some (Continue, b')" and "on_link g b" and "named b" and "owed g k i b"
    and "FromRuntime e \<in> set xs" and "answer_id e = Some k" and "\<not> is_start e" and "b_output b' = Some g"
  shows "paid g k i b'"
  using assms
proof (induction xs arbitrary: b)
  case (Cons x xs)
  obtain r1 b1 where st: "broker_step env x b = (r1, b1)" by (cases "broker_step env x b")
  have np: "\<not> b_panicked b1" and r: "r1 = Continue" and run: "broker_run env xs b1 = Some (Continue, b')"
    using Cons.prems(1) st by (auto split: if_splits Outcome.splits)
  have out: "b_output b1 = Some g"
    by (rule still_linked [OF st np Cons.prems(2) run Cons.prems(8)])
  have d: "desk_ok b" using Cons.prems(3) by (simp add: named_def)
  have n1: "named b1" by (rule naming.kept_step [OF st Cons.prems(3) np])
  then have l1: "on_link g b1"
    using out by (auto simp: on_link_def named_def desk_ok_def)
  have given: "given k b" by (rule owed_given [OF Cons.prems(4) d])
  then have "\<not> queue_key k"
    using queue_not_ticket by (auto simp: given_def)
  have for_good: "paid g k i b'" if p: "paid g k i b1"
  proof -
    have "unat (b_next_request b) \<le> unat (b_next_request b1)"
      by (rule next_step [OF st np])
    then have "given k b1"
      using given by (auto simp: given_def intro: order_less_le_trans)
    then show ?thesis
      using settlement.kept_run [OF run, of k g i] n1 p by (simp add: named_def)
  qed
  show ?case
  proof (cases "x = FromRuntime e")
    case True
    then have "b1 = handle_runtime_event env e b"
      using st by simp
    then have "paid g k i b1"
      using owed_settled [OF answer_settles [OF Cons.prems(6,7) \<open>\<not> queue_key k\<close> Cons.prems(3)] Cons.prems(2) _ Cons.prems(4)] np
      by simp
    then show ?thesis by (rule for_good)
  next
    case False
    then have "FromRuntime e \<in> set xs"
      using Cons.prems(5) by simp
    then show ?thesis
      using owed_step [OF st Cons.prems(2) np out Cons.prems(4)] for_good
        Cons.IH [OF run l1 n1 _ _ Cons.prems(6,7,8)] by blast
  qed
qed simp

section \<open>From the client to the provider task and back\<close>

lemma named_reachable:
  assumes "broker_new w config mode registry rfile agents status sfile = Some b0" and "broker_run env xs b0 = Some (r, b)"
  shows "named b"
proof -
  have "b_queued_requests b0 = []"
    using assms(1) by (auto simp: broker_new_def split: option.splits)
  then have "named b0"
    using broker_new_ok [OF assms(1)] by (simp add: named_def)
  then show ?thesis
    using naming.kept_run [OF assms(2)] by blast
qed

text \<open>The end of a task answers nothing: what it has left in its command channel waits for good.\<close>

lemma stop_answers_nothing:
  "tickets (handle_runtime_event env (EvStopped a) b) = tickets b
    \<and> answered_ids g (handle_runtime_event env (EvStopped a) b) = answered_ids g b"
  by (simp add: silently_link [OF silently_stopped] silently_answered [OF silently_stopped])

text \<open>
  C1.  A request that reaches a provider task is answered to its client.  Take a broker as every run
  leaves it, with a request of the current connection waiting under some key, and a task that is
  still running and has been given the command with this key, whatever else happened to the task.
  Once the broker has handled the report that the task makes about it, in between any other inputs
  and as long as the connection lasts, the request does not wait any more and the client has been
  sent a response under the identifier it chose.
\<close>

theorem agent_requests_answered:
  assumes reachable: "broker_new w config mode registry rfile agents status sfile = Some b0"
      "broker_run env before b0 = Some (Continue, b)"
    and current: "b_output b = Some g" and waiting: "map_of (tickets b) k = Some (g, i)"
    and task: "te_listening te" "spawn_agent te spawn settings inputs = (reports, True)"
    and command: "k \<in> set (filter_map input_request inputs)" "k \<noteq> an_start_request_id spawn"
    and delivered: "\<And>e. e \<in> set reports \<Longrightarrow> answer_id e = Some k \<Longrightarrow> FromRuntime e \<in> set after"
    and run: "broker_run env after b = Some (Continue, b')" and lasting: "b_output b' = Some g"
  shows "k \<notin> fst ` set (tickets b') \<and> json_of_request_id i \<in># answered_ids g b'"
proof -
  have n: "named b" by (rule named_reachable [OF reachable])
  then have l: "on_link g b"
    using current by (auto simp: on_link_def named_def desk_ok_def)
  have ans: "answers reports = an_start_request_id spawn # filter_map input_request inputs" "starts_first reports"
    using spawn_agent_answers [OF task(1), of spawn inputs settings] task(2) by (auto simp: task_answers_def)
  then have "k \<in> set (answers reports)"
    using command(1) by simp
  then obtain e where e: "e \<in> set reports" "answer_id e = Some k"
    by (auto simp: answers_def set_filter_map)
  have "\<not> is_start e"
    by (rule late_answer [OF ans(2,1) e command(2)])
  from owed_run [OF run l n _ delivered [OF e] e(2) this lasting] waiting show ?thesis
    by (simp add: owed_def paid_def)
qed

lemma response_calm: "b_panicked (handle_runtime_response env k result b) = b_panicked b"
  by (simp add: handle_runtime_response_def Let_def unqueue_request_def send_runtime_response_def forget_request_def
      replace_transcript_history_def send_transcript_patch_def split: option.split prod.split)

text \<open>The demonstration session starts an agent; the demonstration task is handed that request.\<close>

definition demo_start_params :: json where
  "demo_start_params = jobj [(''provider'', JString ''codex''), (''cwd'', JString ''/w''),
     (''workspace_strategy'', JString ''shared'')]"

lemma demo_start_reads: "of_start demo_start_params =
    Some \<lparr>sp_provider = Codex, sp_cwd = Some ''/w'', sp_workspace_strategy = Some Shared, sp_worktree_path = None,
      sp_managed_workspace = None, sp_provider_options = None\<rparr>"
  by (simp add: demo_start_params_def of_start_def struct_fields_jobj launch_fields_def field_defs of_enum_def of_provider_def
      of_strategy_def)

definition demo_start :: BrokerInput where
  "demo_start = FromClient (InFrame 1 (demo_request ''s'' ''agent/start'' demo_start_params))"

lemma demo_launch:
  assumes "b_agents b = b_agents demo_agents" and "b_mode b = Durable" and "b_config b = demo_config"
    and "b_next_request b = 1" and "b_pending b = []" and "b_generation b = 1" and "\<not> b_panicked b"
    and "b_phase b = Ready" and "b_registry b = None" and "b_status b = None" and "b_output b = Some 1"
  shows "\<exists>b'. broker_step BrokerDemo.demo_env demo_start b = (Continue, b') \<and> tickets b' = [(ticket_key 1 1, 1, String ''s'')]
    \<and> \<not> b_panicked b' \<and> b_output b' = Some 1"
proof -
  let ?env = BrokerDemo.demo_env
  let ?b' = "start_with ?env (String ''s'') (the (of_start demo_start_params)) LaunchStart b"
  have world: "now ?env c = quiet_world\<lparr>w_uuid := show_nat (b_ticks c)\<rparr>" for c
    by (simp add: now_def BrokerDemo.demo_env_def)
  have silent: "tickets (notify_state env c) = tickets c" "b_output (notify_state env c) = b_output c" for env c
    using silently_link [OF silently_notify_state] by (simp_all add: link_def)
  have calm: "b_panicked (notify_state env c) = b_panicked c"
    if "b_phase c = Ready" "b_registry c = None" "b_status c = None" for env c
    using that by (simp add: notify_ready)
  have none: "\<not> any_agent (occupies identity) c" if "b_agents c = b_agents demo_agents" for identity c
    using that by (simp add: any_agent_def occupies_def demo_agents_def restored_agent_def)
  obtain c where c: "?b' = notify_state ?env c" "tickets c = [(ticket_key 1 1, 1, String ''s'')]" "b_phase c = Ready"
    "b_registry c = None" "b_status c = None" "\<not> b_panicked c" "b_output c = Some 1"
    using assms none
    by (simp add: demo_start_reads start_with_def resolve_launch_workspace_def resolve_explicit_workspace_def
        launch_agent_def Let_def default_options_def validate_provider_options_def canonical_directory_def world
        quiet_world_def is_absolute_def starts_with_def validate_workspace_def workspace_launch_allowed_def
        demo_config_def runtime_request_def tick_def checked_add1_def u64_max_def)
      (simp add: tickets_def insert_agent_def map_insert_def ticket_key_def)
  have "handle_client_frame ?env (demo_request ''s'' ''agent/start'' demo_start_params) b = (False, ?b')"
    using demo_request_frame [of ?env "''s''" "''agent/start''"] assms(8) demo_start_reads
    by (simp add: demo_start_params_def handle_request_def ready_handlers_def start_agent_def)
  then have "broker_step ?env demo_start b = (Continue, ?b')"
    using assms(6) by (simp add: demo_start_def input_generation_def handle_current_def)
  then show ?thesis
    using c silent calm by simp
qed

theorem agent_requests_answered_witness:
  "\<exists>b b' reports. broker_run BrokerDemo.demo_env (demo_greeting @ [demo_start]) demo_agents = Some (Continue, b)
    \<and> map_of (tickets b) (ticket_key 1 1) = Some (1, String ''s'')
    \<and> spawn_agent demo_task demo_spawn demo_settings [InCommand (CmdInterrupt (ticket_key 1 1))] = (reports, True)
    \<and> broker_run BrokerDemo.demo_env (map FromRuntime (filter (\<lambda>e. answer_id e = Some (ticket_key 1 1)) reports)) b
      = Some (Continue, b')
    \<and> ticket_key 1 1 \<notin> fst ` set (tickets b') \<and> json_of_request_id (String ''s'') \<in># answered_ids 1 b'"
proof -
  let ?k = "ticket_key 1 1" and ?in = "[InCommand (CmdInterrupt (ticket_key 1 1))]" and ?env = BrokerDemo.demo_env
  obtain b0 where run0: "broker_run ?env demo_greeting demo_agents = Some (Continue, b0)"
    and b0: "b_phase b0 = Ready" "b_output b0 = Some 1" "b_agents b0 = b_agents demo_agents" "\<not> b_panicked b0" "b_mode b0 = Durable"
      "b_pending b0 = []" "b_next_request b0 = 1" "b_config b0 = demo_config" "b_registry b0 = None" "b_status b0 = None"
    using demo_greeted by blast
  have "b_generation b0 = 1"
    using desk.kept_run [OF run0] broker_new_ok [OF demo_agents_new] b0(2) by (auto simp: desk_ok_def)
  from demo_launch [OF b0(3,5,8,7,6) this b0(4,1,9,10,2)] obtain b where
    b: "broker_step ?env demo_start b0 = (Continue, b)" "tickets b = [(?k, 1, String ''s'')]" "\<not> b_panicked b" "b_output b = Some 1"
    by blast
  have run: "broker_run ?env (demo_greeting @ [demo_start]) demo_agents = Some (Continue, b)"
    using run0 b by (simp add: run_append)
  obtain reports where task: "spawn_agent demo_task demo_spawn demo_settings ?in = (reports, True)"
    "filter (\<lambda>e. answer_id e = Some ?k) reports
      = [EvResponse ?k idle_answer]"
    using demo_interrupted [of ?k] by (auto simp: ticket_key_def)
  let ?e = "EvResponse ?k idle_answer"
  let ?b' = "handle_runtime_event ?env ?e b"
  have after: "broker_run ?env [FromRuntime ?e] b = Some (Continue, ?b') \<and> b_output ?b' = Some 1"
    using b(3,4) reported_link [OF reported_runtime_event, of ?env ?e b] by (simp add: response_calm link_def)
  have "?k \<notin> fst ` set (tickets ?b') \<and> json_of_request_id (String ''s'') \<in># answered_ids 1 ?b'"
  proof (rule agent_requests_answered [OF demo_agents_new run b(4) _ _ task(1)])
    show "FromRuntime e \<in> set [FromRuntime ?e]" if "e \<in> set reports" "answer_id e = Some ?k" for e
      using that arg_cong [OF task(2), of set] by auto
  qed (use b(2) after in \<open>simp_all add: demo_task_def demo_spawn_def ticket_key_def command_request_def\<close>)
  then show ?thesis
    using run task after b(2) by (intro exI [of _ b] exI [of _ ?b'] exI [of _ reports]) simp
qed

end
