(* ===== verification/Spec2Isabelle.thy ===== *)
theory Spec2Isabelle
  imports Prelude Json Protocol Framing ReplayLog Markdown Transcript Peer CodexAdapter WorkerAdapter Human Projection
    Runtime CodexRuntime ClaudeRuntime Host Workspace Discovery Registry Status BrokerParams BrokerChecks BrokerState
    BrokerEvents BrokerRequests BrokerInputs BrokerConn BrokerSteps BrokerServed BrokerMoves BrokerDemo BrokerLedger
    BrokerAgents BrokerStream BrokerMirror BrokerConfig Pumps SocketPath Durable Options Probe
    BrokerPromises AgentTask BrokerTasks
begin

text \<open>
  The agent-manager broker: a verification development for the Rust program under
  \<open>src/crates/agent-manager-broker/src\<close>.  File names below are relative to that directory.

  \<^bold>\<open>The program.\<close>  The broker stands between an editor and coding agents.  An editor speaks JSON-RPC
  with it, one message per line, over standard input and output (\<open>serve\<close>) or over a Unix socket
  (\<open>serve-durable\<close>).  For every agent the broker runs a task that drives one provider process, a Codex
  App Server or a Claude worker, again by JSON-RPC over pipes.  The broker task owns all shared state
  and handles one input at a time: a client frame, or a report of a provider task.  Provider tasks
  take commands from a bounded channel, report events, and ask for human decisions, which travel to
  the client and back.  Around this core are a replay buffer for reconnecting clients, a transcript
  per agent that is sent as line patches, a registry and a status file, and an adapter to the
  helper that hands out worktrees.

  \<^bold>\<open>The model.\<close>  Every handler is a function from the state of its component to the new state; a
  struct is a record, an enum a datatype, an error a value, a panic the result \<open>None\<close> or the flag
  \<open>b_panicked\<close>, which ends a run of the broker.  Strings are the bytes of their UTF-8 form, machine
  integers words of their width with checked or saturating arithmetic as in the code, a \<open>HashMap\<close> an
  association list.  What the code asks of the outside is an argument: the clock, fresh identifiers,
  the file system and other programs are fields of a \<open>World\<close> (\<open>Host\<close>), of which the broker sees a new
  one at each tick (\<open>be_world env (b_ticks b)\<close>); \<open>serde_json\<close>'s text form is the parameter \<open>codec\<close>, the
  Unicode table behind \<open>is_alphanumeric\<close> the parameter \<open>alnum\<close>; the other end of a pipe is a list of
  chunks (\<open>Peer\<close>).  A run of the broker is a list of inputs, a run of a task a list of what woke its
  \<open>select!\<close>; both lists are arbitrary in the theorems, so every interleaving is covered.

  \<^bold>\<open>Theories, parts and files.\<close>
  \<^item> \<open>Prelude\<close>, \<open>Json\<close>, \<open>Host\<close>: vocabulary, JSON values and how \<open>serde\<close> reads structs, the outside.
  \<^item> \<open>Protocol\<close>: the public types of \<open>protocol.rs\<close>.  \<open>Framing\<close>: \<open>framing.rs\<close>.  \<open>ReplayLog\<close>: \<open>replay.rs\<close>.
  \<^item> \<open>Markdown\<close>, \<open>Transcript\<close>: \<open>transcript.rs\<close>, the styling of lines and the messages with their patches.
  \<^item> \<open>Human\<close>: \<open>human.rs\<close>, recognising and answering decisions.  \<open>Projection\<close>: \<open>projection.rs\<close>.
  \<^item> \<open>Peer\<close>, \<open>CodexAdapter\<close> (\<open>codex.rs\<close>), \<open>WorkerAdapter\<close> (\<open>worker.rs\<close>): the two provider protocols.
  \<^item> \<open>Runtime\<close>, \<open>CodexRuntime\<close>, \<open>ClaudeRuntime\<close>, \<open>AgentTask\<close>: \<open>runtime.rs\<close>, what the two tasks share, the
    rounds of each, and the whole task as \<open>spawn_agent\<close> starts it.  \<open>Discovery\<close>: the sessions and models
    asked of a provider outside any agent.
  \<^item> \<open>Workspace\<close>: \<open>workspace.rs\<close>.  \<open>Registry\<close>: \<open>registry.rs\<close>.  \<open>Status\<close>: \<open>status.rs\<close>.
  \<^item> \<open>BrokerParams\<close>, \<open>BrokerChecks\<close>, \<open>BrokerState\<close>, \<open>BrokerEvents\<close>, \<open>BrokerRequests\<close>, \<open>BrokerInputs\<close>,
    \<open>BrokerConn\<close>, \<open>BrokerConfig\<close>, \<open>Pumps\<close>: \<open>embedded.rs\<close>, in this order the parameters of requests and
    their checks, the state, the reports of tasks, the handlers, the dispatch with connections and the
    loop (\<open>broker_run\<close>), the configuration, and the tasks that read and write the client's stream.
  \<^item> \<open>SocketPath\<close>, \<open>Durable\<close>: \<open>durable.rs\<close>.  \<open>Options\<close>, \<open>Probe\<close>: \<open>main.rs\<close>.

  \<^bold>\<open>How properties of the broker are proved.\<close>  \<open>BrokerSteps\<close> writes every handler as a sequence of small
  steps (\<open>bstep\<close>), \<open>BrokerServed\<close> shows that every request handler serves its request (\<open>served\<close>: answered,
  registered with a task, or registered and withdrawn), and \<open>BrokerMoves\<close> that every input is a
  sequence of moves.  The locale \<open>kept\<close> turns a predicate that no move breaks into an invariant of
  every run; it is interpreted in \<open>BrokerAgents\<close> (the agent table), \<open>BrokerLedger\<close> (the account of
  requests), \<open>BrokerStream\<close> (the events of a connection), \<open>BrokerMirror\<close> (the editor's copies),
  \<open>BrokerPromises\<close> (the registry file), \<open>BrokerTasks\<close> and \<open>Durable\<close>.  \<open>BrokerTasks\<close> puts the tasks of
  \<open>AgentTask\<close> beside the broker: a request that reaches a running task comes back to its client.
  The other contracts are \<open>event_log\<close> (a bounded window refines a history), \<open>line_server\<close> (patches keep a
  copy exact), \<open>provider_task\<close> (decisions are settled once) and \<open>answering_task\<close> (commands are answered
  once), the last two interpreted on both tasks, and \<open>option_loop\<close> for the two command lines.

  \<^bold>\<open>What is shown.\<close>  Requests: each is answered or waits with a task, never both, and the task answers
  what it takes.  Decisions: every one raised is settled once, nothing is granted but by an explicit
  allow, nobody present means refused.  Events and transcripts: a connection receives a contiguous
  piece of the history, a client's copy is exact, patches are minimal.  Agents: the table is
  consistent, queues are bounded, contexts stay inside the directory.  Files: the registry reads
  back what it stored, holds no prompt, and whatever it holds restores well-formed agents.  The
  service: it takes its socket safely, cleans up however it ends, and connections do not affect each
  other.  Below these, the exact behaviour of framing, replay, styling, adapters and options.

  \<^bold>\<open>Bounds and termination.\<close>  No definition uses fuel.  Reading loops end because the input shrinks
  (\<open>reader_weight\<close>, \<open>peer_weight\<close>), option loops because the index grows, Markdown and transcript loops by
  the rest of the line, the walk over JSON values by their size and the depth bound of the code.  The
  limits of the code (frame sizes, 32 queued prompts, 64 paths, 1000 models, 10000 agents, 8 MiB of
  registry) are definitions of the same names, or literals at the same places.

  \<^bold>\<open>Not modelled.\<close>  Starting and stopping provider processes, finding programs on the search path, the
  signal handlers, the help text and the process entry: they are calls of the operating system with
  no logic of their own.  The shutdown signal is taken between two inputs, not inside a handler.  A
  task's command channel is the log of accepted commands; which of them the task has read is the
  list of its inputs.  The Neovim plugin, the Claude worker (Python), the schemas, the release
  scripts and the tests are other programs.
\<close>

section \<open>Histories reach the transcript whole\<close>

lemma plain_message_kept:
  "plain_message m \<Longrightarrow> \<exists>msg. history_message provider model m = Some msg \<and> Some (msg_text msg) = get_str ''text'' m"
  by (auto simp: plain_message_def history_message_def new_message_def)

lemma plain_messages_kept:
  "list_all plain_message ms \<Longrightarrow>
   map (Some \<circ> msg_text) (filter_map (history_message provider model) ms) = map (get_str ''text'') ms"
proof (induction ms)
  case (Cons m ms)
  from plain_message_kept [of m provider model] Cons show ?case by auto
qed simp

text \<open>
  C38.  A provider's history reaches the transcript whole.  Whatever a provider returns, every
  message of its projected history becomes one message of the transcript, in order and with its
  text: the role names the projection produces are the ones the transcript accepts.
\<close>

theorem history_reaches_transcript:
  "\<exists>ms. jget ''messages'' (history_of provider result) = Some (JArray ms)
     \<and> map (Some \<circ> msg_text) (tr_messages (snd (replace_history alnum t ms provider model)))
       = map (get_str ''text'') ms"
proof -
  obtain ms where ms: "jget ''messages'' (history_of provider result) = Some (JArray ms)"
    "list_all plain_message ms"
    using history_plain by blast
  have "tr_messages (snd (tr_splice t1 s e new)) = tr_messages t1" for t1 s e new
    by (simp add: tr_splice_unfold Let_def)
  then have "map (Some \<circ> msg_text) (tr_messages (snd (replace_history alnum t ms provider model)))
      = map (Some \<circ> msg_text) (filter_map (history_message provider model) ms)"
    by (simp add: replace_history_def Let_def comp_def)
  then show ?thesis
    using ms plain_messages_kept by auto
qed

end
